(* ===== verification/Cpex_Prelude.thy ===== *)
theory Cpex_Prelude
  imports Main "HOL-Library.Word" "HOL-Library.Sublist" "HOL-Library.Multiset"
begin

text \<open>
  Shared vocabulary of the development: results, Rust strings as UTF-8 byte lists with the
  standard-library functions the sources call, the JSON value type the components exchange,
  and the operations of its insertion-ordered object maps (the workspace builds
  \<^verbatim>\<open>serde_json\<close> with \<^verbatim>\<open>preserve_order\<close>, so
  an object is an association list, \<^verbatim>\<open>insert\<close> replaces in place or appends and
  \<^verbatim>\<open>remove\<close> swaps the last entry into the hole).
\<close>

named_theorems json_simps \<open>equations of the JSON accessors\<close>
named_theorems res_splits \<open>case splits for results and options\<close>

section \<open>Results\<close>

text \<open>\<^verbatim>\<open>Result<T, E>\<close> is \<open>'e + 'a\<close>; \<open>rbind\<close> is the
  question mark operator.\<close>

fun rbind :: "'e + 'a \<Rightarrow> ('a \<Rightarrow> 'e + 'b) \<Rightarrow> 'e + 'b" where
  "rbind (Inl e) f = Inl e"
| "rbind (Inr x) f = f x"

definition ok_or :: "'e \<Rightarrow> 'a option \<Rightarrow> 'e + 'a" where
  "ok_or e x = (case x of None \<Rightarrow> Inl e | Some v \<Rightarrow> Inr v)"

definition map_err :: "('e \<Rightarrow> 'f) \<Rightarrow> 'e + 'a \<Rightarrow> 'f + 'a" where
  "map_err f r = (case r of Inl e \<Rightarrow> Inl (f e) | Inr x \<Rightarrow> Inr x)"

text \<open>\<^verbatim>\<open>Result::ok\<close>.\<close>

definition result_ok :: "'e + 'a \<Rightarrow> 'a option" where
  "result_ok r = (case r of Inl _ \<Rightarrow> None | Inr v \<Rightarrow> Some v)"

fun rmap :: "('a \<Rightarrow> 'e + 'b) \<Rightarrow> 'a list \<Rightarrow> 'e + 'b list" where
  "rmap f [] = Inr []"
| "rmap f (x # xs) = rbind (f x) (\<lambda>y. rbind (rmap f xs) (\<lambda>ys. Inr (y # ys)))"

lemma rbind_Inr_iff [simp]: "rbind x f = Inr z \<longleftrightarrow> (\<exists>y. x = Inr y \<and> f y = Inr z)"
  by (cases x) auto

lemma rbind_Inl_iff: "rbind x f = Inl e \<longleftrightarrow> x = Inl e \<or> (\<exists>y. x = Inr y \<and> f y = Inl e)"
  by (cases x) auto

lemma ok_or_Inr_iff [simp]: "ok_or e x = Inr v \<longleftrightarrow> x = Some v"
  by (auto simp: ok_or_def split: option.splits)

lemma ok_or_Inl_iff [simp]: "ok_or e x = Inl e' \<longleftrightarrow> x = None \<and> e' = e"
  by (auto simp: ok_or_def split: option.splits)

lemma ok_or_Some [simp]: "ok_or e (Some v) = Inr v"
  by (simp add: ok_or_def)

lemma ok_or_None [simp]: "ok_or e None = Inl e"
  by (simp add: ok_or_def)

lemma map_err_Inr [simp]: "map_err f r = Inr v \<longleftrightarrow> r = Inr v"
  by (cases r) (simp_all add: map_err_def)

lemma map_err_Inl: "map_err f r = Inl e \<longleftrightarrow> (\<exists>e'. r = Inl e' \<and> e = f e')"
  by (cases r) (auto simp: map_err_def)

lemma result_ok_Some [simp]: "result_ok r = Some v \<longleftrightarrow> r = Inr v"
  by (cases r) (simp_all add: result_ok_def)

lemma rmap_Inr_length: "rmap f xs = Inr ys \<Longrightarrow> length ys = length xs"
  by (induction xs arbitrary: ys) auto

lemma rmap_Inr_nth: "rmap f xs = Inr ys \<Longrightarrow> i < length xs \<Longrightarrow> f (xs ! i) = Inr (ys ! i)"
  by (induction xs arbitrary: ys i) (auto simp: nth_Cons split: nat.splits)

lemma rmap_total: "(\<And>x. x \<in> set xs \<Longrightarrow> f x = Inr (g x)) \<Longrightarrow> rmap f xs = Inr (map g xs)"
  by (induction xs) auto

lemmas [res_splits] = sum.splits option.splits

section \<open>Rust strings\<close>

text \<open>
  A Rust \<^verbatim>\<open>String\<close> is its UTF-8 byte sequence, a \<open>char list\<close> of bytes.
  \<open>ws_units\<close> lists the encodings of the Unicode white space characters, which is what
  \<^verbatim>\<open>str::trim\<close> strips.
\<close>

definition ws_units :: "string list" where
  "ws_units =
     [[CHR 0x09], [CHR 0x0A], [CHR 0x0B], [CHR 0x0C], [CHR 0x0D], [CHR 0x20],
      [CHR 0xC2, CHR 0x85], [CHR 0xC2, CHR 0xA0], [CHR 0xE1, CHR 0x9A, CHR 0x80],
      [CHR 0xE2, CHR 0x80, CHR 0x80], [CHR 0xE2, CHR 0x80, CHR 0x81],
      [CHR 0xE2, CHR 0x80, CHR 0x82], [CHR 0xE2, CHR 0x80, CHR 0x83],
      [CHR 0xE2, CHR 0x80, CHR 0x84], [CHR 0xE2, CHR 0x80, CHR 0x85],
      [CHR 0xE2, CHR 0x80, CHR 0x86], [CHR 0xE2, CHR 0x80, CHR 0x87],
      [CHR 0xE2, CHR 0x80, CHR 0x88], [CHR 0xE2, CHR 0x80, CHR 0x89],
      [CHR 0xE2, CHR 0x80, CHR 0x8A], [CHR 0xE2, CHR 0x80, CHR 0xA8],
      [CHR 0xE2, CHR 0x80, CHR 0xA9], [CHR 0xE2, CHR 0x80, CHR 0xAF],
      [CHR 0xE2, CHR 0x81, CHR 0x9F], [CHR 0xE3, CHR 0x80, CHR 0x80]]"

function strip_all :: "string list \<Rightarrow> string \<Rightarrow> string" where
  "strip_all us s =
     (case find (\<lambda>u. u \<noteq> [] \<and> prefix u s) us of
        None \<Rightarrow> s
      | Some u \<Rightarrow> strip_all us (drop (length u) s))"
  by pat_completeness auto
termination
  by (relation "measure (\<lambda>(us, s). length s)") (auto simp: find_Some_iff prefix_def)

declare strip_all.simps [simp del]

definition trim_start :: "string \<Rightarrow> string" where
  "trim_start s = strip_all ws_units s"

definition trim_end :: "string \<Rightarrow> string" where
  "trim_end s = rev (strip_all (map rev ws_units) (rev s))"

definition trim :: "string \<Rightarrow> string" where
  "trim s = trim_end (trim_start s)"

definition ascii_lower :: "char \<Rightarrow> char" where
  "ascii_lower c =
     (let n = of_char c :: nat in if 65 \<le> n \<and> n \<le> 90 then char_of (n + 32) else c)"

definition to_ascii_lowercase :: "string \<Rightarrow> string" where
  "to_ascii_lowercase s = map ascii_lower s"

definition eq_ignore_ascii_case :: "string \<Rightarrow> string \<Rightarrow> bool" where
  "eq_ignore_ascii_case a b \<longleftrightarrow> to_ascii_lowercase a = to_ascii_lowercase b"

text \<open>\<^verbatim>\<open>str::find\<close> with a string pattern: the byte index of the first match.\<close>

fun str_find :: "string \<Rightarrow> string \<Rightarrow> nat option" where
  "str_find pat [] = (if pat = [] then Some 0 else None)"
| "str_find pat (c # s) =
     (if prefix pat (c # s) then Some 0 else map_option Suc (str_find pat s))"

definition str_contains :: "string \<Rightarrow> string \<Rightarrow> bool" where
  "str_contains s pat \<longleftrightarrow> str_find pat s \<noteq> None"

text \<open>\<^verbatim>\<open>str::is_char_boundary\<close>: a byte that is not a UTF-8 continuation byte
  (or the end of the string).\<close>

definition continuation_byte :: "char \<Rightarrow> bool" where
  "continuation_byte c \<longleftrightarrow> (let n = of_char c :: nat in 128 \<le> n \<and> n < 192)"

definition is_char_boundary :: "string \<Rightarrow> nat \<Rightarrow> bool" where
  "is_char_boundary s i \<longleftrightarrow>
     i = 0 \<or> i = length s \<or> (i < length s \<and> \<not> continuation_byte (s ! i))"

fun join :: "string \<Rightarrow> string list \<Rightarrow> string" where
  "join sep [] = []"
| "join sep [x] = x"
| "join sep (x # y # ys) = x @ sep @ join sep (y # ys)"

text \<open>Decimal rendering of \<^verbatim>\<open>format!\<close>, and a quoted interpolation.\<close>

fun show_nat :: "nat \<Rightarrow> string" where
  "show_nat n =
     (if n < 10 then [char_of (48 + n)] else show_nat (n div 10) @ [char_of (48 + n mod 10)])"

declare show_nat.simps [simp del]

definition show_int :: "int \<Rightarrow> string" where
  "show_int i = (if i < 0 then CHR 0x2D # show_nat (nat (- i)) else show_nat (nat i))"

definition sq :: "string \<Rightarrow> string" where
  "sq s = CHR 0x27 # s @ [CHR 0x27]"

definition bq :: "string \<Rightarrow> string" where
  "bq s = CHR 0x60 # s @ [CHR 0x60]"

text \<open>The em dash of the messages.\<close>

definition dash :: string where
  "dash = [CHR 0xE2, CHR 0x80, CHR 0x94]"

lemma strip_all_length: "length (strip_all us s) \<le> length s"
proof (induction us s rule: strip_all.induct)
  case (1 us s)
  show ?case
  proof (cases "find (\<lambda>u. u \<noteq> [] \<and> prefix u s) us")
    case None
    then show ?thesis by (subst strip_all.simps) simp
  next
    case (Some u)
    from "1.IH" [OF Some] have "length (strip_all us (drop (length u) s)) \<le> length s"
      by simp
    with Some show ?thesis by (subst strip_all.simps) simp
  qed
qed

lemma strip_all_Nil [simp]: "strip_all us [] = []"
  using strip_all_length [of us "[]"] by simp

lemma strip_all_suffix: "suffix (strip_all us s) s"
proof (induction us s rule: strip_all.induct)
  case (1 us s)
  show ?case
  proof (cases "find (\<lambda>u. u \<noteq> [] \<and> prefix u s) us")
    case None
    then show ?thesis by (subst strip_all.simps) simp
  next
    case (Some u)
    from "1.IH" [OF Some] have "suffix (strip_all us (drop (length u) s)) s"
      using suffix_drop suffix_order.trans by blast
    with Some show ?thesis by (subst strip_all.simps) simp
  qed
qed

lemma trim_start_suffix: "suffix (trim_start s) s"
  by (simp add: trim_start_def strip_all_suffix)

lemma trim_length: "length (trim s) \<le> length s"
proof -
  have "length (trim s) \<le> length (trim_start s)"
    using strip_all_length [of _ "rev (trim_start s)"] by (simp add: trim_def trim_end_def)
  also have "\<dots> \<le> length s"
    by (simp add: trim_start_def strip_all_length)
  finally show ?thesis .
qed

lemma trim_Nil [simp]: "trim [] = []"
  using trim_length [of "[]"] by simp

lemma strip_all_done: "u \<in> set us \<Longrightarrow> u \<noteq> [] \<Longrightarrow> \<not> prefix u (strip_all us s)"
proof (induction us s rule: strip_all.induct)
  case (1 us s)
  show ?case
  proof (cases "find (\<lambda>u. u \<noteq> [] \<and> prefix u s) us")
    case None
    then have "strip_all us s = s" by (subst strip_all.simps) simp
    with None "1.prems" show ?thesis by (auto simp: find_None_iff)
  next
    case (Some v)
    with 1 show ?thesis by (subst strip_all.simps) simp
  qed
qed

lemma strip_all_unchanged: "\<forall>u \<in> set us. u \<noteq> [] \<longrightarrow> \<not> prefix u s \<Longrightarrow> strip_all us s = s"
proof -
  assume "\<forall>u \<in> set us. u \<noteq> [] \<longrightarrow> \<not> prefix u s"
  then have "find (\<lambda>u. u \<noteq> [] \<and> prefix u s) us = None" by (auto simp: find_None_iff)
  then show ?thesis by (subst strip_all.simps) simp
qed

lemma trim_end_prefix: "prefix (trim_end s) s"
  using strip_all_suffix [of "map rev ws_units" "rev s"] by (simp add: trim_end_def suffix_to_prefix)

lemma trim_idem [simp]: "trim (trim s) = trim s"
proof -
  have "trim_start (trim s) = trim s"
    unfolding trim_start_def
  proof (rule strip_all_unchanged, safe)
    fix u assume u: "u \<in> set ws_units" "u \<noteq> []" "prefix u (trim s)"
    then have "prefix u (trim_start s)"
      using trim_end_prefix prefix_order.trans by (metis trim_def)
    with u strip_all_done show False by (auto simp: trim_start_def)
  qed
  moreover have "trim_end (trim s) = trim s"
  proof -
    have "strip_all us (strip_all us t) = strip_all us t" for us t
      by (rule strip_all_unchanged) (auto simp: strip_all_done)
    then show ?thesis by (simp add: trim_def trim_end_def)
  qed
  ultimately show ?thesis by (metis trim_def)
qed

text \<open>A string between two visible ASCII characters is not trimmed.\<close>

definition visible :: "char \<Rightarrow> bool" where
  "visible c \<longleftrightarrow> (let n = of_char c :: nat in 33 \<le> n \<and> n \<le> 126)"

lemma ws_units_ends: "u \<in> set ws_units \<Longrightarrow> \<not> visible (hd u) \<and> \<not> visible (last u)"
  unfolding ws_units_def by (auto simp: visible_def Let_def)

lemma strip_all_visible:
  assumes "visible c" "\<And>u. u \<in> set us \<Longrightarrow> \<not> visible (hd u)"
  shows "strip_all us (c # s) = c # s"
proof -
  have "find (\<lambda>u. u \<noteq> [] \<and> prefix u (c # s)) us = None"
  proof (unfold find_None_iff, safe)
    fix u assume u: "u \<in> set us" "u \<noteq> []" "prefix u (c # s)"
    from u(2,3) have "hd u = c" by (cases u) auto
    with u assms show False by blast
  qed
  then show ?thesis by (subst strip_all.simps) simp
qed

lemma trim_start_visible: "visible c \<Longrightarrow> trim_start (c # s) = c # s"
  unfolding trim_start_def by (rule strip_all_visible) (simp_all add: ws_units_ends)

lemma trim_visible:
  assumes "s \<noteq> []" "visible (hd s)" "visible (last s)"
  shows "trim s = s"
proof -
  have "trim_start s = s"
    using assms trim_start_visible [of "hd s" "tl s"] by simp
  moreover have "strip_all (map rev ws_units) (rev s) = rev s"
  proof -
    have "\<not> visible (hd u)" if "u \<in> set (map rev ws_units)" for u
      using that ws_units_ends by (auto simp: hd_rev)
    then have "strip_all (map rev ws_units) (last s # tl (rev s)) = last s # tl (rev s)"
      using assms(3) by (rule strip_all_visible [rotated])
    moreover have "rev s = last s # tl (rev s)"
      using assms(1) by (metis hd_rev list.collapse rev_is_Nil_conv)
    ultimately show ?thesis by simp
  qed
  ultimately show ?thesis by (simp add: trim_def trim_end_def)
qed

lemma to_ascii_lowercase_idem [simp]:
  "to_ascii_lowercase (to_ascii_lowercase s) = to_ascii_lowercase s"
proof -
  have "ascii_lower (ascii_lower c) = ascii_lower c" for c
    by (auto simp: ascii_lower_def Let_def)
  then show ?thesis by (simp add: to_ascii_lowercase_def)
qed

lemma eq_ignore_ascii_case_refl [simp]: "eq_ignore_ascii_case a a"
  by (simp add: eq_ignore_ascii_case_def)

lemma eq_ignore_ascii_case_sym: "eq_ignore_ascii_case a b \<longleftrightarrow> eq_ignore_ascii_case b a"
  by (auto simp: eq_ignore_ascii_case_def)

lemma eq_ignore_ascii_case_lower [simp]:
  "eq_ignore_ascii_case (to_ascii_lowercase a) b \<longleftrightarrow> eq_ignore_ascii_case a b"
  by (simp add: eq_ignore_ascii_case_def)

lemma str_find_Some_prefix:
  "str_find pat s = Some i \<Longrightarrow> i \<le> length s \<and> prefix pat (drop i s)"
  by (induction s arbitrary: i) (auto split: if_splits)

lemma str_find_None_iff: "str_find pat s = None \<longleftrightarrow> \<not> sublist pat s"
  by (induction s) (auto simp: sublist_Cons_right)

lemma str_contains_iff_sublist: "str_contains s pat \<longleftrightarrow> sublist pat s"
  using str_find_None_iff [of pat s] by (auto simp: str_contains_def)

section \<open>Transition systems\<close>

text \<open>A relation with a set of initial states and an invariant: what is shown once here serves every
  state machine of the development.\<close>

definition reachable :: "('s \<Rightarrow> bool) \<Rightarrow> ('s \<Rightarrow> 's \<Rightarrow> bool) \<Rightarrow> 's \<Rightarrow> bool" where
  "reachable init step s \<longleftrightarrow> (\<exists>s0. init s0 \<and> step\<^sup>*\<^sup>* s0 s)"

lemma reachable_init: "init s \<Longrightarrow> reachable init step s"
  by (auto simp: reachable_def)

lemma reachable_step: "reachable init step s \<Longrightarrow> step s s' \<Longrightarrow> reachable init step s'"
  by (auto simp: reachable_def intro: rtranclp.rtrancl_into_rtrancl)

locale invariant_system =
  fixes init :: "'s \<Rightarrow> bool" and step :: "'s \<Rightarrow> 's \<Rightarrow> bool" and inv :: "'s \<Rightarrow> bool"
  assumes init_inv: "init s \<Longrightarrow> inv s"
    and step_inv: "inv s \<Longrightarrow> step s s' \<Longrightarrow> inv s'"
begin

lemma steps_inv: "step\<^sup>*\<^sup>* s s' \<Longrightarrow> inv s \<Longrightarrow> inv s'"
  by (induction rule: rtranclp_induct) (auto intro: step_inv)

lemma reachable_inv: "reachable init step s \<Longrightarrow> inv s"
  by (auto simp: reachable_def intro: steps_inv init_inv)

end

end
