(* ===== verification/Cpex_Json.thy ===== *)
theory Cpex_Json
  imports Cpex_Prelude
begin

text \<open>
  The JSON values the Rust host and its Python worker exchange
  (\<^verbatim>\<open>serde_json::Value\<close>), the accessors the sources call, and the laws of an
  object's map as a locale: \<open>key_map\<close> is what the components rely on, and the
  interpretation at the end of the theory discharges it for the insertion-ordered
  association lists of \<^verbatim>\<open>serde_json::Map\<close>.
\<close>

section \<open>Values\<close>

text \<open>A number keeps the representation of \<^verbatim>\<open>serde_json::Number\<close>: a
  \<^verbatim>\<open>u64\<close>, a negative \<^verbatim>\<open>i64\<close> (its two's complement bits),
  or the bits of an \<^verbatim>\<open>f64\<close>.\<close>

datatype jnum = PosInt "64 word" | NegInt "64 word" | Float "64 word"

datatype json =
    JNull
  | JBool bool
  | JNumber jnum
  | JString string
  | JArray "json list"
  | JObject "(string \<times> json) list"

type_synonym 'v obj = "(string \<times> 'v) list"

section \<open>Objects\<close>

fun obj_insert :: "string \<Rightarrow> 'v \<Rightarrow> 'v obj \<Rightarrow> 'v obj" where
  "obj_insert k v [] = [(k, v)]"
| "obj_insert k v ((k', v') # m) =
     (if k = k' then (k, v) # m else (k', v') # obj_insert k v m)"

fun obj_remove :: "string \<Rightarrow> 'v obj \<Rightarrow> 'v obj" where
  "obj_remove k [] = []"
| "obj_remove k ((k', v') # m) =
     (if k = k' then (if m = [] then [] else last m # butlast m)
      else (k', v') # obj_remove k m)"

definition obj_get :: "'v obj \<Rightarrow> string \<Rightarrow> 'v option" where
  "obj_get m k = map_of m k"

definition obj_keys :: "'v obj \<Rightarrow> string set" where
  "obj_keys m = fst ` set m"

definition obj_ok :: "'v obj \<Rightarrow> bool" where
  "obj_ok m \<longleftrightarrow> distinct (map fst m)"

text \<open>\<^verbatim>\<open>Map::from_iter\<close> and \<^verbatim>\<open>Map::extend\<close> insert one
  entry after the other.\<close>

definition obj_extend :: "'v obj \<Rightarrow> 'v obj \<Rightarrow> 'v obj" where
  "obj_extend m xs = fold (\<lambda>(k, v) acc. obj_insert k v acc) xs m"

section \<open>Accessors\<close>

fun as_object :: "json \<Rightarrow> json obj option" where
  "as_object (JObject m) = Some m"
| "as_object _ = None"

fun as_array :: "json \<Rightarrow> json list option" where
  "as_array (JArray xs) = Some xs"
| "as_array _ = None"

fun as_str :: "json \<Rightarrow> string option" where
  "as_str (JString s) = Some s"
| "as_str _ = None"

fun as_bool :: "json \<Rightarrow> bool option" where
  "as_bool (JBool b) = Some b"
| "as_bool _ = None"

fun as_u64 :: "json \<Rightarrow> 64 word option" where
  "as_u64 (JNumber (PosInt n)) = Some n"
| "as_u64 _ = None"

text \<open>\<^verbatim>\<open>as_i64\<close>: a \<^verbatim>\<open>u64\<close> above
  \<^verbatim>\<open>i64::MAX\<close> has no \<^verbatim>\<open>i64\<close>.\<close>

fun as_i64 :: "json \<Rightarrow> int option" where
  "as_i64 (JNumber (PosInt n)) = (if unat n < 2 ^ 63 then Some (uint n) else None)"
| "as_i64 (JNumber (NegInt n)) = Some (sint n)"
| "as_i64 _ = None"

definition is_null :: "json \<Rightarrow> bool" where
  "is_null v \<longleftrightarrow> v = JNull"

definition is_object :: "json \<Rightarrow> bool" where
  "is_object v \<longleftrightarrow> as_object v \<noteq> None"

fun jget :: "json \<Rightarrow> string \<Rightarrow> json option" where
  "jget (JObject m) k = obj_get m k"
| "jget _ k = None"

text \<open>Every object of the value has distinct keys, as every
  \<^verbatim>\<open>serde_json::Value\<close> does.\<close>

fun json_ok :: "json \<Rightarrow> bool" where
  "json_ok (JArray xs) = (\<forall>x \<in> set xs. json_ok x)"
| "json_ok (JObject m) = (distinct (map fst m) \<and> (\<forall>kv \<in> set m. json_ok (snd kv)))"
| "json_ok _ = True"

abbreviation jnat :: "nat \<Rightarrow> json" where
  "jnat n \<equiv> JNumber (PosInt (of_nat n))"

text \<open>\<^verbatim>\<open>Value::from\<close> a signed integer.\<close>

definition jint :: "int \<Rightarrow> json" where
  "jint i = JNumber (if i < 0 then NegInt (word_of_int i) else PosInt (word_of_int i))"

section \<open>Laws of the accessors\<close>

lemma as_object_Some [simp]: "as_object v = Some m \<longleftrightarrow> v = JObject m"
  by (cases v) auto

lemma as_object_None: "as_object v = None \<longleftrightarrow> (\<forall>m. v \<noteq> JObject m)"
  by (cases v) auto

lemma as_array_Some [simp]: "as_array v = Some xs \<longleftrightarrow> v = JArray xs"
  by (cases v) auto

lemma as_str_Some [simp]: "as_str v = Some s \<longleftrightarrow> v = JString s"
  by (cases v) auto

lemma as_bool_Some [simp]: "as_bool v = Some b \<longleftrightarrow> v = JBool b"
  by (cases v) auto

lemma jget_Some: "jget v k = Some x \<longleftrightarrow> (\<exists>m. v = JObject m \<and> obj_get m k = Some x)"
  by (cases v) auto

lemma obj_get_Nil [simp]: "obj_get [] k = None"
  by (simp add: obj_get_def)

lemma obj_get_Cons [simp]: "obj_get ((k', v) # m) k = (if k = k' then Some v else obj_get m k)"
  by (simp add: obj_get_def)

lemma obj_get_None_iff: "obj_get m k = None \<longleftrightarrow> k \<notin> obj_keys m"
  by (simp add: obj_get_def obj_keys_def map_of_eq_None_iff)

lemma obj_get_append: "obj_get (m @ n) k = (case obj_get m k of None \<Rightarrow> obj_get n k | Some v \<Rightarrow> Some v)"
  by (induction m) (auto split: option.splits)

lemma obj_get_in_set: "obj_get m k = Some v \<Longrightarrow> (k, v) \<in> set m"
  by (simp add: obj_get_def map_of_SomeD)

lemma obj_get_iff_in_set: "obj_ok m \<Longrightarrow> obj_get m k = Some v \<longleftrightarrow> (k, v) \<in> set m"
  by (simp add: obj_get_def obj_ok_def)

lemma obj_insert_get [simp]: "obj_get (obj_insert k v m) k' = (if k' = k then Some v else obj_get m k')"
  by (induction k v m rule: obj_insert.induct) auto

lemma obj_insert_keys [simp]: "obj_keys (obj_insert k v m) = insert k (obj_keys m)"
  by (induction k v m rule: obj_insert.induct) (auto simp: obj_keys_def)

lemma obj_insert_ok [simp]: "obj_ok m \<Longrightarrow> obj_ok (obj_insert k v m)"
proof (induction k v m rule: obj_insert.induct)
  case (2 k v k' v' m)
  then show ?case
    using obj_insert_keys [of k v m] by (auto simp: obj_ok_def obj_keys_def)
qed (simp add: obj_ok_def)

lemma obj_insert_length: "length m \<le> length (obj_insert k v m)"
  by (induction k v m rule: obj_insert.induct) auto

lemma obj_remove_mem:
  "obj_ok m \<Longrightarrow> set (obj_remove k m) = {e \<in> set m. fst e \<noteq> k}"
proof (induction k m rule: obj_remove.induct)
  case (2 k k' v' m)
  have *: "set (last m # butlast m) = set m" if "m \<noteq> []"
    using that append_butlast_last_id [of m] by (metis list.set(2) rotate1.simps(2) set_rotate1)
  from 2 * show ?case by (auto simp: obj_ok_def image_iff)
qed simp

lemma obj_remove_ok [simp]: "obj_ok m \<Longrightarrow> obj_ok (obj_remove k m)"
proof (induction k m rule: obj_remove.induct)
  case (2 k k' v' m)
  have tail: "obj_ok m" using 2 by (simp add: obj_ok_def)
  show ?case
  proof (cases "k = k'")
    case True
    have "distinct (map fst (last m # butlast m))" if "m \<noteq> []"
    proof -
      have "mset (last m # butlast m) = mset m"
        using that append_butlast_last_id [of m]
        by (metis add_mset_add_single mset.simps(2) mset_append mset_single_iff_right
            union_mset_add_mset_right add.right_neutral mset.simps(1))
      then have "mset (map fst (last m # butlast m)) = mset (map fst m)"
        by (metis mset_map)
      with tail show ?thesis
        unfolding obj_ok_def by (metis mset_eq_imp_distinct_iff)
    qed
    with True show ?thesis by (auto simp: obj_ok_def)
  next
    case False
    with 2 tail obj_remove_mem [OF tail, of k] show ?thesis
      by (auto simp: obj_ok_def image_iff)
  qed
qed (simp add: obj_ok_def)

lemma obj_remove_get [simp]:
  assumes "obj_ok m"
  shows "obj_get (obj_remove k m) k' = (if k' = k then None else obj_get m k')"
proof -
  have "obj_get (obj_remove k m) k' = Some v \<longleftrightarrow> k' \<noteq> k \<and> obj_get m k' = Some v" for v
    using assms by (simp add: obj_get_iff_in_set obj_remove_mem) auto
  then show ?thesis
    by (metis not_Some_eq)
qed

section \<open>The interface of an object's map\<close>

text \<open>
  What the components use of a JSON object: lookup after an insert, lookup after a remove, and
  that both keep the keys distinct. \<open>only_adds\<close> is the contract of every operation that
  decorates a message: the field it owns may change, nothing else does.
\<close>

locale key_map =
  fixes lookup :: "'m \<Rightarrow> string \<Rightarrow> 'v option"
    and insrt :: "string \<Rightarrow> 'v \<Rightarrow> 'm \<Rightarrow> 'm"
    and remv :: "string \<Rightarrow> 'm \<Rightarrow> 'm"
    and wf :: "'m \<Rightarrow> bool"
  assumes lookup_insrt: "lookup (insrt k v m) k' = (if k' = k then Some v else lookup m k')"
    and lookup_remv: "wf m \<Longrightarrow> lookup (remv k m) k' = (if k' = k then None else lookup m k')"
    and wf_insrt: "wf m \<Longrightarrow> wf (insrt k v m)"
    and wf_remv: "wf m \<Longrightarrow> wf (remv k m)"
begin

definition agree_off :: "string set \<Rightarrow> 'm \<Rightarrow> 'm \<Rightarrow> bool" where
  "agree_off K m n \<longleftrightarrow> (\<forall>k. k \<notin> K \<longrightarrow> lookup n k = lookup m k)"

lemma agree_off_refl [simp]: "agree_off K m m"
  by (simp add: agree_off_def)

lemma agree_off_trans: "agree_off K m n \<Longrightarrow> agree_off L n p \<Longrightarrow> agree_off (K \<union> L) m p"
  by (simp add: agree_off_def)

lemma agree_off_mono: "agree_off K m n \<Longrightarrow> K \<subseteq> L \<Longrightarrow> agree_off L m n"
  by (auto simp: agree_off_def)

lemma agree_off_insrt: "k \<in> K \<Longrightarrow> agree_off K m (insrt k v m)"
  by (auto simp: agree_off_def lookup_insrt)

lemma agree_off_remv: "wf m \<Longrightarrow> k \<in> K \<Longrightarrow> agree_off K m (remv k m)"
  by (auto simp: agree_off_def lookup_remv)

lemma agree_off_fold_insrt:
  "agree_off (fst ` set kvs) m (fold (\<lambda>(k, v). insrt k v) kvs m)"
proof (induction kvs arbitrary: m)
  case (Cons kv kvs)
  obtain k v where kv: "kv = (k, v)" by fastforce
  have "agree_off {k} m (insrt k v m)" by (simp add: agree_off_insrt)
  from agree_off_trans [OF this Cons.IH] show ?case by (simp add: kv)
qed simp

lemma lookup_fold_insrt:
  "lookup (fold (\<lambda>(k, v). insrt k v) kvs m) k =
     (case map_of (rev kvs) k of None \<Rightarrow> lookup m k | Some v \<Rightarrow> Some v)"
  by (induction kvs arbitrary: m)
     (auto simp: lookup_insrt map_add_def split: option.splits)

lemma wf_fold_insrt: "wf m \<Longrightarrow> wf (fold (\<lambda>(k, v). insrt k v) kvs m)"
  by (induction kvs arbitrary: m) (auto simp: wf_insrt)

end

interpretation jobj: key_map obj_get obj_insert obj_remove obj_ok
  by unfold_locales auto

lemma obj_extend_get:
  "obj_get (obj_extend m xs) k =
     (case map_of (rev xs) k of None \<Rightarrow> obj_get m k | Some v \<Rightarrow> Some v)"
  unfolding obj_extend_def by (rule jobj.lookup_fold_insrt)

lemma obj_extend_ok: "obj_ok m \<Longrightarrow> obj_ok (obj_extend m xs)"
  unfolding obj_extend_def by (rule jobj.wf_fold_insrt)

lemma obj_ok_Nil [simp]: "obj_ok []"
  by (simp add: obj_ok_def)

lemma json_ok_obj_get: "json_ok (JObject m) \<Longrightarrow> obj_get m k = Some v \<Longrightarrow> json_ok v"
  by (auto dest!: obj_get_in_set)

lemma json_ok_insert: "json_ok (JObject m) \<Longrightarrow> json_ok v \<Longrightarrow> json_ok (JObject (obj_insert k v m))"
proof (induction m)
  case (Cons kv m)
  then show ?case
    using obj_insert_keys [of k v m] by (cases kv) (auto simp: obj_keys_def)
qed simp

end
