(* ===== verification/Engine_Types.thy ===== *)
theory Engine_Types
  imports Cpex_Json
begin

text \<open>
  The shapes of the policy engine's data that the repository's code reads and writes. The engine
  (\<^verbatim>\<open>praxis-policy\<close>) is an external dependency: a record here holds the fields
  the sources name, an engine value the sources only pass along has the opaque type \<open>'o\<close>,
  and every engine function the sources call is a field of the record \<open>engine\<close>, an
  argument of the definitions that use it. \<open>engine_laws\<close> collects the documented
  behaviour the properties rely on.
\<close>

section \<open>Tokens\<close>

datatype TokenKind = Jwt | Opaque | SpiffeJwt | Ucan | TxnToken | OtherKind string
datatype TokenRole = RoleUser | RoleClient | RoleCallerWorkload | RoleOther string
datatype DelegationMode = OnBehalfOfUser | AsThisWorkload | OtherMode string
datatype 'o TokenSource = SpiffeJwtSvid | OtherSource 'o

record RawInboundToken =
  rit_token :: string
  rit_source_header :: string
  rit_kind :: TokenKind

record RawDelegatedToken =
  rdt_token :: string
  rdt_outbound_header :: string
  rdt_audience :: string
  rdt_scopes :: "string list"
  rdt_expires_at :: int

record DelegationKey =
  dk_mode :: DelegationMode
  dk_subject_id :: "string option"
  dk_audience :: string
  dk_scopes :: "string list"
  dk_target_name :: string

text \<open>Both hash maps are association lists in the iteration order of the run.\<close>

record RawCredentials =
  inbound_tokens :: "(TokenRole \<times> RawInboundToken) list"
  delegated_tokens :: "(DelegationKey \<times> RawDelegatedToken) list"

section \<open>Extensions\<close>

text \<open>An \<^verbatim>\<open>Arc\<close> is an address with the value behind it: the engine's merge
  compares addresses.\<close>

type_synonym 'a arc = "nat \<times> 'a"

record 'o DelegationExtension =
  chain :: "'o list"
  depth :: nat
  origin_subject_id :: "string option"
  actor_subject_id :: "string option"
  delegated :: bool

record HttpExtension =
  request_headers :: "(string \<times> string) list"
  secret_headers :: "(string \<times> string) list"
  response_headers :: "(string \<times> string) list"
  http_status :: "nat option"
  http_method :: "string option"
  http_path :: "string option"
  http_host :: "string option"
  http_scheme :: "string option"

record 'o SecurityExtension =
  labels :: "string list"
  security_rest :: 'o

record 'o Extensions =
  x_request :: "'o arc option"
  x_agent :: "'o arc option"
  x_http :: "HttpExtension arc option"
  x_security :: "'o SecurityExtension arc option"
  x_delegation :: "'o DelegationExtension arc option"
  x_mcp :: "'o arc option"
  x_completion :: "'o arc option"
  x_provenance :: "'o arc option"
  x_llm :: "'o arc option"
  x_framework :: "'o arc option"
  x_meta :: "'o arc option"
  x_custom :: "json obj arc option"
  x_raw_credentials :: "RawCredentials option"
  http_write_token :: bool
  labels_write_token :: bool
  delegation_write_token :: bool

record 'o OwnedExtensions =
  o_request :: "'o arc option"
  o_agent :: "'o arc option"
  o_http :: "HttpExtension option"
  o_security :: "'o SecurityExtension option"
  o_delegation :: "'o DelegationExtension option"
  o_mcp :: "'o arc option"
  o_completion :: "'o arc option"
  o_provenance :: "'o arc option"
  o_llm :: "'o arc option"
  o_framework :: "'o arc option"
  o_meta :: "'o arc option"
  o_custom :: "json obj option"

section \<open>Payloads and decisions\<close>

record 'o IdentityPayload =
  ip_raw_token :: string
  ip_source :: "'o TokenSource"
  ip_source_header :: "string option"
  ip_headers :: "(string \<times> string) list"
  ip_client_host :: "string option"
  ip_client_port :: "16 word option"
  ip_subject :: "'o option"
  ip_client :: "'o option"
  ip_caller_workload :: "'o option"
  ip_delegation :: "'o DelegationExtension option"
  ip_raw_credentials :: "RawCredentials option"
  ip_resolved_at :: "int option"
  ip_raw_claims :: "json obj"

record 'o DelegationPayload =
  dp_target_name :: string
  dp_target_type :: 'o
  dp_target_audience :: "string option"
  dp_required_permissions :: "string list"
  dp_trust_domain :: "string option"
  dp_auth_enforced_by :: 'o
  dp_route_attenuation :: "'o option"
  dp_actor_role :: "'o option"
  dp_actor_token :: string
  dp_subject :: 'o
  dp_bearer_token :: string
  dp_delegated_token :: "RawDelegatedToken option"
  dp_delegation_mode :: "'o option"
  dp_minted_at :: "int option"
  dp_delegation_update :: "'o DelegationExtension option"

record PluginViolation =
  pv_code :: string
  pv_reason :: string
  pv_description :: "string option"
  pv_details :: "json obj"
  pv_proto_error_code :: "int option"

definition new_violation :: "string \<Rightarrow> string \<Rightarrow> PluginViolation" where
  "new_violation c r = \<lparr> pv_code = c, pv_reason = r, pv_description = None, pv_details = [],
     pv_proto_error_code = None \<rparr>"

section \<open>The engine's functions\<close>

text \<open>Serializers and deserializers report an error as its rendered message. A time is a number
  of nanoseconds; \<open>add_secs\<close> is \<^verbatim>\<open>Duration::try_seconds\<close> followed by
  \<^verbatim>\<open>checked_add_signed\<close>, absent out of range.\<close>

record 'o engine =
  ser :: "'o \<Rightarrow> string + json"
  ser_source :: "'o TokenSource \<Rightarrow> string + json"
  ser_http :: "HttpExtension \<Rightarrow> string + json"
  ser_security :: "'o SecurityExtension \<Rightarrow> string + json"
  ser_delegation :: "'o DelegationExtension \<Rightarrow> string + json"
  de_subject :: "json \<Rightarrow> string + 'o"
  de_http :: "json \<Rightarrow> string + HttpExtension"
  de_security :: "json \<Rightarrow> string + 'o SecurityExtension"
  de_delegation :: "json \<Rightarrow> string + 'o DelegationExtension"
  de_custom :: "json \<Rightarrow> string + json obj"
  user_subject :: 'o
  default_mode :: "'o \<Rightarrow> 'o"
  cow_copy :: "'o Extensions \<Rightarrow> 'o OwnedExtensions"
  chain_extends :: "'o list \<Rightarrow> 'o list \<Rightarrow> bool"
  add_label :: "string \<Rightarrow> 'o SecurityExtension \<Rightarrow> 'o SecurityExtension"
  default_security :: "'o SecurityExtension"
  add_secs :: "int \<Rightarrow> int \<Rightarrow> int option"

text \<open>Documented behaviour: a copy of a view holds the view's own slots; a label is added to the
  set and nothing else changes; an extended chain keeps the hops it extends; time adds up.\<close>

definition copy_law :: "'o engine \<Rightarrow> bool" where
  "copy_law E \<longleftrightarrow> (\<forall>x.
     o_request (cow_copy E x) = x_request x \<and> o_agent (cow_copy E x) = x_agent x \<and>
     o_http (cow_copy E x) = map_option snd (x_http x) \<and>
     o_security (cow_copy E x) = map_option snd (x_security x) \<and>
     o_delegation (cow_copy E x) = map_option snd (x_delegation x) \<and>
     o_mcp (cow_copy E x) = x_mcp x \<and> o_completion (cow_copy E x) = x_completion x \<and>
     o_provenance (cow_copy E x) = x_provenance x \<and> o_llm (cow_copy E x) = x_llm x \<and>
     o_framework (cow_copy E x) = x_framework x \<and> o_meta (cow_copy E x) = x_meta x \<and>
     o_custom (cow_copy E x) = map_option snd (x_custom x))"

definition label_law :: "'o engine \<Rightarrow> bool" where
  "label_law E \<longleftrightarrow> (\<forall>l s.
     set (labels (add_label E l s)) = insert l (set (labels s)) \<and>
     security_rest (add_label E l s) = security_rest s)"

definition chain_law :: "'o engine \<Rightarrow> bool" where
  "chain_law E \<longleftrightarrow> (\<forall>old new. chain_extends E old new \<longrightarrow> prefix old new)"

definition time_law :: "'o engine \<Rightarrow> bool" where
  "time_law E \<longleftrightarrow> (\<forall>t n t'. add_secs E t n = Some t' \<longrightarrow> t' = t + n * 10 ^ 9)"

text \<open>A concrete engine over JSON values, for which the laws hold: the instance the witnesses
  use.\<close>

definition str_obj :: "(string \<times> string) list \<Rightarrow> json" where
  "str_obj m = JObject (map (\<lambda>(k, v). (k, JString v)) m)"

definition sample_engine :: "json engine" where
  "sample_engine =
     \<lparr> ser = Inr,
       ser_source = (\<lambda>s. Inr (case s of SpiffeJwtSvid \<Rightarrow> JString ''spiffe_jwt_svid'' | OtherSource v \<Rightarrow> v)),
       ser_http = (\<lambda>h. Inr (JObject [(''request_headers'', str_obj (request_headers h)),
          (''response_headers'', str_obj (response_headers h))])),
       ser_security = (\<lambda>s. Inr (JObject [(''labels'', JArray (map JString (labels s)))])),
       ser_delegation = (\<lambda>d. Inr (JObject [(''chain'', JArray (chain d))])),
       de_subject = (\<lambda>v. case v of JObject m \<Rightarrow> Inr v | _ \<Rightarrow> Inl ''not an object''),
       de_http = (\<lambda>v. Inr \<lparr> request_headers = [(''x-a'', ''1''), (''Cookie'', ''c'')], secret_headers = [],
          response_headers = [], http_status = None, http_method = None, http_path = None,
          http_host = None, http_scheme = None \<rparr>),
       de_security = (\<lambda>v. Inr \<lparr> labels = [''pii''], security_rest = v \<rparr>),
       de_delegation = (\<lambda>v. case jget v ''chain'' of
            Some (JArray c) \<Rightarrow> Inr \<lparr> chain = c, depth = length c, origin_subject_id = None,
               actor_subject_id = None, delegated = c \<noteq> [] \<rparr>
          | _ \<Rightarrow> Inl ''no chain''),
       de_custom = (\<lambda>v. case v of JObject m \<Rightarrow> Inr m | _ \<Rightarrow> Inl ''not a map''),
       user_subject = JString ''user'',
       default_mode = (\<lambda>s. JString ''on_behalf_of_user''),
       cow_copy = (\<lambda>x. \<lparr> o_request = x_request x, o_agent = x_agent x,
          o_http = map_option snd (x_http x), o_security = map_option snd (x_security x),
          o_delegation = map_option snd (x_delegation x), o_mcp = x_mcp x,
          o_completion = x_completion x, o_provenance = x_provenance x, o_llm = x_llm x,
          o_framework = x_framework x, o_meta = x_meta x,
          o_custom = map_option snd (x_custom x) \<rparr>),
       chain_extends = prefix,
       add_label = (\<lambda>l s. s\<lparr> labels := List.insert l (labels s) \<rparr>),
       default_security = \<lparr> labels = [], security_rest = JNull \<rparr>,
       add_secs = (\<lambda>t n. if abs (t + n * 10 ^ 9) < 2 ^ 63 then Some (t + n * 10 ^ 9) else None) \<rparr>"

lemma sample_engine_laws:
  "copy_law sample_engine" "label_law sample_engine" "chain_law sample_engine"
  "time_law sample_engine"
  by (simp_all add: sample_engine_def copy_law_def label_law_def chain_law_def time_law_def)

section \<open>Extensions with nothing in them\<close>

definition no_extensions :: "'o Extensions" where
  "no_extensions =
     \<lparr> x_request = None, x_agent = None, x_http = None, x_security = None, x_delegation = None,
       x_mcp = None, x_completion = None, x_provenance = None, x_llm = None, x_framework = None,
       x_meta = None, x_custom = None, x_raw_credentials = None, http_write_token = False,
       labels_write_token = False, delegation_write_token = False \<rparr>"

end
