(* ===== verification/Cpex_Utf8.thy ===== *)
theory Cpex_Utf8
  imports Cpex_Prelude
begin

text \<open>
  UTF-8 as the Rust standard library reads it: \<open>utf8_step\<close> is one step of its decoder
  (a character, or the maximal ill-formed prefix), \<open>utf8_valid\<close> the type invariant of a
  \<^verbatim>\<open>String\<close> and \<open>from_utf8_lossy\<close> the lossy decoder. The lemmas say
  that cutting a valid string at a character boundary and trimming it keep it valid.
\<close>

definition byte_in :: "nat \<Rightarrow> nat \<Rightarrow> char \<Rightarrow> bool" where
  "byte_in lo hi c \<longleftrightarrow> lo \<le> (of_char c :: nat) \<and> (of_char c :: nat) \<le> hi"

definition utf8_width :: "char \<Rightarrow> nat" where
  "utf8_width c =
     (if byte_in 0 0x7F c then 1 else if byte_in 0xC2 0xDF c then 2
      else if byte_in 0xE0 0xEF c then 3 else if byte_in 0xF0 0xF4 c then 4 else 0)"

definition second_ok :: "char \<Rightarrow> char \<Rightarrow> bool" where
  "second_ok c d \<longleftrightarrow>
     (if byte_in 0xE0 0xE0 c then byte_in 0xA0 0xBF d
      else if byte_in 0xED 0xED c then byte_in 0x80 0x9F d
      else if byte_in 0xF0 0xF0 c then byte_in 0x90 0xBF d
      else if byte_in 0xF4 0xF4 c then byte_in 0x80 0x8F d
      else byte_in 0x80 0xBF d)"

fun utf8_step :: "string \<Rightarrow> bool \<times> nat" where
  "utf8_step [] = (True, 0)"
| "utf8_step (c # s) =
     (if utf8_width c = 1 then (True, 1)
      else if utf8_width c = 0 then (False, 1)
      else case s of
        [] \<Rightarrow> (False, 1)
      | d # s2 \<Rightarrow>
          if \<not> second_ok c d then (False, 1)
          else if utf8_width c = 2 then (True, 2)
          else case s2 of
            [] \<Rightarrow> (False, 2)
          | e # s3 \<Rightarrow>
              if \<not> continuation_byte e then (False, 2)
              else if utf8_width c = 3 then (True, 3)
              else case s3 of
                [] \<Rightarrow> (False, 3)
              | f # _ \<Rightarrow> if \<not> continuation_byte f then (False, 3) else (True, 4))"

lemma utf8_step_pos [simp]: "s \<noteq> [] \<Longrightarrow> 0 < snd (utf8_step s)"
  by (cases s) (auto split: list.splits)

lemma utf8_step_le: "snd (utf8_step s) \<le> length s"
  by (cases s) (auto split: list.splits)

function utf8_valid :: "string \<Rightarrow> bool" where
  "utf8_valid [] = True"
| "utf8_valid (c # s) =
     (fst (utf8_step (c # s)) \<and> utf8_valid (drop (snd (utf8_step (c # s))) (c # s)))"
  by pat_completeness auto
termination
  by (relation "measure length") (auto simp del: utf8_step.simps)

definition replacement_char :: string where
  "replacement_char = [CHR 0xEF, CHR 0xBF, CHR 0xBD]"

function from_utf8_lossy :: "string \<Rightarrow> string" where
  "from_utf8_lossy [] = []"
| "from_utf8_lossy (c # s) =
     (if fst (utf8_step (c # s)) then take (snd (utf8_step (c # s))) (c # s) else replacement_char)
     @ from_utf8_lossy (drop (snd (utf8_step (c # s))) (c # s))"
  by pat_completeness auto
termination
  by (relation "measure length") (auto simp del: utf8_step.simps)

section \<open>One character\<close>

lemma width_not_continuation: "utf8_width c \<noteq> 0 \<Longrightarrow> \<not> continuation_byte c"
  by (auto simp: utf8_width_def byte_in_def continuation_byte_def Let_def split: if_splits)

lemma second_continuation: "second_ok c d \<Longrightarrow> continuation_byte d"
  by (auto simp: second_ok_def byte_in_def continuation_byte_def Let_def split: if_splits)

text \<open>\<open>utf8_char u\<close>: the bytes \<open>u\<close> encode exactly one character.\<close>

definition utf8_char :: "string \<Rightarrow> bool" where
  "utf8_char u \<longleftrightarrow> u \<noteq> [] \<and> utf8_step u = (True, length u)"

lemma utf8_step_char: "fst (utf8_step (c # s)) \<Longrightarrow> utf8_char (take (snd (utf8_step (c # s))) (c # s))"
  by (auto simp: utf8_char_def split: if_splits list.split_asm)

lemma utf8_char_append: "utf8_char u \<Longrightarrow> utf8_step (u @ r) = (True, length u)"
  unfolding utf8_char_def by (cases u) (auto split: if_splits list.split_asm)

lemma utf8_char_head: "utf8_char u \<Longrightarrow> \<not> continuation_byte (hd u)"
  unfolding utf8_char_def using width_not_continuation [of "hd u"]
  by (cases u) (auto split: if_splits)

lemma utf8_char_tail:
  assumes "utf8_char u" "0 < i" "i < length u"
  shows "continuation_byte (u ! i)"
proof -
  have "length u \<le> 4"
    using assms(1) unfolding utf8_char_def by (cases u) (auto split: if_splits list.splits)
  with assms have "i = 1 \<or> i = 2 \<or> i = 3" by linarith
  with assms show ?thesis
    unfolding utf8_char_def
    by (cases u) (auto split: if_splits list.splits dest: second_continuation)
qed

declare utf8_step.simps(2) [simp del]

lemma utf8_valid_char_append: "utf8_char u \<Longrightarrow> utf8_valid (u @ r) \<longleftrightarrow> utf8_valid r"
  using utf8_char_append [of u r] by (cases u) (auto simp: utf8_char_def)

lemma utf8_valid_induct [consumes 1, case_names Nil Char]:
  assumes "utf8_valid s" "P []"
    and "\<And>u r. utf8_char u \<Longrightarrow> utf8_valid r \<Longrightarrow> P r \<Longrightarrow> P (u @ r)"
  shows "P s"
  using assms(1)
proof (induction s rule: utf8_valid.induct)
  case (2 c s)
  let ?n = "snd (utf8_step (c # s))"
  have "P (take ?n (c # s) @ drop ?n (c # s))"
    using 2 by (intro assms(3) utf8_step_char) auto
  then show ?case by (simp only: append_take_drop_id)
qed (rule assms(2))

section \<open>Cutting and trimming\<close>

lemma utf8_valid_split:
  "utf8_valid s \<Longrightarrow> is_char_boundary s i \<Longrightarrow> utf8_valid (take i s) \<and> utf8_valid (drop i s)"
proof (induction s arbitrary: i rule: utf8_valid_induct)
  case (Char u r)
  consider "i = 0" | "0 < i" "i < length u" | "length u \<le> i" by linarith
  then show ?case
  proof cases
    case 1
    with Char show ?thesis by (simp add: utf8_valid_char_append)
  next
    case 2
    with utf8_char_tail [OF Char.hyps(1)] Char.prems show ?thesis
      by (auto simp: is_char_boundary_def nth_append)
  next
    case 3
    then have "is_char_boundary r (i - length u)"
      using Char.prems by (auto simp: is_char_boundary_def nth_append)
    from Char.IH [OF this] 3 Char.hyps show ?thesis
      by (simp add: utf8_valid_char_append)
  qed
qed simp

lemma utf8_valid_append: "utf8_valid s \<Longrightarrow> utf8_valid (s @ r) \<longleftrightarrow> utf8_valid r"
  by (induction s rule: utf8_valid_induct) (simp_all add: utf8_valid_char_append)

lemma ws_units_valid: "u \<in> set ws_units \<Longrightarrow> utf8_valid u \<and> u \<noteq> [] \<and> \<not> continuation_byte (hd u)"
  unfolding ws_units_def
  by (auto simp: utf8_step.simps utf8_width_def byte_in_def second_ok_def continuation_byte_def Let_def)

lemma trim_start_valid: "utf8_valid s \<Longrightarrow> utf8_valid (trim_start s)"
proof -
  have "utf8_valid s \<Longrightarrow> us = ws_units \<Longrightarrow> utf8_valid (strip_all us s)" for us
  proof (induction us s rule: strip_all.induct)
    case (1 us s)
    show ?case
    proof (cases "find (\<lambda>u. u \<noteq> [] \<and> prefix u s) us")
      case None
      with 1 show ?thesis by (subst strip_all.simps) simp
    next
      case (Some u)
      then have "u \<in> set ws_units" "prefix u s"
        using "1.prems"(2) by (auto simp: find_Some_iff)
      then obtain r where u: "utf8_valid u" "s = u @ r"
        using ws_units_valid by (auto elim: prefixE)
      have "utf8_valid (drop (length u) s)"
        using utf8_valid_append [OF u(1), of r] "1.prems"(1) by (simp add: u(2))
      with "1.IH" [OF Some] "1.prems"(2) Some show ?thesis by (subst strip_all.simps) simp
    qed
  qed
  then show "utf8_valid s \<Longrightarrow> utf8_valid (trim_start s)" by (simp add: trim_start_def)
qed

lemma utf8_valid_drop_ws:
  assumes "utf8_valid (r @ u)" "u \<in> set ws_units"
  shows "utf8_valid r"
proof -
  have "is_char_boundary (r @ u) (length r)"
    using ws_units_valid [OF assms(2)] by (auto simp: is_char_boundary_def nth_append hd_conv_nth)
  from utf8_valid_split [OF assms(1) this] show ?thesis by simp
qed

lemma trim_end_valid: "utf8_valid s \<Longrightarrow> utf8_valid (trim_end s)"
proof -
  have "utf8_valid (rev t) \<Longrightarrow> us = map rev ws_units \<Longrightarrow> utf8_valid (rev (strip_all us t))" for us t
  proof (induction us t rule: strip_all.induct)
    case (1 us t)
    show ?case
    proof (cases "find (\<lambda>u. u \<noteq> [] \<and> prefix u t) us")
      case None
      with 1 show ?thesis by (subst strip_all.simps) simp
    next
      case (Some u)
      then obtain w r where u: "w \<in> set ws_units" "u = rev w" "t = u @ r"
        using "1.prems"(2) by (auto simp: find_Some_iff prefix_def)
          (metis length_map nth_map nth_mem)
      then have "utf8_valid (rev (drop (length u) t))"
        using utf8_valid_drop_ws [of "rev r" w] "1.prems"(1) by simp
      with "1.IH" [OF Some] "1.prems"(2) Some show ?thesis by (subst strip_all.simps) simp
    qed
  qed
  from this [of "rev s"] show "utf8_valid s \<Longrightarrow> utf8_valid (trim_end s)"
    by (simp add: trim_end_def)
qed

lemma trim_valid: "utf8_valid s \<Longrightarrow> utf8_valid (trim s)"
  by (simp add: trim_def trim_start_valid trim_end_valid)

section \<open>The lossy decoder\<close>

lemma replacement_char_valid: "utf8_valid replacement_char"
  by (simp add: replacement_char_def utf8_step.simps utf8_width_def byte_in_def second_ok_def
      continuation_byte_def Let_def)

lemma from_utf8_lossy_valid: "utf8_valid (from_utf8_lossy s)"
proof (induction s rule: from_utf8_lossy.induct)
  case (2 c s)
  then show ?case
    using utf8_step_char [of c s] replacement_char_valid
    by (simp add: utf8_valid_char_append utf8_valid_append)
qed simp

lemma from_utf8_lossy_id: "utf8_valid s \<Longrightarrow> from_utf8_lossy s = s"
  by (induction s rule: utf8_valid.induct) simp_all

end
