(* ===== verification/Host_Error.thy ===== *)
theory Host_Error
  imports Cpex_Json Cpex_Utf8
begin

text \<open>
  The host's error type (\<^verbatim>\<open>crates/cpex-hosts-python/src/error.rs\<close>): the output
  of a failed child process and the excerpt of it that reaches logs, the variants of
  \<^verbatim>\<open>HostError\<close> with their rendering, stable code and structured details, and the
  conversion to the framework's \<^verbatim>\<open>PluginError\<close> (whose variants, declared outside
  the repository, carry the fields this source fills in).
\<close>

section \<open>Process output\<close>

record ProcessOutput =
  exit_code :: "32 word option"
  stderr :: string

definition STDERR_EXCERPT_BYTES :: nat where
  "STDERR_EXCERPT_BYTES = 4096"

definition from_output :: "32 word option \<Rightarrow> string \<Rightarrow> ProcessOutput" where
  "from_output status raw = \<lparr> exit_code = status, stderr = trim (from_utf8_lossy raw) \<rparr>"

function next_boundary :: "string \<Rightarrow> nat \<Rightarrow> nat" where
  "next_boundary s start =
     (if start < length s \<and> \<not> is_char_boundary s start then next_boundary s (start + 1) else start)"
  by pat_completeness auto
termination
  by (relation "measure (\<lambda>(s, start). length s - start)") auto

declare next_boundary.simps [simp del]

definition stderr_excerpt :: "ProcessOutput \<Rightarrow> string \<times> bool" where
  "stderr_excerpt p =
     (if length (stderr p) \<le> STDERR_EXCERPT_BYTES then (stderr p, False)
      else let start = next_boundary (stderr p) (length (stderr p) - STDERR_EXCERPT_BYTES)
           in (drop start (stderr p), True))"

definition describe :: "ProcessOutput \<Rightarrow> string" where
  "describe p =
     (let status = (case exit_code p of
                      Some code \<Rightarrow> ''exited '' @ show_int (sint code)
                    | None \<Rightarrow> ''was killed by a signal'');
          excerpt = fst (stderr_excerpt p)
      in if excerpt = [] then status else status @ '': '' @ excerpt)"

definition write_details :: "ProcessOutput \<Rightarrow> json obj \<Rightarrow> json obj" where
  "write_details p details =
     (let details = obj_insert ''exit_code''
            (case exit_code p of Some code \<Rightarrow> jint (sint code) | None \<Rightarrow> JNull) details;
          (excerpt, truncated) = stderr_excerpt p;
          details = obj_insert ''stderr_excerpt'' (JString excerpt) details
      in if truncated then obj_insert ''stderr_truncated'' (JBool True) details else details)"

section \<open>The error type\<close>

datatype HostError =
    Config string
  | VenvBuild string
  | VenvCommand string string ProcessOutput
  | WorkerStart string
  | WorkerDied string
  | Timeout "64 word"
  | TaskTooLarge nat nat
  | ResponseTooLarge nat nat
  | WorkerError string
  | Protocol string
  | Credential string
  | LegacyShim string string

fun to_string :: "HostError \<Rightarrow> string" where
  "to_string (Config message) = ''configuration error: '' @ message"
| "to_string (VenvBuild message) = ''venv build failed: '' @ message"
| "to_string (VenvCommand step context output) =
     ''venv build failed: '' @ bq step @ '' on '' @ context @ '' '' @ describe output"
| "to_string (WorkerStart message) = ''worker failed to start: '' @ message"
| "to_string (WorkerDied message) = ''worker process died: '' @ message"
| "to_string (Timeout timeout_secs) =
     ''worker did not respond within '' @ show_nat (unat timeout_secs) @ ''s''"
| "to_string (TaskTooLarge size_b limit) =
     ''serialized task is '' @ show_nat size_b @ '' bytes, over the '' @ show_nat limit
     @ ''-byte max_content_size''"
| "to_string (ResponseTooLarge size_b limit) =
     ''worker response frame is at least '' @ show_nat size_b @ '' bytes, over the ''
     @ show_nat limit
     @ ''-byte max_content_size; the frame was discarded rather than buffered''"
| "to_string (WorkerError message) = ''worker returned an error: '' @ message"
| "to_string (Protocol message) = ''protocol error: '' @ message"
| "to_string (Credential message) = ''credential error: '' @ message"
| "to_string (LegacyShim hook message) =
     ''hook '' @ sq hook @ '' cannot be served by this worker, which predates cmf hook support: ''
     @ message"

fun code :: "HostError \<Rightarrow> string" where
  "code (Config _) = ''config''"
| "code (VenvBuild _) = ''venv_build_failed''"
| "code (VenvCommand _ _ _) = ''venv_build_failed''"
| "code (WorkerStart _) = ''worker_start_failed''"
| "code (WorkerDied _) = ''worker_died''"
| "code (Timeout _) = ''timeout''"
| "code (TaskTooLarge _ _) = ''task_too_large''"
| "code (ResponseTooLarge _ _) = ''response_too_large''"
| "code (WorkerError _) = ''worker_error''"
| "code (Protocol _) = ''protocol_error''"
| "code (Credential _) = ''credential_error''"
| "code (LegacyShim _ _) = ''legacy_shim_unsupported''"

fun details :: "HostError \<Rightarrow> json obj" where
  "details (VenvCommand step _ output) =
     write_details output (obj_insert ''step'' (JString step) [])"
| "details (Timeout timeout_secs) =
     obj_insert ''timeout_secs'' (JNumber (PosInt timeout_secs)) []"
| "details (TaskTooLarge size_b limit) =
     obj_insert ''limit_bytes'' (jnat limit) (obj_insert ''size_bytes'' (jnat size_b) [])"
| "details (ResponseTooLarge size_b limit) =
     obj_insert ''limit_bytes'' (jnat limit) (obj_insert ''size_bytes'' (jnat size_b) [])"
| "details _ = []"

datatype PluginError =
    PTimeout string "64 word" "int option"
  | PConfig string
  | PExecution string string "string option" "json obj" "int option"

text \<open>\<^verbatim>\<open>u64::saturating_mul\<close>.\<close>

definition saturating_mul :: "64 word \<Rightarrow> 64 word \<Rightarrow> 64 word" where
  "saturating_mul a b = (if unat a * unat b < 2 ^ 64 then a * b else - 1)"

fun into_plugin_error :: "HostError \<Rightarrow> string \<Rightarrow> PluginError" where
  "into_plugin_error (Timeout timeout_secs) plugin_name =
     PTimeout plugin_name (saturating_mul timeout_secs 1000) None"
| "into_plugin_error (Config message) plugin_name =
     PConfig (''plugin '' @ sq plugin_name @ '' (isolated_venv): '' @ message)"
| "into_plugin_error other plugin_name =
     PExecution plugin_name (to_string other) (Some (code other)) (details other) None"

fun is_execution :: "PluginError \<Rightarrow> bool" where
  "is_execution (PExecution _ _ _ _ _) = True"
| "is_execution _ = False"

section \<open>The excerpt\<close>

lemma next_boundary_spec:
  "start \<le> length s \<Longrightarrow>
     start \<le> next_boundary s start \<and> next_boundary s start \<le> length s \<and>
     is_char_boundary s (next_boundary s start) \<and>
     (\<forall>j. start \<le> j \<and> is_char_boundary s j \<longrightarrow> next_boundary s start \<le> j)"
proof (induction s start rule: next_boundary.induct)
  case (1 s start)
  show ?case
  proof (cases "start < length s \<and> \<not> is_char_boundary s start")
    case True
    with 1 have IH: "start + 1 \<le> next_boundary s (start + 1)"
        "next_boundary s (start + 1) \<le> length s"
        "is_char_boundary s (next_boundary s (start + 1))"
        "\<forall>j. start + 1 \<le> j \<and> is_char_boundary s j \<longrightarrow> next_boundary s (start + 1) \<le> j"
      by auto
    have eq: "next_boundary s start = next_boundary s (start + 1)"
      using True by (subst next_boundary.simps) simp
    have "next_boundary s (start + 1) \<le> j" if "start \<le> j" "is_char_boundary s j" for j
      using that IH(4) True by (cases "j = start") auto
    with IH(1-3) eq show ?thesis by simp
  next
    case False
    then have "next_boundary s start = start" by (subst next_boundary.simps) auto
    with False 1 show ?thesis by (auto simp: is_char_boundary_def)
  qed
qed

lemma utf8_char_length: "utf8_char u \<Longrightarrow> length u \<le> 4"
  unfolding utf8_char_def by (cases u) (auto simp: utf8_step.simps split: if_splits list.split_asm)

lemma utf8_valid_hd: "utf8_valid s \<Longrightarrow> s \<noteq> [] \<Longrightarrow> \<not> continuation_byte (hd s)"
  by (induction s rule: utf8_valid_induct) (auto simp: utf8_char_head utf8_char_def)

lemma char_boundary_near:
  "utf8_valid s \<Longrightarrow> i \<le> length s \<Longrightarrow> \<exists>j. i \<le> j \<and> j \<le> i + 3 \<and> is_char_boundary s j"
proof (induction s arbitrary: i rule: utf8_valid_induct)
  case (Char u r)
  consider "i = 0" | "0 < i" "i < length u" | "length u \<le> i" by linarith
  then show ?case
  proof cases
    case 1
    then show ?thesis by (intro exI [of _ 0]) (simp add: is_char_boundary_def)
  next
    case 2
    have "is_char_boundary (u @ r) (length u)"
      using utf8_valid_hd [OF Char.hyps(2)]
      by (cases r) (auto simp: is_char_boundary_def nth_append)
    with 2 utf8_char_length [OF Char.hyps(1)] show ?thesis
      by (intro exI [of _ "length u"]) auto
  next
    case 3
    with Char obtain j where j: "i - length u \<le> j" "j \<le> i - length u + 3" "is_char_boundary r j"
      by (metis add_diff_cancel_left' diff_le_mono length_append)
    have "is_char_boundary (u @ r) (length u + j)"
      using j(3) utf8_valid_hd [OF Char.hyps(2)]
      by (cases r) (auto simp: is_char_boundary_def nth_append)
    with j 3 show ?thesis by (intro exI [of _ "length u + j"]) auto
  qed
qed (simp add: is_char_boundary_def)

lemma stderr_excerpt_suffix: "suffix (fst (stderr_excerpt p)) (stderr p)"
  by (simp add: stderr_excerpt_def Let_def suffix_drop)

lemma stderr_excerpt_bounded: "length (fst (stderr_excerpt p)) \<le> STDERR_EXCERPT_BYTES"
proof (cases "length (stderr p) \<le> STDERR_EXCERPT_BYTES")
  case False
  then show ?thesis
    using next_boundary_spec [of "length (stderr p) - STDERR_EXCERPT_BYTES" "stderr p"]
    by (simp add: stderr_excerpt_def Let_def le_diff_conv)
qed (simp add: stderr_excerpt_def)

lemma stderr_excerpt_valid: "utf8_valid (stderr p) \<Longrightarrow> utf8_valid (fst (stderr_excerpt p))"
  using next_boundary_spec [of "length (stderr p) - STDERR_EXCERPT_BYTES" "stderr p"]
  by (simp add: stderr_excerpt_def Let_def utf8_valid_split)

lemma stderr_excerpt_loses_little:
  assumes "utf8_valid (stderr p)" "length (stderr p) > STDERR_EXCERPT_BYTES"
  shows "length (fst (stderr_excerpt p)) + 3 \<ge> STDERR_EXCERPT_BYTES"
proof -
  let ?start = "length (stderr p) - STDERR_EXCERPT_BYTES"
  obtain j where "?start \<le> j" "j \<le> ?start + 3" "is_char_boundary (stderr p) j"
    using char_boundary_near [OF assms(1), of ?start] by auto
  then have "next_boundary (stderr p) ?start \<le> ?start + 3"
    using next_boundary_spec [of ?start "stderr p"] by (meson diff_le_self le_trans)
  with assms(2) show ?thesis by (simp add: stderr_excerpt_def Let_def)
qed

text \<open>For the output of any child process, whatever bytes it wrote, the excerpt of its stderr
  is valid UTF-8, the end of the trimmed decoding, at most 4096 bytes long, complete when it is
  not marked as cut, and at least 4093 bytes long when it is.\<close>

theorem stderr_excerpt_correct:
  "let p = from_output status raw; (e, cut) = stderr_excerpt p in
     utf8_valid e \<and> suffix e (stderr p) \<and> length e \<le> 4096 \<and>
     (cut \<longleftrightarrow> length (stderr p) > 4096) \<and>
     (if cut then length e \<ge> 4093 else e = stderr p)"
proof -
  define p where "p = from_output status raw"
  have valid: "utf8_valid (stderr p)"
    by (simp add: p_def from_output_def trim_valid from_utf8_lossy_valid)
  have "snd (stderr_excerpt p) \<longleftrightarrow> length (stderr p) > 4096"
    "\<not> snd (stderr_excerpt p) \<Longrightarrow> fst (stderr_excerpt p) = stderr p"
    by (simp_all add: stderr_excerpt_def STDERR_EXCERPT_BYTES_def Let_def split: if_splits)
  with valid stderr_excerpt_valid [OF valid] stderr_excerpt_suffix [of p]
    stderr_excerpt_bounded [of p] stderr_excerpt_loses_little [OF valid]
  show ?thesis
    unfolding p_def [symmetric] by (auto simp: STDERR_EXCERPT_BYTES_def case_prod_beta Let_def)
qed

section \<open>Codes, details and the framework error\<close>

lemma unat_max_u64: "unat (- 1 :: 64 word) = 2 ^ 64 - 1"
  by (simp add: unat_eq_nat_uint uint_word_ariths)

lemma saturating_mul_unat: "unat (saturating_mul a b) = min (unat a * unat b) (2 ^ 64 - 1)"
proof (cases "unat a * unat b < 2 ^ 64")
  case True
  then show ?thesis by (simp add: saturating_mul_def unat_word_ariths min_def)
next
  case False
  then show ?thesis by (simp add: saturating_mul_def unat_max_u64 min_def)
qed

lemma details_ok [simp]: "obj_ok (details e)"
  by (cases e) (auto simp: write_details_def obj_ok_def case_prod_beta Let_def)

lemma write_details_get:
  "obj_get (write_details p d) ''stderr_excerpt'' = Some (JString (fst (stderr_excerpt p)))"
  "obj_get (write_details p d) ''exit_code'' =
     Some (case exit_code p of Some c \<Rightarrow> jint (sint c) | None \<Rightarrow> JNull)"
  "obj_get (write_details p d) ''stderr_truncated'' =
     (if snd (stderr_excerpt p) then Some (JBool True) else obj_get d ''stderr_truncated'')"
  "obj_get (write_details p d) ''step'' = obj_get d ''step''"
  by (simp_all add: write_details_def case_prod_beta Let_def)

text \<open>A timeout becomes the framework's timeout, in milliseconds that saturate instead of
  wrapping; a configuration fault becomes its configuration error and keeps the message; every
  other failure is an execution error with the rendered message, the stable code and a details
  map of distinct keys, which is empty except for a size violation or a failed venv command.\<close>

theorem into_plugin_error_correct:
  "(case into_plugin_error e n of
      PTimeout n' ms pc \<Rightarrow>
        (\<exists>s. e = Timeout s \<and> unat ms = min (unat s * 1000) (2 ^ 64 - 1)) \<and> n' = n \<and> pc = None
    | PConfig m \<Rightarrow> (\<exists>msg. e = Config msg \<and> suffix msg m)
    | PExecution n' m c d pc \<Rightarrow>
        n' = n \<and> m = to_string e \<and> c = Some (code e) \<and> pc = None \<and> obj_ok d \<and>
        code e \<notin> {''timeout'', ''config''} \<and>
        (d \<noteq> [] \<longleftrightarrow>
           code e \<in> {''task_too_large'', ''response_too_large''} \<or>
           (\<exists>st ctx out. e = VenvCommand st ctx out)))"
  using details_ok [of e]
  by (cases e)
     (auto simp: saturating_mul_unat suffix_def sq_def write_details_def case_prod_beta Let_def)

end
