(* ===== verification/Hook_Routes.thy ===== *)
theory Hook_Routes
  imports Cpex_Json
begin

text \<open>
  Hook names: the routing table of the Python host (\<^verbatim>\<open>conversion.rs\<close>: dispatched
  name, payload kind, worker spelling), the table of removed names every binding refuses
  (\<^verbatim>\<open>crates/cpex/src/host.rs\<close>). The dispatched names are the spellings the repository pins for the policy
  engine's constants.
\<close>

section \<open>The routing table\<close>

datatype PayloadKind =
    CmfMessage | ToolPreInvoke | ToolPostInvoke | PromptPreFetch | PromptPostFetch
  | ResourcePreFetch | ResourcePostFetch | IdentityResolve | TokenDelegate | Generic

record HookRoute =
  dispatched :: string
  kind :: PayloadKind
  worker :: string

definition route :: "string \<Rightarrow> PayloadKind \<Rightarrow> string \<Rightarrow> HookRoute" where
  "route d k w = \<lparr> dispatched = d, kind = k, worker = w \<rparr>"

definition HOOK_ROUTES :: "HookRoute list" where
  "HOOK_ROUTES =
     [route ''cmf.tool_pre_invoke'' CmfMessage ''cmf.tool_pre_invoke'',
      route ''cmf.tool_post_invoke'' CmfMessage ''cmf.tool_post_invoke'',
      route ''cmf.llm_input'' CmfMessage ''cmf.llm_input'',
      route ''cmf.llm_output'' CmfMessage ''cmf.llm_output'',
      route ''cmf.prompt_pre_invoke'' CmfMessage ''cmf.prompt_pre_fetch'',
      route ''cmf.prompt_post_invoke'' CmfMessage ''cmf.prompt_post_fetch'',
      route ''cmf.resource_pre_fetch'' CmfMessage ''cmf.resource_pre_fetch'',
      route ''cmf.resource_post_fetch'' CmfMessage ''cmf.resource_post_fetch'',
      route ''identity.resolve'' IdentityResolve ''identity_resolve'',
      route ''token.delegate'' TokenDelegate ''token_delegate'',
      route ''tool_pre_invoke'' ToolPreInvoke ''tool_pre_invoke'',
      route ''tool_post_invoke'' ToolPostInvoke ''tool_post_invoke'',
      route ''prompt_pre_fetch'' PromptPreFetch ''prompt_pre_fetch'',
      route ''prompt_post_fetch'' PromptPostFetch ''prompt_post_fetch'',
      route ''resource_pre_fetch'' ResourcePreFetch ''resource_pre_fetch'',
      route ''resource_post_fetch'' ResourcePostFetch ''resource_post_fetch'']"

definition lookup_route :: "string \<Rightarrow> HookRoute option" where
  "lookup_route hook_name = find (\<lambda>r. dispatched r = hook_name) HOOK_ROUTES"

definition payload_kind_for_hook :: "string \<Rightarrow> PayloadKind" where
  "payload_kind_for_hook hook_name =
     (case lookup_route hook_name of None \<Rightarrow> Generic | Some r \<Rightarrow> kind r)"

definition worker_hook_name :: "string \<Rightarrow> string" where
  "worker_hook_name hook_name =
     (case lookup_route hook_name of None \<Rightarrow> hook_name | Some r \<Rightarrow> worker r)"

definition is_credential_hook :: "string \<Rightarrow> bool" where
  "is_credential_hook hook_name \<longleftrightarrow>
     payload_kind_for_hook hook_name \<in> {IdentityResolve, TokenDelegate}"

section \<open>Removed names\<close>

definition REMOVED_HOOKS :: "(string \<times> string) list" where
  "REMOVED_HOOKS =
     [(''tool_pre_invoke'', ''cmf.tool_pre_invoke''),
      (''tool_post_invoke'', ''cmf.tool_post_invoke''),
      (''prompt_pre_fetch'', ''cmf.prompt_pre_invoke''),
      (''cmf.prompt_pre_fetch'', ''cmf.prompt_pre_invoke''),
      (''prompt_post_fetch'', ''cmf.prompt_post_invoke''),
      (''cmf.prompt_post_fetch'', ''cmf.prompt_post_invoke''),
      (''resource_pre_fetch'', ''cmf.resource_pre_fetch''),
      (''resource_post_fetch'', ''cmf.resource_post_fetch''),
      (''identity_resolve'', ''identity.resolve''),
      (''token_delegate'', ''token.delegate''),
      (''cmf.http_request'', ''http.request''),
      (''cmf.http_response'', ''http.response'')]"

definition removed_hook_replacement :: "string \<Rightarrow> string option" where
  "removed_hook_replacement hook_name =
     map_option snd (find (\<lambda>(removed, _). removed = hook_name) REMOVED_HOOKS)"

section \<open>Lemmas\<close>

lemma lookup_route_in: "lookup_route h = Some r \<Longrightarrow> r \<in> set HOOK_ROUTES \<and> dispatched r = h"
  by (auto simp: lookup_route_def find_Some_iff)

lemma removed_in: "removed_hook_replacement h = Some r \<Longrightarrow> (h, r) \<in> set REMOVED_HOOKS"
  by (auto simp: removed_hook_replacement_def find_Some_iff) (metis nth_mem)

lemma routes_all:
  assumes "list_all P HOOK_ROUTES" "lookup_route h = Some r"
  shows "P r"
  using assms lookup_route_in [of h r] by (auto simp: list_all_iff)

lemma removed_all:
  assumes "list_all P REMOVED_HOOKS" "removed_hook_replacement h = Some r"
  shows "P (h, r)"
  using assms removed_in [of h r] by (auto simp: list_all_iff)

lemma worker_name_cases:
  obtains "lookup_route h = None" "worker_hook_name h = h"
  | r where "lookup_route h = Some r" "worker_hook_name h = worker r" "dispatched r = h"
  by (cases "lookup_route h") (auto simp: worker_hook_name_def dest: lookup_route_in)

lemma credential_hooks_are:
  "is_credential_hook h \<longleftrightarrow> h \<in> {''identity.resolve'', ''token.delegate''}"
proof
  assume cred: "is_credential_hook h"
  then obtain r where r: "lookup_route h = Some r" "kind r \<in> {IdentityResolve, TokenDelegate}"
    by (auto simp: is_credential_hook_def payload_kind_for_hook_def split: option.splits)
  have "list_all (\<lambda>r. kind r \<in> {IdentityResolve, TokenDelegate} \<longrightarrow>
      dispatched r \<in> {''identity.resolve'', ''token.delegate''}) HOOK_ROUTES"
    by (simp add: HOOK_ROUTES_def route_def)
  from routes_all [OF this r(1)] r lookup_route_in [OF r(1)]
  show "h \<in> {''identity.resolve'', ''token.delegate''}" by blast
next
  have "is_credential_hook ''identity.resolve''" "is_credential_hook ''token.delegate''"
    by (simp_all add: is_credential_hook_def payload_kind_for_hook_def lookup_route_def
        HOOK_ROUTES_def route_def)
  then show "h \<in> {''identity.resolve'', ''token.delegate''} \<Longrightarrow> is_credential_hook h"
    by blast
qed

text \<open>The two tables agree. A hook whose worker spelling differs from the dispatched name uses a
  removed name, and the replacement the bindings suggest for that name is the dispatched one.\<close>

theorem worker_spelling_is_removed:
  assumes "worker_hook_name h \<noteq> h"
  shows "removed_hook_replacement (worker_hook_name h) = Some h"
proof (cases rule: worker_name_cases [of h])
  case 1
  with assms show ?thesis by simp
next
  case (2 r)
  have "list_all (\<lambda>r. worker r \<noteq> dispatched r \<longrightarrow>
      removed_hook_replacement (worker r) = Some (dispatched r)) HOOK_ROUTES"
    by (simp add: HOOK_ROUTES_def route_def removed_hook_replacement_def REMOVED_HOOKS_def)
  from routes_all [OF this 2(1)] 2 assms show ?thesis by simp
qed

theorem worker_spelling_is_removed_witness:
  "worker_hook_name ''cmf.prompt_pre_invoke'' \<noteq> ''cmf.prompt_pre_invoke'' \<and>
   removed_hook_replacement (worker_hook_name ''cmf.prompt_pre_invoke'')
     = Some ''cmf.prompt_pre_invoke''"
proof -
  have neq: "worker_hook_name ''cmf.prompt_pre_invoke'' \<noteq> ''cmf.prompt_pre_invoke''"
    by (simp add: worker_hook_name_def lookup_route_def HOOK_ROUTES_def route_def)
  with worker_spelling_is_removed [OF neq] show ?thesis by blast
qed

text \<open>Following a replacement terminates at once. No replacement is itself removed, none carries
  a name it replaces, and no removed name is a credential hook.\<close>

theorem replacement_not_removed:
  "case removed_hook_replacement h of
     None \<Rightarrow> True
   | Some r \<Rightarrow> r \<noteq> h \<and> removed_hook_replacement r = None \<and> \<not> is_credential_hook h"
proof (cases "removed_hook_replacement h")
  case (Some r)
  have "list_all (\<lambda>(h, r). r \<noteq> h \<and> removed_hook_replacement r = None \<and> \<not> is_credential_hook h)
      REMOVED_HOOKS"
    by (simp add: REMOVED_HOOKS_def removed_hook_replacement_def is_credential_hook_def
        payload_kind_for_hook_def lookup_route_def HOOK_ROUTES_def route_def)
  from removed_all [OF this Some] Some show ?thesis by simp
qed simp

end
