(* ===== verification/Credential_Payloads.thy ===== *)
theory Credential_Payloads
  imports Engine_Types Host_Error Hook_Routes
begin

text \<open>
  Translation of the engine's identity and delegation payloads to the worker's models and back
  (\<^verbatim>\<open>credential_payloads.rs\<close>), and the two checks on an identity payload at the
  binding boundary (\<^verbatim>\<open>crates/cpex/src/host.rs\<close>). Outbound, no raw token rides
  on the public payload; inbound, a field the engine's payload cannot hold is refused.
\<close>

section \<open>Constants\<close>

definition CREDENTIAL_HEADERS :: "string list" where
  "CREDENTIAL_HEADERS =
     [''authorization'', ''proxy-authorization'', ''cookie'', ''set-cookie'', ''x-api-key'',
      ''x-auth-token'', ''x-access-token'', ''x-amzn-oidc-data'', ''x-goog-iap-jwt-assertion'',
      ''x-amz-security-token'']"

definition PUBLIC_HEADER_VALIDATORS :: "(string \<times> (string \<Rightarrow> bool)) list" where
  "PUBLIC_HEADER_VALIDATORS = []"

definition DEFAULT_CREDENTIAL_HEADER :: string where
  "DEFAULT_CREDENTIAL_HEADER = ''authorization''"

definition DEFAULT_OUTBOUND_HEADER :: string where
  "DEFAULT_OUTBOUND_HEADER = ''Authorization''"

definition DEFAULT_DELEGATED_TOKEN_TTL_SECS :: int where
  "DEFAULT_DELEGATED_TOKEN_TTL_SECS = 60"

definition IDENTITY_INPUT_FIELDS :: "string list" where
  "IDENTITY_INPUT_FIELDS =
     [''raw_token'', ''source'', ''headers'', ''client_host'', ''client_port'']"

definition DELEGATION_INPUT_FIELDS :: "string list" where
  "DELEGATION_INPUT_FIELDS =
     [''target_name'', ''target_type'', ''target_audience'', ''required_permissions'',
      ''trust_domain'', ''auth_enforced_by'', ''route_attenuation'', ''bearer_token'']"

section \<open>Shared helpers\<close>

definition protocol :: "string \<Rightarrow> string \<Rightarrow> HostError" where
  "protocol hook message = Protocol (''hook '' @ sq hook @ '': '' @ message)"

definition unrepresentable :: "string \<Rightarrow> string \<Rightarrow> HostError" where
  "unrepresentable hook field =
     protocol hook (''the plugin returned '' @ bq field
       @ '', which the PPE payload has nowhere to hold; refusing to drop it silently'')"

definition object_fields :: "string \<Rightarrow> json \<Rightarrow> HostError + json obj" where
  "object_fields hook value =
     ok_or (protocol hook ''the modified payload is not a JSON object'') (as_object value)"

fun is_empty :: "json \<Rightarrow> bool" where
  "is_empty JNull = True"
| "is_empty (JBool b) = (\<not> b)"
| "is_empty (JString s) = (s = [])"
| "is_empty (JArray items) = (items = [])"
| "is_empty (JObject fs) = (fs = [])"
| "is_empty (JNumber _) = False"

text \<open>\<open>first_dropped\<close> walks both values at once; the two list traversals are its
  \<^verbatim>\<open>find_map\<close> loops over the entries of an object and the items of an array.\<close>

function (sequential) first_dropped :: "json \<Rightarrow> json \<Rightarrow> string \<Rightarrow> string option"
  and dropped_field :: "json obj \<Rightarrow> json obj \<Rightarrow> string \<Rightarrow> string option"
  and dropped_item :: "json list \<Rightarrow> json list \<Rightarrow> nat \<Rightarrow> string \<Rightarrow> string option" where
  "first_dropped (JObject fs) (JObject kept) path = dropped_field fs kept path"
| "first_dropped (JArray items) (JArray kept) path =
     (if length items \<noteq> length kept then Some path else dropped_item items kept 0 path)"
| "first_dropped _ _ _ = None"
| "dropped_field [] kept path = None"
| "dropped_field ((key, value) # fs) kept path =
     (case (if is_empty value then None
            else let path' = path @ ''.'' @ key in
              case obj_get kept key of
                None \<Rightarrow> Some path'
              | Some k \<Rightarrow> first_dropped value k path') of
        Some p \<Rightarrow> Some p
      | None \<Rightarrow> dropped_field fs kept path)"
| "dropped_item (item # items) (k # kept) i path =
     (case first_dropped item k (path @ ''['' @ show_nat i @ '']'') of
        Some p \<Rightarrow> Some p
      | None \<Rightarrow> dropped_item items kept (Suc i) path)"
| "dropped_item _ _ _ _ = None"
  by pat_completeness auto
termination
  by (relation "measure (\<lambda>x. case x of
        Inl (v, _, _) \<Rightarrow> size v
      | Inr (Inl (fs, _, _)) \<Rightarrow> size_list (size_prod (\<lambda>_. 0) size) fs
      | Inr (Inr (is, _, _, _)) \<Rightarrow> size_list size is)") auto

definition parse_lossless ::
  "(json \<Rightarrow> string + 'a) \<Rightarrow> ('a \<Rightarrow> string + json) \<Rightarrow> string \<Rightarrow> string \<Rightarrow> json \<Rightarrow> HostError + 'a"
where
  "parse_lossless de se hook field value =
     (case de value of
        Inl _ \<Rightarrow> Inl (protocol hook (bq field @ '' does not match the PPE type it maps to''))
      | Inr parsed \<Rightarrow>
          case se parsed of
            Inl e \<Rightarrow> Inl (Protocol (''could not re-serialize '' @ bq field @ '': '' @ e))
          | Inr back \<Rightarrow>
              case first_dropped value back field of
                Some path \<Rightarrow> Inl (unrepresentable hook path)
              | None \<Rightarrow> Inr parsed)"

section \<open>Headers\<close>

definition header_entry :: "(string \<times> string) list \<Rightarrow> string \<Rightarrow> (string \<times> string) option" where
  "header_entry headers name = find (\<lambda>(k, _). eq_ignore_ascii_case k name) headers"

definition strip_bearer :: "string \<Rightarrow> string" where
  "strip_bearer value =
     (let trimmed = trim_start value in
      if 7 \<le> length trimmed \<and> is_char_boundary trimmed 7 \<and>
         eq_ignore_ascii_case (take 7 trimmed) ''bearer ''
      then drop 7 trimmed else trimmed)"

definition source_header_or_default :: "'o IdentityPayload \<Rightarrow> string" where
  "source_header_or_default p =
     (case ip_source_header p of Some h \<Rightarrow> h | None \<Rightarrow> DEFAULT_CREDENTIAL_HEADER)"

definition inbound_token :: "'o IdentityPayload \<Rightarrow> string option" where
  "inbound_token p =
     (if trim (ip_raw_token p) \<noteq> [] then Some (ip_raw_token p)
      else case header_entry (ip_headers p) (source_header_or_default p) of
        None \<Rightarrow> None
      | Some (_, value) \<Rightarrow>
          let token = trim (strip_bearer value) in if token \<noteq> [] then Some token else None)"

definition credential_header_name :: "'o IdentityPayload \<Rightarrow> string" where
  "credential_header_name p =
     (let header = source_header_or_default p in
      case header_entry (ip_headers p) header of None \<Rightarrow> header | Some (name, _) \<Rightarrow> name)"

text \<open>The rule, for any table of approved names, and the table the code ships.\<close>

definition public_header_in ::
  "(string \<times> (string \<Rightarrow> bool)) list \<Rightarrow> string \<Rightarrow> string \<Rightarrow> string option \<Rightarrow> string option \<Rightarrow> bool" where
  "public_header_in table name value source_header token =
     (let lower = to_ascii_lowercase name in
      if lower \<in> set CREDENTIAL_HEADERS
         \<or> (case source_header of None \<Rightarrow> False | Some source \<Rightarrow> eq_ignore_ascii_case lower source)
         \<or> (case token of None \<Rightarrow> False | Some t \<Rightarrow> str_contains name t \<or> str_contains value t)
      then False
      else list_ex (\<lambda>(approved, validate). lower = approved \<and> validate value) table)"

definition is_public_header ::
  "string \<Rightarrow> string \<Rightarrow> string option \<Rightarrow> string option \<Rightarrow> bool" where
  "is_public_header = public_header_in PUBLIC_HEADER_VALIDATORS"

definition public_headers :: "'o IdentityPayload \<Rightarrow> (string \<times> string) list" where
  "public_headers p =
     filter (\<lambda>(name, value).
        is_public_header name value (Some (source_header_or_default p)) (inbound_token p))
       (ip_headers p)"

section \<open>Identity\<close>

definition identity_to_worker :: "'o engine \<Rightarrow> 'o IdentityPayload \<Rightarrow> HostError + json" where
  "identity_to_worker E p =
     (case ser_source E (ip_source p) of
        Inl e \<Rightarrow> Inl (Protocol (''could not serialize the identity payload's source: '' @ e))
      | Inr source \<Rightarrow>
          let j = [(''raw_token'', JString []), (''source'', source),
                   (''headers'', str_obj (public_headers p))];
              j = (case ip_client_host p of
                     None \<Rightarrow> j | Some host \<Rightarrow> obj_insert ''client_host'' (JString host) j);
              j = (case ip_client_port p of
                     None \<Rightarrow> j | Some port \<Rightarrow> obj_insert ''client_port'' (jnat (unat port)) j)
          in Inr (JObject j))"

datatype 'o IdentityOutcome = Resolved "'o IdentityPayload" | Rejected PluginViolation

text \<open>The field check shared by both directions: the first set field outside the known names.\<close>

definition unknown_field :: "string list \<Rightarrow> json obj \<Rightarrow> string option" where
  "unknown_field known fs =
     map_option fst (find (\<lambda>(key, value). key \<notin> set known \<and> \<not> is_empty value) fs)"

definition identity_known :: "string list" where
  "identity_known =
     [''subject'', ''delegation'', ''raw_claims'', ''rejected'', ''reject_status'', ''reject_reason'']
     @ IDENTITY_INPUT_FIELDS"

definition delegation_known :: "string list" where
  "delegation_known =
     [''delegated_token'', ''delegation_update'', ''forwarded_headers'', ''cache_key'', ''cache_ttl'']
     @ DELEGATION_INPUT_FIELDS"

definition python_subject :: "json \<Rightarrow> json" where
  "python_subject subject =
     (case subject of
        JObject fs \<Rightarrow>
          (if obj_get fs ''subject_type'' = None then
             case obj_get fs ''type'' of
               Some k \<Rightarrow> JObject (obj_insert ''subject_type'' k (obj_remove ''type'' fs))
             | None \<Rightarrow> subject
           else subject)
      | _ \<Rightarrow> subject)"

abbreviation HOOK_IDENTITY_RESOLVE :: string where
  "HOOK_IDENTITY_RESOLVE \<equiv> ''identity.resolve''"

abbreviation HOOK_TOKEN_DELEGATE :: string where
  "HOOK_TOKEN_DELEGATE \<equiv> ''token.delegate''"

definition set_value :: "json obj \<Rightarrow> string \<Rightarrow> json option" where
  "set_value fs key =
     (case obj_get fs key of None \<Rightarrow> None | Some v \<Rightarrow> if is_null v then None else Some v)"

definition reject_reason :: "json obj \<Rightarrow> HostError + string" where
  "reject_reason fs =
     rbind (case obj_get fs ''reject_reason'' of
              None \<Rightarrow> Inr [] | Some JNull \<Rightarrow> Inr [] | Some (JString reason) \<Rightarrow> Inr reason
            | Some _ \<Rightarrow> Inl (protocol HOOK_IDENTITY_RESOLVE (bq ''reject_reason'' @ '' must be a string'')))
       (\<lambda>reason. Inr (if reason = [] then ''the identity plugin rejected the credential'' else reason))"

definition rejection :: "json obj \<Rightarrow> HostError + PluginViolation" where
  "rejection fs =
     rbind (reject_reason fs) (\<lambda>reason.
       let violation = new_violation ''auth.rejected'' reason in
       case set_value fs ''reject_status'' of
         None \<Rightarrow> Inr violation
       | Some status \<Rightarrow>
           rbind (ok_or (protocol HOOK_IDENTITY_RESOLVE
                     (bq ''reject_status'' @ '' must be an integer'')) (as_i64 status))
             (\<lambda>status. Inr (violation
                \<lparr> pv_proto_error_code := Some status,
                  pv_details := obj_insert ''reject_status'' (jint status)
                                  (pv_details violation) \<rparr>)))"

definition write_subject ::
  "'o engine \<Rightarrow> json obj \<Rightarrow> 'o IdentityPayload \<Rightarrow> HostError + 'o IdentityPayload" where
  "write_subject E fs resolved =
     (case set_value fs ''subject'' of
        None \<Rightarrow> Inr resolved
      | Some subject \<Rightarrow>
          rbind (parse_lossless (de_subject E) (ser E) HOOK_IDENTITY_RESOLVE ''subject''
                   (python_subject subject))
            (\<lambda>s. Inr (resolved\<lparr> ip_subject := Some s \<rparr>)))"

definition write_identity_delegation ::
  "'o engine \<Rightarrow> json obj \<Rightarrow> 'o IdentityPayload \<Rightarrow> HostError + 'o IdentityPayload" where
  "write_identity_delegation E fs resolved =
     (case set_value fs ''delegation'' of
        None \<Rightarrow> Inr resolved
      | Some delegation \<Rightarrow>
          rbind (parse_lossless (de_delegation E) (ser_delegation E) HOOK_IDENTITY_RESOLVE
                   ''delegation'' delegation)
            (\<lambda>d. Inr (resolved\<lparr> ip_delegation := Some d \<rparr>)))"

definition write_claims :: "json obj \<Rightarrow> 'o IdentityPayload \<Rightarrow> HostError + 'o IdentityPayload" where
  "write_claims fs resolved =
     (case obj_get fs ''raw_claims'' of
        None \<Rightarrow> Inr resolved
      | Some JNull \<Rightarrow> Inr resolved
      | Some (JObject claims) \<Rightarrow>
          Inr (resolved\<lparr> ip_raw_claims := obj_extend (ip_raw_claims resolved) claims \<rparr>)
      | Some _ \<Rightarrow> Inl (protocol HOOK_IDENTITY_RESOLVE (bq ''raw_claims'' @ '' must be an object'')))"

definition identity_from_worker ::
  "'o engine \<Rightarrow> 'o IdentityPayload \<Rightarrow> json \<Rightarrow> HostError + 'o IdentityOutcome" where
  "identity_from_worker E original modified =
     rbind (object_fields HOOK_IDENTITY_RESOLVE modified) (\<lambda>fs.
     case unknown_field identity_known fs of
       Some key \<Rightarrow> Inl (unrepresentable HOOK_IDENTITY_RESOLVE key)
     | None \<Rightarrow>
         if obj_get fs ''rejected'' = Some (JBool True) then
           rbind (rejection fs) (\<lambda>v. Inr (Rejected v))
         else if obj_get fs ''rejected'' \<notin> {None, Some JNull, Some (JBool False)} then
           Inl (protocol HOOK_IDENTITY_RESOLVE (bq ''rejected'' @ '' must be a boolean''))
         else
           rbind (write_subject E fs original) (\<lambda>resolved.
           rbind (write_identity_delegation E fs resolved) (\<lambda>resolved.
           rbind (write_claims fs resolved) (\<lambda>resolved. Inr (Resolved resolved)))))"

section \<open>Delegation\<close>

definition to_json :: "'o engine \<Rightarrow> 'o \<Rightarrow> HostError + json" where
  "to_json E v =
     (case ser E v of
        Inl e \<Rightarrow> Inl (Protocol (''could not serialize a delegation payload field: '' @ e))
      | Inr j \<Rightarrow> Inr j)"

definition delegation_to_worker :: "'o engine \<Rightarrow> 'o DelegationPayload \<Rightarrow> HostError + json" where
  "delegation_to_worker E p =
     (if dp_actor_role p \<noteq> None \<or> dp_actor_token p \<noteq> [] then
        Inl (protocol HOOK_TOKEN_DELEGATE
          (''the delegation carries an RFC 8693 actor, which the Python DelegationPayload cannot ''
           @ ''carry; a token minted without it would lose its '' @ bq ''act'' @ '' attribution''))
      else if dp_subject p \<noteq> user_subject E then
        Inl (protocol HOOK_TOKEN_DELEGATE
          (''the delegation is for a subject other than '' @ bq ''user''
           @ '', and the Python DelegationPayload reads its bearer token as the user's; a plugin ''
           @ ''would attribute the minted token to the wrong principal''))
      else
        rbind (to_json E (dp_target_type p)) (\<lambda>target_type.
        rbind (to_json E (dp_auth_enforced_by p)) (\<lambda>auth.
        let j = [(''target_name'', JString (dp_target_name p)), (''target_type'', target_type),
                 (''required_permissions'', JArray (map JString (dp_required_permissions p))),
                 (''auth_enforced_by'', auth)];
            j = (case dp_target_audience p of
                   None \<Rightarrow> j | Some a \<Rightarrow> obj_insert ''target_audience'' (JString a) j);
            j = (case dp_trust_domain p of
                   None \<Rightarrow> j | Some d \<Rightarrow> obj_insert ''trust_domain'' (JString d) j)
        in case dp_route_attenuation p of
             None \<Rightarrow> Inr (JObject j)
           | Some att \<Rightarrow>
               rbind (to_json E att) (\<lambda>a. Inr (JObject (obj_insert ''route_attenuation'' a j))))))"

definition outbound_header :: "string \<Rightarrow> json obj \<Rightarrow> HostError + string" where
  "outbound_header token forwarded =
     (case forwarded of
        [] \<Rightarrow> Inr DEFAULT_OUTBOUND_HEADER
      | (name, value) # rest \<Rightarrow>
          let carries_token = (case as_str value of
                None \<Rightarrow> False | Some v \<Rightarrow> v = token \<or> strip_bearer v = token)
          in if rest \<noteq> [] \<or> \<not> carries_token then
               Inl (protocol HOOK_TOKEN_DELEGATE
                 (''the plugin returned '' @ bq ''forwarded_headers''
                  @ '' other than the single header carrying the minted token, and a PPE delegation ''
                  @ ''payload cannot carry extra headers''))
             else Inr name)"

definition is_default_delegation :: "'o DelegationExtension \<Rightarrow> bool" where
  "is_default_delegation update \<longleftrightarrow>
     chain update = [] \<and> depth update = 0 \<and> origin_subject_id update = None \<and>
     actor_subject_id update = None \<and> \<not> delegated update"

definition returned_token :: "json obj \<Rightarrow> HostError + string option" where
  "returned_token fs =
     (case obj_get fs ''delegated_token'' of
        None \<Rightarrow> Inr None
      | Some JNull \<Rightarrow> Inr None
      | Some (JString token) \<Rightarrow>
          if trim token \<noteq> [] then Inr (Some token)
          else Inl (protocol HOOK_TOKEN_DELEGATE
                 (''the plugin returned an empty '' @ bq ''delegated_token''))
      | Some _ \<Rightarrow> Inl (protocol HOOK_TOKEN_DELEGATE (bq ''delegated_token'' @ '' must be a string'')))"

definition forwarded_headers :: "json obj \<Rightarrow> HostError + json obj" where
  "forwarded_headers fs =
     (case obj_get fs ''forwarded_headers'' of
        None \<Rightarrow> Inr []
      | Some JNull \<Rightarrow> Inr []
      | Some (JObject headers) \<Rightarrow> Inr headers
      | Some _ \<Rightarrow> Inl (protocol HOOK_TOKEN_DELEGATE
                         (bq ''forwarded_headers'' @ '' must be an object'')))"

definition returned_ttl :: "json obj \<Rightarrow> HostError + int" where
  "returned_ttl fs =
     (case set_value fs ''cache_ttl'' of
        None \<Rightarrow> Inr DEFAULT_DELEGATED_TOKEN_TTL_SECS
      | Some ttl \<Rightarrow>
          ok_or (protocol HOOK_TOKEN_DELEGATE (bq ''cache_ttl'' @ '' must be a positive integer''))
            (case as_i64 ttl of None \<Rightarrow> None | Some s \<Rightarrow> if s > 0 then Some s else None))"

definition mint ::
  "'o engine \<Rightarrow> int \<Rightarrow> 'o DelegationPayload \<Rightarrow> json obj \<Rightarrow> string \<Rightarrow> json obj
     \<Rightarrow> HostError + 'o DelegationPayload" where
  "mint E now original fs token forwarded =
     rbind (outbound_header token forwarded) (\<lambda>header.
     rbind (returned_ttl fs) (\<lambda>ttl.
     rbind (ok_or (protocol HOOK_TOKEN_DELEGATE (bq ''cache_ttl'' @ '' is out of range''))
              (add_secs E now ttl)) (\<lambda>expires_at.
     Inr (original
       \<lparr> dp_delegated_token := Some
           \<lparr> rdt_token = token, rdt_outbound_header = header,
             rdt_audience = (case dp_target_audience original of
                Some a \<Rightarrow> a | None \<Rightarrow> dp_target_name original),
             rdt_scopes = dp_required_permissions original, rdt_expires_at = expires_at \<rparr>,
         dp_delegation_mode := Some (default_mode E (dp_subject original)),
         dp_minted_at := Some now \<rparr>))))"

definition headers_without_token :: HostError where
  "headers_without_token =
     protocol HOOK_TOKEN_DELEGATE
       (''the plugin returned '' @ bq ''forwarded_headers'' @ '' with no ''
        @ bq ''delegated_token'' @ '', and a PPE delegation payload carries headers ''
        @ ''only as the minted token's outbound header'')"

definition write_update ::
  "'o engine \<Rightarrow> json obj \<Rightarrow> 'o DelegationPayload \<Rightarrow> HostError + 'o DelegationPayload" where
  "write_update E fs resolved =
     (case set_value fs ''delegation_update'' of
        None \<Rightarrow> Inr resolved
      | Some update \<Rightarrow>
          rbind (parse_lossless (de_delegation E) (ser_delegation E) HOOK_TOKEN_DELEGATE
                   ''delegation_update'' update)
            (\<lambda>update. Inr (if is_default_delegation update then resolved
                           else resolved\<lparr> dp_delegation_update := Some update \<rparr>)))"

definition delegation_from_worker ::
  "'o engine \<Rightarrow> int \<Rightarrow> 'o DelegationPayload \<Rightarrow> json \<Rightarrow> HostError + 'o DelegationPayload" where
  "delegation_from_worker E now original modified =
     rbind (object_fields HOOK_TOKEN_DELEGATE modified) (\<lambda>fs.
     case unknown_field delegation_known fs of
       Some key \<Rightarrow> Inl (unrepresentable HOOK_TOKEN_DELEGATE key)
     | None \<Rightarrow>
         rbind (returned_token fs) (\<lambda>token.
         rbind (forwarded_headers fs) (\<lambda>forwarded.
         rbind (case token of
                  Some token \<Rightarrow> mint E now original fs token forwarded
                | None \<Rightarrow> if forwarded \<noteq> [] then Inl headers_without_token else Inr original)
           (\<lambda>resolved. write_update E fs resolved))))"

section \<open>The identity payload at the binding boundary\<close>

definition resolved_identity_fields :: "'o IdentityPayload \<Rightarrow> string list" where
  "resolved_identity_fields p =
     (if ip_subject p \<noteq> None then [''subject''] else [])
     @ (if ip_client p \<noteq> None then [''client''] else [])
     @ (if ip_caller_workload p \<noteq> None then [''caller_workload''] else [])
     @ (if ip_delegation p \<noteq> None then [''delegation''] else [])
     @ (if ip_raw_credentials p \<noteq> None then [''raw_credentials''] else [])
     @ (if ip_resolved_at p \<noteq> None then [''resolved_at''] else [])
     @ (if ip_raw_claims p \<noteq> [] then [''raw_claims''] else [])"

text \<open>\<open>to_value\<close> stands for the engine's derived serialization of the payload.\<close>

definition identity_result_value ::
  "('o IdentityPayload \<Rightarrow> 'e + json) \<Rightarrow> 'o IdentityPayload \<Rightarrow> 'e + json" where
  "identity_result_value to_value payload =
     rbind (to_value payload)
       (\<lambda>value. Inr (case value of JObject m \<Rightarrow> JObject (obj_remove ''headers'' m) | v \<Rightarrow> v))"

section \<open>What is kept\<close>

text \<open>\<open>preserves v b\<close>: every set field of \<open>v\<close> is present in \<open>b\<close>, at every
  depth, and arrays have equal lengths.\<close>

function (sequential) preserves :: "json \<Rightarrow> json \<Rightarrow> bool" where
  "preserves (JObject fs) (JObject kept) =
     (\<forall>(k, v) \<in> set fs. is_empty v \<or> (\<exists>w. obj_get kept k = Some w \<and> preserves v w))"
| "preserves (JArray is) (JArray kept) =
     (length is = length kept \<and> (\<forall>(v, w) \<in> set (zip is kept). preserves v w))"
| "preserves _ _ = True"
  by pat_completeness auto
termination
proof (relation "measure (\<lambda>(v, _). size v)", simp)
  fix fs kept :: "json obj" and x k v w
  assume "x \<in> set fs" "(k, v) = x"
  then have "size v < size_list (size_prod (\<lambda>_. 0) size) fs + 1"
    using size_list_estimation' [of x fs "size v" "size_prod (\<lambda>_. 0) size"] by force
  then show "((v, w), JObject fs, JObject kept) \<in> measure (\<lambda>(v, _). size v)" by simp
next
  fix "is" kept :: "json list" and x v w
  assume "x \<in> set (zip is kept)" "(v, w) = x"
  then have "v \<in> set is" by (auto dest: set_zip_leftD)
  then have "size v < size_list size is + 1"
    using size_list_estimation' [of v "is" "size v" size] by simp
  then show "((v, w), JArray is, JArray kept) \<in> measure (\<lambda>(v, _). size v)" by simp
qed

lemma first_dropped_None:
  "first_dropped v b p = None \<longleftrightarrow> preserves v b"
  "dropped_field fs kept p = None \<longleftrightarrow>
     (\<forall>(k, v) \<in> set fs. is_empty v \<or> (\<exists>w. obj_get kept k = Some w \<and> preserves v w))"
  "length is = length kept' \<Longrightarrow>
     dropped_item is kept' i p = None \<longleftrightarrow> (\<forall>(v, w) \<in> set (zip is kept'). preserves v w)"
  by (induction v b p and fs kept p and "is" kept' i p
      rule: first_dropped_dropped_field_dropped_item.induct)
     ((auto simp: Let_def split: option.splits if_splits)[], (auto simp: Let_def split: option.splits if_splits)[],
      (auto simp: Let_def split: option.splits if_splits; metis option.distinct(1))+)

lemma first_dropped_path:
  "first_dropped v b p = Some q \<Longrightarrow> prefix p q"
  "dropped_field fs kept p = Some q \<Longrightarrow> prefix p q"
  "dropped_item is kept' i p = Some q \<Longrightarrow> prefix p q"
  by (induction v b p and fs kept p and "is" kept' i p
      rule: first_dropped_dropped_field_dropped_item.induct)
     (auto simp: Let_def prefix_def split: option.splits if_splits)

lemma first_dropped_Some: "first_dropped v b p = Some q \<Longrightarrow> \<not> preserves v b"
  by (metis first_dropped_None(1) option.distinct(1))

text \<open>A value returned by a plugin is accepted exactly when the engine's type parses it and its
  own serialization keeps every set field, at every depth.\<close>

theorem parse_lossless_iff:
  "parse_lossless de se hook field v = Inr x \<longleftrightarrow>
     de v = Inr x \<and> (\<exists>b. se x = Inr b \<and> preserves v b)"
  using first_dropped_None(1) [of v _ field]
  by (auto simp: parse_lossless_def split: sum.splits option.splits dest: first_dropped_Some)

section \<open>No credential on the public payload\<close>

lemma public_header_excludes:
  assumes "public_header_in table name value src tok"
  shows "to_ascii_lowercase name \<notin> set CREDENTIAL_HEADERS"
    and "src = Some s \<Longrightarrow> \<not> eq_ignore_ascii_case name s"
    and "tok = Some t \<Longrightarrow> \<not> sublist t name \<and> \<not> sublist t value"
  using assms
  by (auto simp: public_header_in_def Let_def str_contains_iff_sublist split: if_splits)

lemma no_public_header [simp]: "\<not> is_public_header name value src tok"
  by (simp add: is_public_header_def public_header_in_def PUBLIC_HEADER_VALIDATORS_def Let_def)

lemma public_headers_empty [simp]: "public_headers p = []"
  by (simp add: public_headers_def)

text \<open>The payload a worker receives is the same whatever credential the request carries: the raw
  token, the header map and the source header of an identity payload, and the bearer token of a
  delegation payload, do not influence it.\<close>

theorem public_payload_independent_of_credential:
  "identity_to_worker E (p\<lparr> ip_raw_token := t, ip_headers := hs, ip_source_header := sh \<rparr>)
     = identity_to_worker E p \<and>
   delegation_to_worker E (d\<lparr> dp_bearer_token := t \<rparr>) = delegation_to_worker E d"
  by (cases "ser_source E (ip_source p)")
     (simp_all add: identity_to_worker_def delegation_to_worker_def Let_def)

text \<open>An exchange the Python model cannot describe (an actor, or a subject other than the user)
  is refused before anything reaches the worker; every other one is sent with its target and
  permissions when the engine's fields serialize.\<close>

theorem delegation_to_worker_sends:
  "case delegation_to_worker E d of
     Inl _ \<Rightarrow> dp_actor_role d \<noteq> None \<or> dp_actor_token d \<noteq> [] \<or> dp_subject d \<noteq> user_subject E \<or>
        (\<exists>e v. ser E v = Inl e)
   | Inr j \<Rightarrow> dp_actor_role d = None \<and> dp_actor_token d = [] \<and> dp_subject d = user_subject E \<and>
        jget j ''target_name'' = Some (JString (dp_target_name d)) \<and>
        jget j ''required_permissions''
          = Some (JArray (map JString (dp_required_permissions d))) \<and>
        jget j ''target_audience'' = map_option JString (dp_target_audience d) \<and>
        jget j ''bearer_token'' = None"
  by (auto simp: delegation_to_worker_def to_json_def Let_def split: option.splits sum.splits)

section \<open>What comes back\<close>

lemma unknown_field_None:
  "unknown_field known fs = None \<longleftrightarrow> (\<forall>(k, v) \<in> set fs. k \<in> set known \<or> is_empty v)"
  by (auto simp: unknown_field_def find_None_iff)

lemma outbound_header_Inr:
  "outbound_header token fwd = Inr h \<longleftrightarrow>
     fwd = [] \<and> h = ''Authorization'' \<or>
     (\<exists>v. fwd = [(h, JString v)] \<and> (v = token \<or> strip_bearer v = token))"
  by (auto simp: outbound_header_def DEFAULT_OUTBOUND_HEADER_def Let_def
      split: list.splits option.splits if_splits)

lemma returned_token_Some:
  "returned_token fs = Inr (Some t) \<longleftrightarrow>
     obj_get fs ''delegated_token'' = Some (JString t) \<and> trim t \<noteq> []"
  by (auto simp: returned_token_def split: option.splits json.splits if_splits)

lemma returned_ttl_pos: "returned_ttl fs = Inr ttl \<Longrightarrow> 0 < ttl"
  by (auto simp: returned_ttl_def DEFAULT_DELEGATED_TOKEN_TTL_SECS_def
      split: option.splits if_splits)

text \<open>\<open>same_delegation_inputs\<close>: all fields but the four outputs of a delegation agree.\<close>

definition same_delegation_inputs :: "'o DelegationPayload \<Rightarrow> 'o DelegationPayload \<Rightarrow> bool" where
  "same_delegation_inputs p q \<longleftrightarrow>
     dp_target_name q = dp_target_name p \<and> dp_target_type q = dp_target_type p \<and>
     dp_target_audience q = dp_target_audience p \<and>
     dp_required_permissions q = dp_required_permissions p \<and>
     dp_trust_domain q = dp_trust_domain p \<and> dp_auth_enforced_by q = dp_auth_enforced_by p \<and>
     dp_route_attenuation q = dp_route_attenuation p \<and> dp_actor_role q = dp_actor_role p \<and>
     dp_actor_token q = dp_actor_token p \<and> dp_subject q = dp_subject p \<and>
     dp_bearer_token q = dp_bearer_token p"

lemma mint_Inr:
  assumes "mint E now p fs token fwd = Inr r" "time_law E"
  shows "same_delegation_inputs p r \<and> dp_delegation_update r = dp_delegation_update p \<and>
    dp_minted_at r = Some now \<and>
    (\<exists>t. dp_delegated_token r = Some t \<and> rdt_token t = token \<and>
       rdt_audience t = (case dp_target_audience p of Some a \<Rightarrow> a | None \<Rightarrow> dp_target_name p) \<and>
       rdt_scopes t = dp_required_permissions p \<and> now < rdt_expires_at t \<and>
       outbound_header token fwd = Inr (rdt_outbound_header t))"
  using assms by (fastforce simp: mint_def same_delegation_inputs_def time_law_def dest!: returned_ttl_pos)

lemma write_update_Inr:
  assumes "write_update E fs q = Inr r"
  shows "same_delegation_inputs q r \<and> dp_delegated_token r = dp_delegated_token q \<and>
    dp_minted_at r = dp_minted_at q \<and> dp_delegation_mode r = dp_delegation_mode q"
proof (cases "set_value fs ''delegation_update''")
  case None
  with assms show ?thesis by (simp add: write_update_def same_delegation_inputs_def)
next
  case (Some v)
  with assms obtain u where "r = (if is_default_delegation u then q
      else q\<lparr> dp_delegation_update := Some u \<rparr>)"
    by (auto simp: write_update_def)
  then show ?thesis by (cases "is_default_delegation u") (simp_all add: same_delegation_inputs_def)
qed

lemma delegation_from_worker_Inr:
  assumes "delegation_from_worker E now p m = Inr r"
  obtains fs token fwd q where "m = JObject fs" "unknown_field delegation_known fs = None"
    "returned_token fs = Inr token" "forwarded_headers fs = Inr fwd" "write_update E fs q = Inr r"
    "case token of Some t \<Rightarrow> mint E now p fs t fwd = Inr q | None \<Rightarrow> fwd = [] \<and> q = p"
proof -
  from assms obtain fs token fwd where *: "m = JObject fs"
    "unknown_field delegation_known fs = None" "returned_token fs = Inr token"
    "forwarded_headers fs = Inr fwd"
    and rest: "rbind (case token of
                  Some token \<Rightarrow> mint E now p fs token fwd
                | None \<Rightarrow> if fwd \<noteq> [] then Inl headers_without_token else Inr p)
           (\<lambda>resolved. write_update E fs resolved) = Inr r"
    unfolding delegation_from_worker_def object_fields_def
    by (cases "unknown_field delegation_known (the (as_object m))") auto
  from rest obtain q where "write_update E fs q = Inr r"
    "case token of Some t \<Rightarrow> mint E now p fs t fwd = Inr q | None \<Rightarrow> fwd = [] \<and> q = p"
    by (cases token) (auto split: if_splits)
  with * show thesis by (rule that)
qed

text \<open>C36: A delegation result that is accepted keeps every input field of the dispatched payload.
  Either no token came back and the token, mode and mint time are untouched, or the returned
  string, which is not blank, became the minted token: for the payload's audience (or target
  name) and permissions, expiring after now, under the default header or under the single
  forwarded header that carries it. No set field outside the known names was dropped.\<close>

theorem delegation_from_worker_correct:
  assumes "time_law E" "delegation_from_worker E now p m = Inr r"
  shows "same_delegation_inputs p r \<and>
    (\<forall>k v. jget m k = Some v \<longrightarrow> k \<in> set delegation_known \<or> is_empty v) \<and>
    (case jget m ''delegated_token'' of
       Some (JString token) \<Rightarrow> trim token \<noteq> [] \<and> dp_minted_at r = Some now \<and>
         (\<exists>t. dp_delegated_token r = Some t \<and> rdt_token t = token \<and>
            rdt_audience t = (case dp_target_audience p of Some a \<Rightarrow> a | None \<Rightarrow> dp_target_name p) \<and>
            rdt_scopes t = dp_required_permissions p \<and> now < rdt_expires_at t \<and>
            (rdt_outbound_header t = ''Authorization'' \<or>
             (\<exists>v. jget m ''forwarded_headers'' = Some (JObject [(rdt_outbound_header t, JString v)]) \<and>
                (v = token \<or> strip_bearer v = token))))
     | _ \<Rightarrow> dp_delegated_token r = dp_delegated_token p \<and> dp_minted_at r = dp_minted_at p \<and>
          dp_delegation_mode r = dp_delegation_mode p)"
proof -
  from assms(2) obtain fs token fwd q where *: "m = JObject fs"
    "unknown_field delegation_known fs = None" "returned_token fs = Inr token"
    "forwarded_headers fs = Inr fwd" "write_update E fs q = Inr r"
    "case token of Some t \<Rightarrow> mint E now p fs t fwd = Inr q | None \<Rightarrow> fwd = [] \<and> q = p"
    by (rule delegation_from_worker_Inr)
  have known: "\<forall>k v. jget m k = Some v \<longrightarrow> k \<in> set delegation_known \<or> is_empty v"
    using *(1,2) by (auto simp: unknown_field_None dest!: obj_get_in_set)
  from *(5) have r: "same_delegation_inputs q r" "dp_delegated_token r = dp_delegated_token q"
    "dp_minted_at r = dp_minted_at q" "dp_delegation_mode r = dp_delegation_mode q"
    by (simp_all add: write_update_Inr)
  show ?thesis
  proof (cases token)
    case None
    with *(1,3,6) known r show ?thesis
      by (auto simp: returned_token_def split: option.splits json.splits if_splits)
  next
    case (Some t)
    with *(6) have m: "mint E now p fs t fwd = Inr q" by simp
    have t: "obj_get fs ''delegated_token'' = Some (JString t)" "trim t \<noteq> []"
      using *(3) Some by (auto simp: returned_token_Some)
    have fwd: "fwd = [] \<or> obj_get fs ''forwarded_headers'' = Some (JObject fwd)"
      using *(4) by (auto simp: forwarded_headers_def split: option.splits json.splits)
    have same: "same_delegation_inputs p r"
      using mint_Inr [OF m assms(1)] r(1) by (simp add: same_delegation_inputs_def)
    from mint_Inr [OF m assms(1)] r known t fwd *(1) same show ?thesis
      by (auto simp: outbound_header_Inr)
  qed
qed

definition sample_delegation :: "json DelegationPayload" where
  "sample_delegation =
     \<lparr> dp_target_name = ''workday'', dp_target_type = JString ''tool'', dp_target_audience = Some ''hr'',
       dp_required_permissions = [''read''], dp_trust_domain = None,
       dp_auth_enforced_by = JString ''caller'', dp_route_attenuation = None, dp_actor_role = None,
       dp_actor_token = [], dp_subject = JString ''user'', dp_bearer_token = ''t'',
       dp_delegated_token = None, dp_delegation_mode = None, dp_minted_at = None,
       dp_delegation_update = None \<rparr>"

definition sample_reply :: json where
  "sample_reply =
     JObject [(''delegated_token'', JString ''abc''), (''cache_ttl'', jnat 30),
       (''forwarded_headers'', JObject [(''X-Token'', JString ''abc'')])]"

theorem delegation_from_worker_correct_witness:
  "\<exists>r t. delegation_from_worker sample_engine 0 sample_delegation sample_reply = Inr r \<and>
     same_delegation_inputs sample_delegation r \<and> dp_delegated_token r = Some t \<and>
     rdt_token t = ''abc'' \<and> rdt_audience t = ''hr'' \<and> 0 < rdt_expires_at t"
proof -
  have "trim ''abc'' = ''abc''"
    by (simp add: trim_visible visible_def)
  then have run: "\<not> isl (delegation_from_worker sample_engine 0 sample_delegation sample_reply)"
    by (simp add: delegation_from_worker_def sample_reply_def object_fields_def unknown_field_def
        delegation_known_def returned_token_def forwarded_headers_def mint_def outbound_header_def
        returned_ttl_def set_value_def is_null_def write_update_def sample_engine_def Let_def)
  then obtain r where r: "delegation_from_worker sample_engine 0 sample_delegation sample_reply = Inr r"
    by (cases "delegation_from_worker sample_engine 0 sample_delegation sample_reply") auto
  have "jget sample_reply ''delegated_token'' = Some (JString ''abc'')"
    by (simp add: sample_reply_def)
  with delegation_from_worker_correct [OF sample_engine_laws(4) r] r show ?thesis
    by (auto simp: sample_delegation_def)
qed

text \<open>\<open>identity_kept\<close>: everything but the subject, the delegation and the claims agrees.\<close>

definition identity_kept :: "'o IdentityPayload \<Rightarrow> 'o IdentityPayload \<Rightarrow> bool" where
  "identity_kept p q \<longleftrightarrow>
     ip_raw_token q = ip_raw_token p \<and> ip_source q = ip_source p \<and>
     ip_source_header q = ip_source_header p \<and> ip_headers q = ip_headers p \<and>
     ip_client_host q = ip_client_host p \<and> ip_client_port q = ip_client_port p \<and>
     ip_client q = ip_client p \<and> ip_caller_workload q = ip_caller_workload p \<and>
     ip_raw_credentials q = ip_raw_credentials p \<and> ip_resolved_at q = ip_resolved_at p"

lemma identity_kept_trans: "identity_kept p q \<Longrightarrow> identity_kept q r \<Longrightarrow> identity_kept p r"
  by (simp add: identity_kept_def)

text \<open>What a plugin returned under a name, null counting as nothing.\<close>

definition plugin_gave :: "json \<Rightarrow> string \<Rightarrow> json option" where
  "plugin_gave m key = (case jget m key of Some JNull \<Rightarrow> None | r \<Rightarrow> r)"

lemma plugin_gave_set_value: "plugin_gave (JObject fs) key = set_value fs key"
  by (auto simp: plugin_gave_def set_value_def is_null_def split: option.splits json.splits)

text \<open>\<open>read_as de se field v x\<close>: the returned value \<open>v\<close> reads as \<open>x\<close>, and writing \<open>x\<close> back loses
  no set part of \<open>v\<close>.\<close>

definition read_as ::
  "(json \<Rightarrow> string + 'a) \<Rightarrow> ('a \<Rightarrow> string + json) \<Rightarrow> string \<Rightarrow> json \<Rightarrow> 'a \<Rightarrow> bool" where
  "read_as de se field v x \<longleftrightarrow> de v = Inr x \<and>
     (case se x of Inl _ \<Rightarrow> False | Inr back \<Rightarrow> first_dropped v back field = None)"

lemma parse_lossless_read: "parse_lossless de se h field v = Inr x \<longleftrightarrow> read_as de se field v x"
  by (auto simp: parse_lossless_def read_as_def split: sum.splits option.splits)

definition subject_written :: "'o engine \<Rightarrow> json \<Rightarrow> 'o IdentityPayload \<Rightarrow> 'o IdentityPayload \<Rightarrow> bool" where
  "subject_written E m p r \<longleftrightarrow>
     (case plugin_gave m ''subject'' of
        None \<Rightarrow> ip_subject r = ip_subject p
      | Some v \<Rightarrow> (case ip_subject r of None \<Rightarrow> False
          | Some s \<Rightarrow> read_as (de_subject E) (ser E) ''subject'' (python_subject v) s))"

definition delegation_written :: "'o engine \<Rightarrow> json \<Rightarrow> 'o IdentityPayload \<Rightarrow> 'o IdentityPayload \<Rightarrow> bool" where
  "delegation_written E m p r \<longleftrightarrow>
     (case plugin_gave m ''delegation'' of
        None \<Rightarrow> ip_delegation r = ip_delegation p
      | Some v \<Rightarrow> (case ip_delegation r of None \<Rightarrow> False
          | Some d \<Rightarrow> read_as (de_delegation E) (ser_delegation E) ''delegation'' v d))"

definition claims_written :: "json \<Rightarrow> 'o IdentityPayload \<Rightarrow> 'o IdentityPayload \<Rightarrow> bool" where
  "claims_written m p r \<longleftrightarrow>
     (case plugin_gave m ''raw_claims'' of
        None \<Rightarrow> ip_raw_claims r = ip_raw_claims p
      | Some (JObject claims) \<Rightarrow> ip_raw_claims r = obj_extend (ip_raw_claims p) claims
      | Some _ \<Rightarrow> False)"

definition rejected_with :: "json \<Rightarrow> PluginViolation \<Rightarrow> bool" where
  "rejected_with m v \<longleftrightarrow> pv_code v = ''auth.rejected'' \<and>
     pv_reason v = (case plugin_gave m ''reject_reason'' of
        Some (JString (c # cs)) \<Rightarrow> c # cs | _ \<Rightarrow> ''the identity plugin rejected the credential'') \<and>
     (case plugin_gave m ''reject_status'' of
        None \<Rightarrow> pv_proto_error_code v = None \<and> pv_details v = []
      | Some st \<Rightarrow> (case as_i64 st of None \<Rightarrow> False
          | Some n \<Rightarrow> pv_proto_error_code v = Some n \<and> pv_details v = [(''reject_status'', jint n)]))"

lemma write_subject_written:
  "write_subject E fs p = Inr r \<Longrightarrow> subject_written E (JObject fs) p r \<and> identity_kept p r \<and>
     ip_raw_claims r = ip_raw_claims p \<and> ip_delegation r = ip_delegation p"
  by (auto simp: write_subject_def subject_written_def identity_kept_def plugin_gave_set_value parse_lossless_read
      split: option.splits)

lemma write_identity_delegation_written:
  "write_identity_delegation E fs p = Inr r \<Longrightarrow> delegation_written E (JObject fs) p r \<and> identity_kept p r \<and>
     ip_raw_claims r = ip_raw_claims p \<and> ip_subject r = ip_subject p"
  by (auto simp: write_identity_delegation_def delegation_written_def identity_kept_def plugin_gave_set_value
      parse_lossless_read split: option.splits)

lemma write_claims_written:
  "write_claims fs p = Inr r \<Longrightarrow> claims_written (JObject fs) p r \<and> identity_kept p r \<and>
     ip_subject r = ip_subject p \<and> ip_delegation r = ip_delegation p"
  by (auto simp: write_claims_def claims_written_def identity_kept_def plugin_gave_def
      split: option.splits json.splits)

lemma rejection_with:
  assumes "rejection fs = Inr v"
  shows "rejected_with (JObject fs) v"
proof -
  from assms obtain reason where reason: "reject_reason fs = Inr reason"
    and v: "(let violation = new_violation ''auth.rejected'' reason in
       case set_value fs ''reject_status'' of
         None \<Rightarrow> Inr violation
       | Some status \<Rightarrow>
           rbind (ok_or (protocol HOOK_IDENTITY_RESOLVE
                     (bq ''reject_status'' @ '' must be an integer'')) (as_i64 status))
             (\<lambda>status. Inr (violation
                \<lparr> pv_proto_error_code := Some status,
                  pv_details := obj_insert ''reject_status'' (jint status)
                                  (pv_details violation) \<rparr>))) = Inr v"
    by (auto simp: rejection_def)
  from reason have "reason = (case plugin_gave (JObject fs) ''reject_reason'' of
      Some (JString (c # cs)) \<Rightarrow> c # cs | _ \<Rightarrow> ''the identity plugin rejected the credential'')"
    by (auto simp: reject_reason_def plugin_gave_def split: option.splits json.splits list.splits)
  with v show ?thesis
    by (auto simp: rejected_with_def new_violation_def Let_def plugin_gave_set_value split: option.splits)
qed

lemma written_frame:
  "subject_written E m p q \<Longrightarrow> ip_subject r = ip_subject q \<Longrightarrow> subject_written E m p r"
  "delegation_written E m p' q \<Longrightarrow> ip_delegation p' = ip_delegation p \<Longrightarrow> ip_delegation r = ip_delegation q
     \<Longrightarrow> delegation_written E m p r"
  "claims_written m p' r \<Longrightarrow> ip_raw_claims p' = ip_raw_claims p \<Longrightarrow> claims_written m p r"
  by (auto simp: subject_written_def delegation_written_def claims_written_def
      split: option.splits json.splits)

text \<open>C37: An identity result that is accepted is a deny exactly when the plugin set
  \<^verbatim>\<open>rejected\<close>, with the plugin's own reason and status, or a fixed reason when it gave
  none. Otherwise it is the dispatched payload in which a returned subject and a returned
  delegation have been written without loss and returned claims extend the payload's own; what the
  plugin did not return is as dispatched, and so are all credential and request fields. No set
  field outside the known names was dropped.\<close>

theorem identity_from_worker_correct:
  assumes "identity_from_worker E p m = Inr out"
  shows "(\<forall>k v. jget m k = Some v \<longrightarrow> k \<in> set identity_known \<or> is_empty v) \<and>
    (case out of
       Rejected v \<Rightarrow> jget m ''rejected'' = Some (JBool True) \<and> rejected_with m v
     | Resolved r \<Rightarrow> jget m ''rejected'' \<in> {None, Some JNull, Some (JBool False)} \<and>
         identity_kept p r \<and> subject_written E m p r \<and> delegation_written E m p r \<and> claims_written m p r)"
proof -
  from assms obtain fs where m: "m = JObject fs" and known: "unknown_field identity_known fs = None"
    by (cases "unknown_field identity_known (the (as_object m))")
       (auto simp: identity_from_worker_def object_fields_def)
  have "\<forall>k v. jget m k = Some v \<longrightarrow> k \<in> set identity_known \<or> is_empty v"
    using m known by (auto simp: unknown_field_None dest!: obj_get_in_set)
  moreover have ?thesis if all: "\<forall>k v. jget m k = Some v \<longrightarrow> k \<in> set identity_known \<or> is_empty v"
  proof (cases "obj_get fs ''rejected'' = Some (JBool True)")
    case True
    with assms m known obtain v where "rejection fs = Inr v" "out = Rejected v"
      by (auto simp: identity_from_worker_def object_fields_def)
    with True m all rejection_with show ?thesis by simp
  next
    case False
    with assms m known obtain a b c where
      rej: "obj_get fs ''rejected'' \<in> {None, Some JNull, Some (JBool False)}" and
      steps: "write_subject E fs p = Inr a" "write_identity_delegation E fs a = Inr b"
        "write_claims fs b = Inr c" and out: "out = Resolved c"
      by (auto simp: identity_from_worker_def object_fields_def split: if_splits)
    note w = write_subject_written [OF steps(1)] write_identity_delegation_written [OF steps(2)]
      write_claims_written [OF steps(3)]
    then have "identity_kept p c" using identity_kept_trans by blast
    moreover have "subject_written E m p c" "delegation_written E m p c" "claims_written m p c"
      using w written_frame unfolding m by metis+
    ultimately show ?thesis using rej out m all by simp
  qed
  ultimately show ?thesis by blast
qed

definition sample_identity :: "json IdentityPayload" where
  "sample_identity =
     \<lparr> ip_raw_token = ''s3cret'', ip_source = OtherSource (JString ''bearer''),
       ip_source_header = None, ip_headers = [(''Authorization'', ''Bearer s3cret'')],
       ip_client_host = None, ip_client_port = None, ip_subject = None, ip_client = None,
       ip_caller_workload = None, ip_delegation = None, ip_raw_credentials = None,
       ip_resolved_at = None, ip_raw_claims = [(''iss'', JString ''a'')] \<rparr>"

theorem identity_from_worker_correct_witness:
  "\<exists>r. identity_from_worker sample_engine sample_identity
       (JObject [(''subject'', JObject [(''type'', JString ''user'')]),
          (''raw_claims'', JObject [(''sub'', JString ''b'')])]) = Inr (Resolved r) \<and>
     identity_kept sample_identity r \<and> ip_subject r \<noteq> None \<and>
     ip_raw_claims r = [(''iss'', JString ''a''), (''sub'', JString ''b'')]"
proof -
  let ?m = "JObject [(''subject'', JObject [(''type'', JString ''user'')]),
          (''raw_claims'', JObject [(''sub'', JString ''b'')])]"
  have "case identity_from_worker sample_engine sample_identity ?m of
      Inr (Resolved r) \<Rightarrow> True | _ \<Rightarrow> False"
    by code_simp
  then obtain r where r: "identity_from_worker sample_engine sample_identity ?m = Inr (Resolved r)"
    by (auto split: sum.splits IdentityOutcome.splits)
  from identity_from_worker_correct [OF this] r show ?thesis
    by (auto simp: subject_written_def claims_written_def plugin_gave_def sample_identity_def obj_extend_def
        split: option.splits)
qed

section \<open>The binding boundary\<close>

lemma resolved_identity_fields_Nil:
  "resolved_identity_fields p = [] \<longleftrightarrow>
     ip_subject p = None \<and> ip_client p = None \<and> ip_caller_workload p = None \<and>
     ip_delegation p = None \<and> ip_raw_credentials p = None \<and> ip_resolved_at p = None \<and>
     ip_raw_claims p = []"
  by (simp add: resolved_identity_fields_def)

text \<open>The identity result a binding returns never has a headers entry, and every other entry is
  the engine's own serialization of the payload.\<close>

theorem identity_result_hides_headers:
  assumes "to_value p = Inr (JObject m)" "obj_ok m"
  shows "\<exists>m'. identity_result_value to_value p = Inr (JObject m') \<and>
           obj_get m' ''headers'' = None \<and> (\<forall>k. k = ''headers'' \<or> obj_get m' k = obj_get m k)"
  using assms by (auto simp: identity_result_value_def)

theorem identity_result_hides_headers_witness:
  "\<exists>m'. identity_result_value (\<lambda>p :: json IdentityPayload. Inr (JObject
        [(''headers'', str_obj (ip_headers p)), (''source'', JString ''bearer'')]) :: string + json)
        sample_identity = Inr (JObject m') \<and>
     obj_get m' ''headers'' = None \<and>
     (\<forall>k. k = ''headers'' \<or> obj_get m' k =
        obj_get [(''headers'', str_obj (ip_headers sample_identity)), (''source'', JString ''bearer'')] k)"
  by (rule identity_result_hides_headers) (simp_all add: obj_ok_def)

end
