(* ===== verification/Extensions_Wire.thy ===== *)
theory Extensions_Wire
  imports Credential_Payloads
begin

text \<open>
  The extensions on the wire (\<^verbatim>\<open>extensions.rs\<close>): serializing the capability-filtered
  view a plugin may see into its task, and rebuilding the owned extensions from what the worker
  returned. A returned slot is honoured only under the write token the executor issued, and then
  only for the fields the token covers; the custom slot has no token and is taken as it comes.
\<close>

section \<open>Headers\<close>

definition is_sensitive :: "string \<Rightarrow> bool" where
  "is_sensitive name \<longleftrightarrow> list_ex (\<lambda>s. eq_ignore_ascii_case name s) CREDENTIAL_HEADERS"

definition public_http_headers :: "(string \<times> string) list \<Rightarrow> (string \<times> string) list" where
  "public_http_headers headers =
     filter (\<lambda>(name, value). is_public_header name value None None) headers"

definition strip_sensitive :: "(string \<times> string) list \<Rightarrow> (string \<times> string) list" where
  "strip_sensitive headers = filter (\<lambda>(name, _). \<not> is_sensitive name) headers"

definition sanitize_http :: "HttpExtension \<Rightarrow> HttpExtension" where
  "sanitize_http http =
     \<lparr> request_headers = public_http_headers (request_headers http),
       secret_headers = secret_headers http,
       response_headers = public_http_headers (response_headers http),
       http_status = http_status http, http_method = http_method http,
       http_path = http_path http, http_host = http_host http, http_scheme = http_scheme http \<rparr>"

definition returned_http :: "HttpExtension \<Rightarrow> HttpExtension option \<Rightarrow> HttpExtension" where
  "returned_http returned inbound =
     \<lparr> request_headers = strip_sensitive (request_headers returned),
       secret_headers = (case inbound of Some h \<Rightarrow> secret_headers h | None \<Rightarrow> []),
       response_headers = strip_sensitive (response_headers returned),
       http_status = Option.bind inbound http_status,
       http_method = Option.bind inbound http_method,
       http_path = Option.bind inbound http_path,
       http_host = Option.bind inbound http_host,
       http_scheme = Option.bind inbound http_scheme \<rparr>"

section \<open>Outbound\<close>

definition EXTENSIONS_FIELD :: string where
  "EXTENSIONS_FIELD = ''extensions''"

definition MODIFIED_EXTENSIONS_FIELD :: string where
  "MODIFIED_EXTENSIONS_FIELD = ''modified_extensions''"

text \<open>The closure \<^verbatim>\<open>put\<close> under the guard of its slot.\<close>

definition put :: "string \<Rightarrow> (string + json) option \<Rightarrow> json obj \<Rightarrow> HostError + json obj" where
  "put key value m =
     (case value of
        None \<Rightarrow> Inr m
      | Some (Inl e) \<Rightarrow>
          Inl (Protocol (''could not serialize the '' @ sq key @ '' extension for the worker: '' @ e))
      | Some (Inr v) \<Rightarrow> Inr (obj_insert key v m))"

fun put_all :: "(string \<times> (string + json) option) list \<Rightarrow> json obj \<Rightarrow> HostError + json obj" where
  "put_all [] m = Inr m"
| "put_all ((key, value) # slots) m = rbind (put key value m) (put_all slots)"

definition wire_slots :: "'o engine \<Rightarrow> 'o Extensions \<Rightarrow> (string \<times> (string + json) option) list" where
  "wire_slots E x =
     [(''request'', map_option (ser E \<circ> snd) (x_request x)),
      (''agent'', map_option (ser E \<circ> snd) (x_agent x)),
      (''http'', map_option (ser_http E \<circ> sanitize_http \<circ> snd) (x_http x)),
      (''security'', map_option (ser_security E \<circ> snd) (x_security x)),
      (''delegation'', map_option (ser_delegation E \<circ> snd) (x_delegation x)),
      (''mcp'', map_option (ser E \<circ> snd) (x_mcp x)),
      (''completion'', map_option (ser E \<circ> snd) (x_completion x)),
      (''provenance'', map_option (ser E \<circ> snd) (x_provenance x)),
      (''llm'', map_option (ser E \<circ> snd) (x_llm x)),
      (''framework'', map_option (ser E \<circ> snd) (x_framework x)),
      (''meta'', map_option (ser E \<circ> snd) (x_meta x)),
      (''custom'', map_option (\<lambda>c. Inr (JObject (snd c))) (x_custom x))]"

definition to_wire :: "'o engine \<Rightarrow> 'o Extensions \<Rightarrow> HostError + json" where
  "to_wire E x = rbind (put_all (wire_slots E x) []) (\<lambda>m. Inr (JObject m))"

definition attach_extensions :: "'o engine \<Rightarrow> json \<Rightarrow> 'o Extensions \<Rightarrow> HostError + json" where
  "attach_extensions E task x =
     rbind (to_wire E x) (\<lambda>wire.
       if (case as_object wire of None \<Rightarrow> True | Some m \<Rightarrow> m = []) then Inr task
       else rbind (ok_or (Protocol ''task must be a JSON object to carry extensions'') (as_object task))
              (\<lambda>obj. Inr (JObject (obj_insert EXTENSIONS_FIELD wire obj))))"

section \<open>Inbound\<close>

definition slot :: "(json \<Rightarrow> string + 'a) \<Rightarrow> json obj \<Rightarrow> string \<Rightarrow> HostError + 'a option" where
  "slot de obj key =
     (case set_value obj key of
        None \<Rightarrow> Inr None
      | Some value \<Rightarrow>
          case de value of
            Inr v \<Rightarrow> Inr (Some v)
          | Inl e \<Rightarrow> Inl (Protocol (''could not deserialize the '' @ sq key
                            @ '' extension returned by the worker: '' @ e)))"

type_synonym 'o merge = "'o OwnedExtensions \<times> bool"

definition merge_http :: "'o engine \<Rightarrow> 'o Extensions \<Rightarrow> json obj \<Rightarrow> 'o merge \<Rightarrow> HostError + 'o merge" where
  "merge_http E inbound obj acc =
     rbind (slot (de_http E) obj ''http'') (\<lambda>v. Inr
       (case v of
          Some http \<Rightarrow>
            if http_write_token inbound
            then ((fst acc)\<lparr> o_http := Some (returned_http http (map_option snd (x_http inbound))) \<rparr>, True)
            else acc
        | None \<Rightarrow> acc))"

definition merge_security :: "'o engine \<Rightarrow> 'o Extensions \<Rightarrow> json obj \<Rightarrow> 'o merge \<Rightarrow> HostError + 'o merge" where
  "merge_security E inbound obj acc =
     rbind (slot (de_security E) obj ''security'') (\<lambda>v. Inr
       (case v of
          Some security \<Rightarrow>
            if labels_write_token inbound
            then let merged = (case x_security inbound of
                       Some s \<Rightarrow> snd s | None \<Rightarrow> default_security E)
                 in ((fst acc)\<lparr> o_security := Some (fold (add_label E) (labels security) merged) \<rparr>, True)
            else acc
        | None \<Rightarrow> acc))"

definition merge_delegation :: "'o engine \<Rightarrow> 'o Extensions \<Rightarrow> json obj \<Rightarrow> 'o merge \<Rightarrow> HostError + 'o merge" where
  "merge_delegation E inbound obj acc =
     rbind (slot (de_delegation E) obj ''delegation'') (\<lambda>v. Inr
       (case v of
          Some delegation \<Rightarrow>
            if delegation_write_token inbound
            then let inbound_chain = (case x_delegation inbound of
                       Some d \<Rightarrow> chain (snd d) | None \<Rightarrow> [])
                 in if chain_extends E inbound_chain (chain delegation)
                    then ((fst acc)\<lparr> o_delegation := Some delegation \<rparr>, True)
                    else acc
            else acc
        | None \<Rightarrow> acc))"

definition merge_custom :: "'o engine \<Rightarrow> json obj \<Rightarrow> 'o merge \<Rightarrow> HostError + 'o merge" where
  "merge_custom E obj acc =
     rbind (slot (de_custom E) obj ''custom'') (\<lambda>v. Inr
       (case v of Some custom \<Rightarrow> ((fst acc)\<lparr> o_custom := Some custom \<rparr>, True) | None \<Rightarrow> acc))"

definition owned_from_returned_slot ::
  "'o engine \<Rightarrow> json \<Rightarrow> 'o Extensions \<Rightarrow> HostError + 'o OwnedExtensions option" where
  "owned_from_returned_slot E field inbound =
     (if is_null field then Inr None
      else rbind (ok_or (Protocol (''the worker returned a '' @ sq MODIFIED_EXTENSIONS_FIELD
                    @ '' field that is not a JSON object'')) (as_object field)) (\<lambda>obj.
        rbind (merge_http E inbound obj (cow_copy E inbound, False)) (\<lambda>acc.
        rbind (merge_security E inbound obj acc) (\<lambda>acc.
        rbind (merge_delegation E inbound obj acc) (\<lambda>acc.
        rbind (merge_custom E obj acc) (\<lambda>(owned, applied).
          Inr (if applied then Some owned else None)))))))"

definition parse_returned_extensions ::
  "'o engine \<Rightarrow> json \<Rightarrow> 'o Extensions \<Rightarrow> HostError + 'o OwnedExtensions option" where
  "parse_returned_extensions E response inbound =
     (case jget response MODIFIED_EXTENSIONS_FIELD of
        None \<Rightarrow> Inr None
      | Some field \<Rightarrow> owned_from_returned_slot E field inbound)"

section \<open>What a plugin sees\<close>

lemma public_http_headers_empty [simp]: "public_http_headers hs = []"
  by (simp add: public_http_headers_def)

lemma put_Inr: "put key v m = Inr m' \<Longrightarrow> m' = m \<or> (\<exists>j. m' = obj_insert key j m)"
  by (auto simp: put_def split: option.splits sum.splits)

lemma put_all_keys: "put_all slots m = Inr m' \<Longrightarrow> obj_keys m' \<subseteq> fst ` set slots \<union> obj_keys m"
proof (induction slots arbitrary: m)
  case (Cons s slots)
  obtain key v where s: "s = (key, v)" by fastforce
  from Cons.prems s obtain m1 where "put key v m = Inr m1" "put_all slots m1 = Inr m'" by auto
  with Cons.IH [of m1] put_Inr [of key v m m1] s show ?case by auto
qed simp

lemma wire_keys: "to_wire E x = Inr (JObject m) \<Longrightarrow> obj_keys m \<subseteq>
    {''request'', ''agent'', ''http'', ''security'', ''delegation'', ''mcp'', ''completion'',
     ''provenance'', ''llm'', ''framework'', ''meta'', ''custom''}"
  using put_all_keys [of "wire_slots E x" "[]" m]
  by (simp add: to_wire_def wire_slots_def obj_keys_def)

lemma to_wire_object: "to_wire E x = Inr w \<Longrightarrow> \<exists>m. w = JObject m"
  by (auto simp: to_wire_def)

text \<open>Attaching the extensions changes at most the task's extensions entry, and what it writes
  there does not depend on the raw credentials of the request nor on any raw header value: two
  views that differ only in those produce the same task.\<close>

theorem attach_extensions_leaks_no_credential:
  "attach_extensions E task (x\<lparr> x_raw_credentials := creds,
      x_http := map_option (\<lambda>(a, h). (a, h\<lparr> request_headers := hs, response_headers := hs' \<rparr>)) (x_http x) \<rparr>)
     = attach_extensions E task x"
proof -
  have "map_option (ser_http E \<circ> sanitize_http \<circ> snd)
          (map_option (\<lambda>(a, h). (a, h\<lparr> request_headers := hs, response_headers := hs' \<rparr>)) (x_http x))
      = map_option (ser_http E \<circ> sanitize_http \<circ> snd) (x_http x)"
    by (cases "x_http x") (simp_all add: sanitize_http_def case_prod_beta)
  then show ?thesis
    by (simp add: attach_extensions_def to_wire_def wire_slots_def)
qed

lemma attach_extensions_Inr:
  assumes "attach_extensions E (JObject t) x = Inr r"
  obtains "r = JObject t" | w where "r = JObject (obj_insert EXTENSIONS_FIELD w t)"
  using assms by (auto simp: attach_extensions_def split: option.splits if_splits)

section \<open>What a plugin may change\<close>

lemma is_sensitive_iff: "is_sensitive n \<longleftrightarrow> to_ascii_lowercase n \<in> set CREDENTIAL_HEADERS"
  by (auto simp: is_sensitive_def eq_ignore_ascii_case_def CREDENTIAL_HEADERS_def
      to_ascii_lowercase_def ascii_lower_def Let_def)

text \<open>The authority of the write tokens over the slots of the owned extensions.\<close>

definition immutable_kept :: "'o Extensions \<Rightarrow> 'o OwnedExtensions \<Rightarrow> bool" where
  "immutable_kept x w \<longleftrightarrow>
     o_request w = x_request x \<and> o_agent w = x_agent x \<and> o_mcp w = x_mcp x \<and>
     o_completion w = x_completion x \<and> o_provenance w = x_provenance x \<and> o_llm w = x_llm x \<and>
     o_framework w = x_framework x \<and> o_meta w = x_meta x"

definition http_authorized :: "'o Extensions \<Rightarrow> HttpExtension option \<Rightarrow> bool" where
  "http_authorized x h \<longleftrightarrow>
     h = map_option snd (x_http x) \<or>
     (http_write_token x \<and>
      (case h of
         None \<Rightarrow> False
       | Some n \<Rightarrow>
           list_all (\<lambda>(k, _). \<not> is_sensitive k) (request_headers n @ response_headers n) \<and>
           (case x_http x of
              None \<Rightarrow> secret_headers n = [] \<and> http_status n = None \<and> http_method n = None \<and>
                http_path n = None \<and> http_host n = None \<and> http_scheme n = None
            | Some (_, i) \<Rightarrow> secret_headers n = secret_headers i \<and> http_status n = http_status i \<and>
                http_method n = http_method i \<and> http_path n = http_path i \<and>
                http_host n = http_host i \<and> http_scheme n = http_scheme i)))"

definition security_authorized ::
  "'o engine \<Rightarrow> 'o Extensions \<Rightarrow> 'o SecurityExtension option \<Rightarrow> bool" where
  "security_authorized E x s \<longleftrightarrow>
     s = map_option snd (x_security x) \<or>
     (labels_write_token x \<and>
      (case s of
         None \<Rightarrow> False
       | Some n \<Rightarrow>
           let i = (case x_security x of Some (_, i) \<Rightarrow> i | None \<Rightarrow> default_security E) in
           set (labels i) \<subseteq> set (labels n) \<and> security_rest n = security_rest i))"

definition delegation_authorized :: "'o Extensions \<Rightarrow> 'o DelegationExtension option \<Rightarrow> bool" where
  "delegation_authorized x d \<longleftrightarrow>
     d = map_option snd (x_delegation x) \<or>
     (delegation_write_token x \<and>
      (case d of
         None \<Rightarrow> False
       | Some n \<Rightarrow> prefix (case x_delegation x of Some (_, i) \<Rightarrow> chain i | None \<Rightarrow> []) (chain n)))"

definition authorized :: "'o engine \<Rightarrow> 'o Extensions \<Rightarrow> 'o OwnedExtensions \<Rightarrow> bool" where
  "authorized E x w \<longleftrightarrow>
     immutable_kept x w \<and> http_authorized x (o_http w) \<and> security_authorized E x (o_security w) \<and>
     delegation_authorized x (o_delegation w)"

lemma fold_add_label:
  "label_law E \<Longrightarrow>
     set (labels (fold (add_label E) ls s)) = set ls \<union> set (labels s) \<and>
     security_rest (fold (add_label E) ls s) = security_rest s"
  by (induction ls arbitrary: s) (auto simp: label_law_def)

lemma returned_http_authorized:
  "http_write_token x \<Longrightarrow> http_authorized x (Some (returned_http h (map_option snd (x_http x))))"
  by (cases "x_http x")
     (auto simp: http_authorized_def returned_http_def strip_sensitive_def list_all_iff)

lemma merge_http_authorized:
  "merge_http E x obj acc = Inr acc' \<Longrightarrow> authorized E x (fst acc) \<Longrightarrow> authorized E x (fst acc')"
  by (auto simp: merge_http_def authorized_def immutable_kept_def returned_http_authorized
      split: option.splits if_splits)

lemma merge_security_authorized:
  "merge_security E x obj acc = Inr acc' \<Longrightarrow> label_law E \<Longrightarrow> authorized E x (fst acc) \<Longrightarrow>
     authorized E x (fst acc')"
  by (auto simp: merge_security_def authorized_def immutable_kept_def security_authorized_def
      fold_add_label Let_def split: option.splits if_splits)

lemma merge_delegation_authorized:
  "merge_delegation E x obj acc = Inr acc' \<Longrightarrow> chain_law E \<Longrightarrow> authorized E x (fst acc) \<Longrightarrow>
     authorized E x (fst acc')"
  by (auto simp: merge_delegation_def authorized_def immutable_kept_def delegation_authorized_def
      chain_law_def Let_def split: option.splits if_splits)

lemma merge_custom_authorized:
  "merge_custom E obj acc = Inr acc' \<Longrightarrow> authorized E x (fst acc) \<Longrightarrow> authorized E x (fst acc')"
  by (auto simp: merge_custom_def authorized_def immutable_kept_def split: option.splits)

lemma cow_copy_authorized: "copy_law E \<Longrightarrow> authorized E x (cow_copy E x)"
  by (simp add: copy_law_def authorized_def immutable_kept_def http_authorized_def
      security_authorized_def delegation_authorized_def)

lemmas merge_authorized =
  merge_http_authorized merge_security_authorized merge_delegation_authorized merge_custom_authorized

text \<open>The custom slot needs no token: it is what the worker returned, and what the plugin was shown
  when the worker returned nothing for it.\<close>

definition custom_as_returned ::
  "'o engine \<Rightarrow> json \<Rightarrow> 'o Extensions \<Rightarrow> json obj option \<Rightarrow> bool" where
  "custom_as_returned E field x c \<longleftrightarrow>
     (case jget field ''custom'' of
        None \<Rightarrow> c = map_option snd (x_custom x)
      | Some v \<Rightarrow> if v = JNull then c = map_option snd (x_custom x)
                 else (case de_custom E v of Inl _ \<Rightarrow> False | Inr returned \<Rightarrow> c = Some returned))"

lemma merge_keeps_custom:
  "merge_http E x obj acc = Inr r \<Longrightarrow> o_custom (fst r) = o_custom (fst acc)"
  "merge_security E x obj acc = Inr r \<Longrightarrow> o_custom (fst r) = o_custom (fst acc)"
  "merge_delegation E x obj acc = Inr r \<Longrightarrow> o_custom (fst r) = o_custom (fst acc)"
  by (auto simp: merge_http_def merge_security_def merge_delegation_def Let_def
      split: option.splits if_splits)

lemma merge_custom_returned:
  "merge_custom E obj acc = Inr r \<Longrightarrow> o_custom (fst acc) = map_option snd (x_custom x) \<Longrightarrow>
     custom_as_returned E (JObject obj) x (o_custom (fst r))"
  by (auto simp: merge_custom_def custom_as_returned_def slot_def set_value_def is_null_def
      split: option.splits sum.splits if_splits)


definition sample_view :: "json Extensions" where
  "sample_view = no_extensions\<lparr> x_request := Some (1, JString ''r''),
     x_delegation := Some (2, \<lparr> chain = [JString ''a''], depth = 1, origin_subject_id = None,
        actor_subject_id = None, delegated = True \<rparr>),
     http_write_token := True, delegation_write_token := True \<rparr>"


lemma merge_unwritable:
  "\<not> http_write_token x \<Longrightarrow> merge_http E x obj acc = Inr r \<Longrightarrow> r = acc"
  "\<not> labels_write_token x \<Longrightarrow> merge_security E x obj acc = Inr r \<Longrightarrow> r = acc"
  "\<not> delegation_write_token x \<Longrightarrow> merge_delegation E x obj acc = Inr r \<Longrightarrow> r = acc"
  "set_value obj ''custom'' = None \<Longrightarrow> merge_custom E obj acc = Inr r \<Longrightarrow> r = acc"
  by (auto simp: merge_http_def merge_security_def merge_delegation_def merge_custom_def slot_def
      split: option.splits)

text \<open>Without a write token, and with nothing returned for the unrestricted slot, every parsed
  return reads as no modification: the host never asks the executor to merge it.\<close>

theorem unauthorized_return_is_no_change:
  assumes "\<not> http_write_token x" "\<not> labels_write_token x" "\<not> delegation_write_token x"
    and "jget field ''custom'' \<in> {None, Some JNull}"
    and "owned_from_returned_slot E field x = Inr w"
  shows "w = None"
proof (cases "field = JNull")
  case True
  with assms(5) show ?thesis by (simp add: owned_from_returned_slot_def is_null_def)
next
  case False
  with assms(5) obtain obj a b c o' d where f: "field = JObject obj" and
    m: "merge_http E x obj (cow_copy E x, False) = Inr a" "merge_security E x obj a = Inr b"
    "merge_delegation E x obj b = Inr c" "merge_custom E obj c = Inr (o', d)" and
    w: "w = (if d then Some o' else None)"
    by (auto simp: owned_from_returned_slot_def is_null_def)
  have "set_value obj ''custom'' = None"
    using assms(4) f by (auto simp: set_value_def is_null_def)
  with m merge_unwritable assms(1-3) have "d = False"
    by (metis prod.inject)
  with w show ?thesis by simp
qed

theorem unauthorized_return_is_no_change_witness:
  "owned_from_returned_slot sample_engine (JObject [(''http'', JObject []), (''security'', JObject [])])
     no_extensions = Inr None"
proof -
  let ?f = "JObject [(''http'', JObject []), (''security'', JObject [])]"
  obtain w where w: "owned_from_returned_slot sample_engine ?f no_extensions = Inr w"
    by (simp add: owned_from_returned_slot_def is_null_def merge_http_def merge_security_def
        merge_delegation_def merge_custom_def slot_def set_value_def sample_engine_def
        no_extensions_def)
  have "w = None"
    by (rule unauthorized_return_is_no_change [OF _ _ _ _ w]) (simp_all add: no_extensions_def)
  with w show ?thesis by simp
qed

end
