(* ===== verification/Legacy_Payloads.thy ===== *)
theory Legacy_Payloads
  imports Cpex_Json
begin

text \<open>
  The legacy typed payloads (\<^verbatim>\<open>legacy/payloads.rs\<close>) with the derived serialization and
  deserialization of their JSON. A derived deserializer reads an object by field name, ignoring
  unknown fields, or an array by position; \<open>struct_fields\<close> is that first step. A hash map is an
  association list in the order of its entries.
\<close>

section \<open>Derived deserialization\<close>

definition struct_fields :: "string list \<Rightarrow> json \<Rightarrow> json obj option" where
  "struct_fields names v =
     (case v of
        JObject m \<Rightarrow> Some m
      | JArray xs \<Rightarrow> if length xs \<le> length names then Some (zip names xs) else None
      | _ \<Rightarrow> None)"

definition req :: "(json \<Rightarrow> 'a option) \<Rightarrow> json obj \<Rightarrow> string \<Rightarrow> 'a option" where
  "req de m k = Option.bind (obj_get m k) de"

definition opt_of :: "(json \<Rightarrow> 'a option) \<Rightarrow> json option \<Rightarrow> 'a option option" where
  "opt_of de f =
     (case f of
        None \<Rightarrow> Some None
      | Some v \<Rightarrow> if v = JNull then Some None else map_option Some (de v))"

definition opt :: "(json \<Rightarrow> 'a option) \<Rightarrow> json obj \<Rightarrow> string \<Rightarrow> 'a option option" where
  "opt de m k = opt_of de (obj_get m k)"

definition dflt :: "(json \<Rightarrow> 'a option) \<Rightarrow> 'a \<Rightarrow> json obj \<Rightarrow> string \<Rightarrow> 'a option" where
  "dflt de d m k = (case obj_get m k of None \<Rightarrow> Some d | Some v \<Rightarrow> de v)"

fun all_entries :: "(json \<Rightarrow> 'a option) \<Rightarrow> json obj \<Rightarrow> 'a obj option" where
  "all_entries de [] = Some []"
| "all_entries de ((k, v) # m) =
     Option.bind (de v) (\<lambda>x. map_option (\<lambda>xs. (k, x) # xs) (all_entries de m))"

fun all_items :: "(json \<Rightarrow> 'a option) \<Rightarrow> json list \<Rightarrow> 'a list option" where
  "all_items de [] = Some []"
| "all_items de (v # vs) = Option.bind (de v) (\<lambda>x. map_option (\<lambda>xs. x # xs) (all_items de vs))"

definition de_value_map :: "json \<Rightarrow> json obj option" where
  "de_value_map v = as_object v"

definition de_string_map :: "json \<Rightarrow> string obj option" where
  "de_string_map v = Option.bind (as_object v) (all_entries as_str)"

definition de_string_list :: "json \<Rightarrow> string list option" where
  "de_string_list v = Option.bind (as_array v) (all_items as_str)"

definition de_u16 :: "json \<Rightarrow> 16 word option" where
  "de_u16 v = Option.bind (as_u64 v) (\<lambda>n. if unat n < 2 ^ 16 then Some (of_nat (unat n)) else None)"

definition ser_u16 :: "16 word \<Rightarrow> json" where
  "ser_u16 w = jnat (unat w)"

definition string_map :: "string obj \<Rightarrow> json" where
  "string_map m = JObject (map (\<lambda>(k, v). (k, JString v)) m)"

definition string_list :: "string list \<Rightarrow> json" where
  "string_list xs = JArray (map JString xs)"

text \<open>\<^verbatim>\<open>skip_serializing_if = "Option::is_none"\<close>.\<close>

definition skip_none :: "string \<Rightarrow> ('a \<Rightarrow> json) \<Rightarrow> 'a option \<Rightarrow> json obj" where
  "skip_none k se v = (case v of None \<Rightarrow> [] | Some x \<Rightarrow> [(k, se x)])"

section \<open>The payloads\<close>

record ToolPreInvokePayload =
  tpre_name :: string
  tpre_args :: "json obj option"
  tpre_headers :: "string obj option"

definition ser_tool_pre :: "ToolPreInvokePayload \<Rightarrow> json" where
  "ser_tool_pre p =
     JObject ([(''name'', JString (tpre_name p))] @ skip_none ''args'' JObject (tpre_args p)
       @ skip_none ''headers'' string_map (tpre_headers p))"

definition de_tool_pre :: "json \<Rightarrow> ToolPreInvokePayload option" where
  "de_tool_pre v =
     Option.bind (struct_fields [''name'', ''args'', ''headers''] v) (\<lambda>m.
     Option.bind (req as_str m ''name'') (\<lambda>n.
     Option.bind (opt de_value_map m ''args'') (\<lambda>a.
     Option.bind (opt de_string_map m ''headers'') (\<lambda>h.
     Some \<lparr> tpre_name = n, tpre_args = a, tpre_headers = h \<rparr>))))"

record ToolPostInvokePayload =
  tpost_name :: string
  tpost_result :: json

definition ser_tool_post :: "ToolPostInvokePayload \<Rightarrow> json" where
  "ser_tool_post p = JObject [(''name'', JString (tpost_name p)), (''result'', tpost_result p)]"

definition de_tool_post :: "json \<Rightarrow> ToolPostInvokePayload option" where
  "de_tool_post v =
     Option.bind (struct_fields [''name'', ''result''] v) (\<lambda>m.
     Option.bind (req as_str m ''name'') (\<lambda>n.
     Option.bind (dflt Some JNull m ''result'') (\<lambda>r.
     Some \<lparr> tpost_name = n, tpost_result = r \<rparr>)))"

record PromptPreFetchPayload =
  ppre_prompt_id :: string
  ppre_args :: "string obj option"

definition ser_prompt_pre :: "PromptPreFetchPayload \<Rightarrow> json" where
  "ser_prompt_pre p =
     JObject ([(''prompt_id'', JString (ppre_prompt_id p))] @ skip_none ''args'' string_map (ppre_args p))"

definition de_prompt_pre :: "json \<Rightarrow> PromptPreFetchPayload option" where
  "de_prompt_pre v =
     Option.bind (struct_fields [''prompt_id'', ''args''] v) (\<lambda>m.
     Option.bind (req as_str m ''prompt_id'') (\<lambda>n.
     Option.bind (opt de_string_map m ''args'') (\<lambda>a.
     Some \<lparr> ppre_prompt_id = n, ppre_args = a \<rparr>)))"

record PromptPostFetchPayload =
  ppost_prompt_id :: string
  ppost_result :: json

definition ser_prompt_post :: "PromptPostFetchPayload \<Rightarrow> json" where
  "ser_prompt_post p = JObject [(''prompt_id'', JString (ppost_prompt_id p)), (''result'', ppost_result p)]"

definition de_prompt_post :: "json \<Rightarrow> PromptPostFetchPayload option" where
  "de_prompt_post v =
     Option.bind (struct_fields [''prompt_id'', ''result''] v) (\<lambda>m.
     Option.bind (req as_str m ''prompt_id'') (\<lambda>n.
     Option.bind (dflt Some JNull m ''result'') (\<lambda>r.
     Some \<lparr> ppost_prompt_id = n, ppost_result = r \<rparr>)))"

record ResourcePreFetchPayload =
  rpre_uri :: string
  rpre_metadata :: "json obj option"

definition ser_resource_pre :: "ResourcePreFetchPayload \<Rightarrow> json" where
  "ser_resource_pre p =
     JObject ([(''uri'', JString (rpre_uri p))] @ skip_none ''metadata'' JObject (rpre_metadata p))"

definition de_resource_pre :: "json \<Rightarrow> ResourcePreFetchPayload option" where
  "de_resource_pre v =
     Option.bind (struct_fields [''uri'', ''metadata''] v) (\<lambda>m.
     Option.bind (req as_str m ''uri'') (\<lambda>n.
     Option.bind (opt de_value_map m ''metadata'') (\<lambda>a.
     Some \<lparr> rpre_uri = n, rpre_metadata = a \<rparr>)))"

record ResourcePostFetchPayload =
  rpost_uri :: string
  rpost_content :: json

definition ser_resource_post :: "ResourcePostFetchPayload \<Rightarrow> json" where
  "ser_resource_post p = JObject [(''uri'', JString (rpost_uri p)), (''content'', rpost_content p)]"

definition de_resource_post :: "json \<Rightarrow> ResourcePostFetchPayload option" where
  "de_resource_post v =
     Option.bind (struct_fields [''uri'', ''content''] v) (\<lambda>m.
     Option.bind (req as_str m ''uri'') (\<lambda>n.
     Option.bind (dflt Some JNull m ''content'') (\<lambda>r.
     Some \<lparr> rpost_uri = n, rpost_content = r \<rparr>)))"

record IdentityResolvePayload =
  ir_raw_token :: string
  ir_source :: string
  ir_headers :: "string obj"
  ir_client_host :: "string option"
  ir_client_port :: "16 word option"

definition ser_identity :: "IdentityResolvePayload \<Rightarrow> json" where
  "ser_identity p =
     JObject ([(''raw_token'', JString (ir_raw_token p)), (''source'', JString (ir_source p)),
        (''headers'', string_map (ir_headers p))]
       @ skip_none ''client_host'' JString (ir_client_host p)
       @ skip_none ''client_port'' ser_u16 (ir_client_port p))"

definition de_identity :: "json \<Rightarrow> IdentityResolvePayload option" where
  "de_identity v =
     Option.bind (struct_fields [''raw_token'', ''source'', ''headers'', ''client_host'', ''client_port''] v) (\<lambda>m.
     Option.bind (dflt as_str [] m ''raw_token'') (\<lambda>t.
     Option.bind (dflt as_str [] m ''source'') (\<lambda>s.
     Option.bind (dflt de_string_map [] m ''headers'') (\<lambda>h.
     Option.bind (opt as_str m ''client_host'') (\<lambda>ch.
     Option.bind (opt de_u16 m ''client_port'') (\<lambda>cp.
     Some \<lparr> ir_raw_token = t, ir_source = s, ir_headers = h, ir_client_host = ch,
            ir_client_port = cp \<rparr>))))))"

record AttenuationConfig =
  ac_capabilities :: "string list"
  ac_resource_template :: "string option"
  ac_actions :: "string list"
  ac_ttl_seconds :: "jnum option"

text \<open>A number that an \<^verbatim>\<open>i64\<close> can hold.\<close>

definition de_i64 :: "json \<Rightarrow> jnum option" where
  "de_i64 v = (case v of JNumber n \<Rightarrow> (if as_i64 v = None then None else Some n) | _ \<Rightarrow> None)"

definition ser_attenuation :: "AttenuationConfig \<Rightarrow> json" where
  "ser_attenuation p =
     JObject ([(''capabilities'', string_list (ac_capabilities p))]
       @ skip_none ''resource_template'' JString (ac_resource_template p)
       @ [(''actions'', string_list (ac_actions p))]
       @ skip_none ''ttl_seconds'' JNumber (ac_ttl_seconds p))"

definition de_attenuation :: "json \<Rightarrow> AttenuationConfig option" where
  "de_attenuation v =
     Option.bind (struct_fields [''capabilities'', ''resource_template'', ''actions'', ''ttl_seconds''] v) (\<lambda>m.
     Option.bind (dflt de_string_list [] m ''capabilities'') (\<lambda>c.
     Option.bind (opt as_str m ''resource_template'') (\<lambda>r.
     Option.bind (dflt de_string_list [] m ''actions'') (\<lambda>a.
     Option.bind (opt de_i64 m ''ttl_seconds'') (\<lambda>t.
     Some \<lparr> ac_capabilities = c, ac_resource_template = r, ac_actions = a, ac_ttl_seconds = t \<rparr>)))))"

record TokenDelegatePayload =
  td_target_name :: string
  td_target_type :: string
  td_target_audience :: "string option"
  td_required_permissions :: "string list"
  td_trust_domain :: "string option"
  td_auth_enforced_by :: string
  td_route_attenuation :: "AttenuationConfig option"
  td_bearer_token :: "string option"

definition default_target_type :: string where
  "default_target_type = ''tool''"

definition default_auth_enforced_by :: string where
  "default_auth_enforced_by = ''caller''"

definition ser_delegate :: "TokenDelegatePayload \<Rightarrow> json" where
  "ser_delegate p =
     JObject ([(''target_name'', JString (td_target_name p)), (''target_type'', JString (td_target_type p))]
       @ skip_none ''target_audience'' JString (td_target_audience p)
       @ [(''required_permissions'', string_list (td_required_permissions p))]
       @ skip_none ''trust_domain'' JString (td_trust_domain p)
       @ [(''auth_enforced_by'', JString (td_auth_enforced_by p))]
       @ skip_none ''route_attenuation'' ser_attenuation (td_route_attenuation p)
       @ skip_none ''bearer_token'' JString (td_bearer_token p))"

definition de_delegate :: "json \<Rightarrow> TokenDelegatePayload option" where
  "de_delegate v =
     Option.bind (struct_fields [''target_name'', ''target_type'', ''target_audience'',
       ''required_permissions'', ''trust_domain'', ''auth_enforced_by'', ''route_attenuation'',
       ''bearer_token''] v) (\<lambda>m.
     Option.bind (req as_str m ''target_name'') (\<lambda>n.
     Option.bind (dflt as_str default_target_type m ''target_type'') (\<lambda>ty.
     Option.bind (opt as_str m ''target_audience'') (\<lambda>au.
     Option.bind (dflt de_string_list [] m ''required_permissions'') (\<lambda>ps.
     Option.bind (opt as_str m ''trust_domain'') (\<lambda>d.
     Option.bind (dflt as_str default_auth_enforced_by m ''auth_enforced_by'') (\<lambda>by'.
     Option.bind (opt de_attenuation m ''route_attenuation'') (\<lambda>ra.
     Option.bind (opt as_str m ''bearer_token'') (\<lambda>bt.
     Some \<lparr> td_target_name = n, td_target_type = ty, td_target_audience = au,
            td_required_permissions = ps, td_trust_domain = d, td_auth_enforced_by = by',
            td_route_attenuation = ra, td_bearer_token = bt \<rparr>)))))))))"

section \<open>Round trips\<close>

text \<open>The contract of a serialized type: what is written is read back.\<close>

locale codec =
  fixes ser :: "'a \<Rightarrow> json" and de :: "json \<Rightarrow> 'a option" and ok :: "'a \<Rightarrow> bool"
  assumes round_trip: "ok x \<Longrightarrow> de (ser x) = Some x"
    and ser_not_null: "ok x \<Longrightarrow> ser x \<noteq> JNull"
begin

lemma opt_of_map: "pred_option ok v \<Longrightarrow> opt_of de (map_option ser v) = Some v"
  by (cases v) (auto simp: opt_of_def round_trip ser_not_null)

lemma ser_inj: "ok x \<Longrightarrow> ok y \<Longrightarrow> ser x = ser y \<Longrightarrow> x = y"
  by (metis option.inject round_trip)

end

lemma all_entries_strings: "all_entries as_str (map (\<lambda>(k, v). (k, JString v)) m) = Some m"
  by (induction m) auto

lemma all_items_strings: "all_items as_str (map JString xs) = Some xs"
  by (induction xs) auto

interpretation string_codec: codec JString as_str "\<lambda>_. True"
  by unfold_locales auto

interpretation value_map_codec: codec JObject de_value_map "\<lambda>_. True"
  by unfold_locales (auto simp: de_value_map_def)

interpretation string_map_codec: codec string_map de_string_map "\<lambda>_. True"
  by unfold_locales (auto simp: string_map_def de_string_map_def all_entries_strings)

interpretation string_list_codec: codec string_list de_string_list "\<lambda>_. True"
  by unfold_locales (auto simp: string_list_def de_string_list_def all_items_strings)

lemma u16_round_trip: "de_u16 (jnat (unat (w :: 16 word))) = Some w"
proof -
  have w: "unat w < 2 ^ 16" using unsigned_less [of w] by simp
  have "unat (ucast w :: 64 word) = take_bit 64 (unat w)"
    by (simp add: unsigned_ucast_eq)
  also have "\<dots> = unat w"
    using w by (intro take_bit_nat_eq_self) simp
  finally show ?thesis using w by (simp add: de_u16_def)
qed

interpretation u16_codec: codec ser_u16 de_u16 "\<lambda>_. True"
  by unfold_locales (use u16_round_trip in \<open>auto simp: ser_u16_def\<close>)

interpretation i64_codec: codec JNumber de_i64 "\<lambda>n. as_i64 (JNumber n) \<noteq> None"
  by unfold_locales (auto simp: de_i64_def)

lemma obj_get_skip_none [simp]:
  "obj_get (skip_none k se v) k' = (if k' = k then map_option se v else None)"
  by (cases v) (auto simp: skip_none_def)

definition or_else :: "'a option \<Rightarrow> 'a option \<Rightarrow> 'a option" where
  "or_else a b = (case a of None \<Rightarrow> b | Some x \<Rightarrow> Some x)"

lemma or_else_simps [simp]: "or_else None b = b" "or_else (Some x) b = Some x" "or_else a None = a"
  by (simp_all add: or_else_def split: option.split)

lemma obj_get_or_else: "obj_get (a @ b) k = or_else (obj_get a k) (obj_get b k)"
  by (simp add: or_else_def obj_get_append split: option.split)

lemmas payload_simps = req_def opt_def dflt_def struct_fields_def obj_get_or_else option.pred_True

lemmas codec_round_trips =
  string_codec.opt_of_map value_map_codec.opt_of_map string_map_codec.opt_of_map
  string_list_codec.round_trip string_map_codec.round_trip u16_codec.opt_of_map i64_codec.opt_of_map

interpretation tool_pre: codec ser_tool_pre de_tool_pre "\<lambda>_. True"
  by unfold_locales
     (simp_all add: ser_tool_pre_def de_tool_pre_def payload_simps codec_round_trips)

interpretation tool_post: codec ser_tool_post de_tool_post "\<lambda>_. True"
  by unfold_locales
     (simp_all add: ser_tool_post_def de_tool_post_def payload_simps codec_round_trips)

interpretation prompt_pre: codec ser_prompt_pre de_prompt_pre "\<lambda>_. True"
  by unfold_locales
     (simp_all add: ser_prompt_pre_def de_prompt_pre_def payload_simps codec_round_trips)

interpretation prompt_post: codec ser_prompt_post de_prompt_post "\<lambda>_. True"
  by unfold_locales
     (simp_all add: ser_prompt_post_def de_prompt_post_def payload_simps codec_round_trips)

interpretation resource_pre: codec ser_resource_pre de_resource_pre "\<lambda>_. True"
  by unfold_locales
     (simp_all add: ser_resource_pre_def de_resource_pre_def payload_simps codec_round_trips)

interpretation resource_post: codec ser_resource_post de_resource_post "\<lambda>_. True"
  by unfold_locales
     (simp_all add: ser_resource_post_def de_resource_post_def payload_simps codec_round_trips)

interpretation identity: codec ser_identity de_identity "\<lambda>_. True"
  by unfold_locales
     (simp_all add: ser_identity_def de_identity_def payload_simps codec_round_trips)

definition attenuation_ok :: "AttenuationConfig \<Rightarrow> bool" where
  "attenuation_ok a \<longleftrightarrow> pred_option (\<lambda>n. as_i64 (JNumber n) \<noteq> None) (ac_ttl_seconds a)"

interpretation attenuation: codec ser_attenuation de_attenuation attenuation_ok
  by unfold_locales
     (simp_all add: ser_attenuation_def de_attenuation_def attenuation_ok_def payload_simps
       codec_round_trips)

definition delegate_ok :: "TokenDelegatePayload \<Rightarrow> bool" where
  "delegate_ok p \<longleftrightarrow> pred_option attenuation_ok (td_route_attenuation p)"

interpretation delegate: codec ser_delegate de_delegate delegate_ok
  by unfold_locales
     (simp_all add: ser_delegate_def de_delegate_def delegate_ok_def payload_simps
       codec_round_trips attenuation.opt_of_map)

text \<open>Every legacy payload survives the wire. Reading back what was written gives the payload,
  for the eight payload types; the only condition is that a delegation's time to live is a number
  an \<^verbatim>\<open>i64\<close> can hold.\<close>

theorem legacy_payload_round_trips:
  assumes "delegate_ok h"
  shows "de_tool_pre (ser_tool_pre a) = Some a \<and> de_tool_post (ser_tool_post b) = Some b \<and>
   de_prompt_pre (ser_prompt_pre c) = Some c \<and> de_prompt_post (ser_prompt_post d) = Some d \<and>
   de_resource_pre (ser_resource_pre e) = Some e \<and> de_resource_post (ser_resource_post f) = Some f \<and>
   de_identity (ser_identity g) = Some g \<and> de_delegate (ser_delegate h) = Some h"
  using assms
  by (simp add: tool_pre.round_trip tool_post.round_trip prompt_pre.round_trip
      prompt_post.round_trip resource_pre.round_trip resource_post.round_trip identity.round_trip
      delegate.round_trip)

theorem legacy_payload_round_trips_witness:
  "let a = \<lparr> ac_capabilities = [''read''], ac_resource_template = None, ac_actions = [],
             ac_ttl_seconds = Some (PosInt 60) \<rparr>;
       p = \<lparr> td_target_name = ''search'', td_target_type = ''tool'', td_target_audience = Some ''api'',
             td_required_permissions = [''read''], td_trust_domain = None,
             td_auth_enforced_by = ''caller'', td_route_attenuation = Some a, td_bearer_token = None \<rparr>
   in de_delegate (ser_delegate p) = Some p"
  unfolding Let_def
  by (rule legacy_payload_round_trips [THEN conjunct2, THEN conjunct2, THEN conjunct2, THEN conjunct2,
        THEN conjunct2, THEN conjunct2, THEN conjunct2])
     (simp add: delegate_ok_def attenuation_ok_def)

end
