(* ===== verification/Cmf_Shim.thy ===== *)
theory Cmf_Shim
  imports Legacy_Payloads Host_Error
begin

text \<open>
  The legacy payload shim (\<^verbatim>\<open>legacy/cmf_shim.rs\<close>): a \<^verbatim>\<open>cmf.*\<close> hook
  for a worker that predates CMF is translated to the legacy hook and payload, and a modified
  legacy payload is mapped back onto the message. What the legacy payload cannot represent is
  refused. The message types are the engine's; their records hold the fields the shim reads and
  an opaque rest.
\<close>

section \<open>Messages\<close>

record 'o ToolCall =
  tc_name :: string
  tc_arguments :: "json obj"
  tc_namespace :: "string option"
  tc_rest :: 'o

record 'o ToolResult =
  tr_tool_name :: string
  tr_content :: json
  tr_is_error :: bool
  tr_rest :: 'o

record 'o PromptRequest =
  prq_name :: string
  prq_arguments :: "json obj"
  prq_server_id :: "string option"
  prq_rest :: 'o

record 'o Resource =
  rs_uri :: string
  rs_content :: "string option"
  rs_blob :: "'o option"
  rs_mime_type :: "string option"
  rs_size_bytes :: "64 word option"
  rs_version :: "string option"
  rs_resource_request_id :: string
  rs_rest :: 'o

record 'o ResourceRef =
  rr_uri :: string
  rr_rest :: 'o

datatype media = Image | Video | Audio | Document

datatype 'o ContentPart =
    Text string
  | Thinking string
  | ToolCallPart "'o ToolCall"
  | ToolResultPart "'o ToolResult"
  | ResourcePart "'o Resource"
  | ResourceRefPart "'o ResourceRef"
  | PromptRequestPart "'o PromptRequest"
  | PromptResultPart string "'o Message list" "string option" "string option" bool 'o
  | MediaPart media 'o
and 'o Message = Message (role: 'o) (content: "'o ContentPart list") (message_rest: 'o)

record 'o MessagePayload =
  message :: "'o Message"
  payload_rest :: 'o

text \<open>The engine's functions on messages, and the rendering of a deserialization error.\<close>

record 'o cmf =
  ser_role :: "'o \<Rightarrow> json"
  de_role :: "json \<Rightarrow> 'o option"
  is_embedded :: "'o Resource \<Rightarrow> bool"
  text_message :: "'o \<Rightarrow> string \<Rightarrow> 'o Message"
  serde_error :: "json \<Rightarrow> string"

definition role_law :: "'o cmf \<Rightarrow> bool" where
  "role_law M \<longleftrightarrow> (\<forall>r. de_role M (ser_role M r) = Some r)"

section \<open>The shimmed hooks\<close>

datatype Shim =
    ShToolPreInvoke | ShToolPostInvoke | ShPromptPreFetch | ShPromptPostFetch
  | ShResourcePreFetch | ShResourcePostFetch

definition SHIMMED_HOOKS :: "(string \<times> Shim) list" where
  "SHIMMED_HOOKS =
     [(''cmf.tool_pre_invoke'', ShToolPreInvoke), (''cmf.tool_post_invoke'', ShToolPostInvoke),
      (''cmf.prompt_pre_invoke'', ShPromptPreFetch), (''cmf.prompt_post_invoke'', ShPromptPostFetch),
      (''cmf.resource_pre_fetch'', ShResourcePreFetch), (''cmf.resource_post_fetch'', ShResourcePostFetch)]"

definition for_hook :: "string \<Rightarrow> Shim option" where
  "for_hook hook_name = map_option snd (find (\<lambda>(name, _). name = hook_name) SHIMMED_HOOKS)"

fun legacy_hook :: "Shim \<Rightarrow> string" where
  "legacy_hook ShToolPreInvoke = ''tool_pre_invoke''"
| "legacy_hook ShToolPostInvoke = ''tool_post_invoke''"
| "legacy_hook ShPromptPreFetch = ''prompt_pre_fetch''"
| "legacy_hook ShPromptPostFetch = ''prompt_post_fetch''"
| "legacy_hook ShResourcePreFetch = ''resource_pre_fetch''"
| "legacy_hook ShResourcePostFetch = ''resource_post_fetch''"

fun is_post :: "Shim \<Rightarrow> bool" where
  "is_post ShToolPostInvoke = True"
| "is_post ShPromptPostFetch = True"
| "is_post ShResourcePostFetch = True"
| "is_post _ = False"

fun part_name :: "Shim \<Rightarrow> string" where
  "part_name ShToolPreInvoke = ''tool_call''"
| "part_name ShToolPostInvoke = ''tool_result''"
| "part_name ShPromptPreFetch = ''prompt_request''"
| "part_name ShPromptPostFetch = ''prompt_result''"
| "part_name ShResourcePreFetch = ''resource or resource_ref''"
| "part_name ShResourcePostFetch = ''resource''"

fun shim_matches :: "Shim \<Rightarrow> 'o ContentPart \<Rightarrow> bool" where
  "shim_matches ShToolPreInvoke (ToolCallPart _) = True"
| "shim_matches ShToolPostInvoke (ToolResultPart _) = True"
| "shim_matches ShPromptPreFetch (PromptRequestPart _) = True"
| "shim_matches ShPromptPostFetch (PromptResultPart _ _ _ _ _ _) = True"
| "shim_matches ShResourcePreFetch (ResourcePart _) = True"
| "shim_matches ShResourcePreFetch (ResourceRefPart _) = True"
| "shim_matches ShResourcePostFetch (ResourcePart _) = True"
| "shim_matches ShResourcePostFetch (ResourceRefPart _) = True"
| "shim_matches _ _ = False"

definition is_cmf_hook :: "string \<Rightarrow> bool" where
  "is_cmf_hook hook_name \<longleftrightarrow>
     for_hook hook_name \<noteq> None \<or> hook_name = ''cmf.llm_input'' \<or> hook_name = ''cmf.llm_output''"

definition legacy_hook_name :: "string \<Rightarrow> string option" where
  "legacy_hook_name hook_name = map_option legacy_hook (for_hook hook_name)"

section \<open>Helpers\<close>

definition shim_error :: "string \<Rightarrow> string \<Rightarrow> string \<Rightarrow> HostError" where
  "shim_error hook_name legacy msg =
     LegacyShim hook_name (''translating to the legacy '' @ sq legacy @ '' payload: '' @ msg)"

definition is_set :: "string option \<Rightarrow> bool" where
  "is_set field = (case field of None \<Rightarrow> False | Some s \<Rightarrow> s \<noteq> [])"

fun carries_content :: "'o ContentPart \<Rightarrow> bool" where
  "carries_content (Text text) = (trim text \<noteq> [])"
| "carries_content (Thinking text) = (trim text \<noteq> [])"
| "carries_content _ = True"

fun part_kind :: "'o ContentPart \<Rightarrow> string" where
  "part_kind (Text _) = ''text''"
| "part_kind (Thinking _) = ''thinking''"
| "part_kind (ToolCallPart _) = ''tool_call''"
| "part_kind (ToolResultPart _) = ''tool_result''"
| "part_kind (ResourcePart _) = ''resource''"
| "part_kind (ResourceRefPart _) = ''resource_ref''"
| "part_kind (PromptRequestPart _) = ''prompt_request''"
| "part_kind (PromptResultPart _ _ _ _ _ _) = ''prompt_result''"
| "part_kind (MediaPart Image _) = ''image''"
| "part_kind (MediaPart Video _) = ''video''"
| "part_kind (MediaPart Audio _) = ''audio''"
| "part_kind (MediaPart Document _) = ''document''"

definition result_says_error :: "json \<Rightarrow> bool" where
  "result_says_error result \<longleftrightarrow> jget result ''isError'' = Some (JBool True)"

definition opt_string :: "string option \<Rightarrow> json" where
  "opt_string s = (case s of None \<Rightarrow> JNull | Some t \<Rightarrow> JString t)"

definition refuse_resource_version ::
  "'o Resource \<Rightarrow> (string \<Rightarrow> HostError) \<Rightarrow> HostError + unit" where
  "refuse_resource_version r err =
     (if is_set (rs_version r) then Inl (err
        (''the resource has a '' @ bq ''version'' @ '', which the legacy payload cannot carry; a plugin ''
         @ ''that authorizes by '' @ bq ''uri'' @ '' would approve any revision''))
      else Inr ())"

section \<open>To the legacy payload\<close>

fun string_args :: "(string \<Rightarrow> HostError) \<Rightarrow> json obj \<Rightarrow> HostError + string obj" where
  "string_args err [] = Inr []"
| "string_args err ((key, value) # m) =
     (case value of
        JString s \<Rightarrow> rbind (string_args err m) (\<lambda>args. Inr ((key, s) # args))
      | _ \<Rightarrow> Inl (err (''prompt argument '' @ sq key
               @ '' is not a string, and the legacy payload's '' @ bq ''args'' @ '' is dict[str, str]'')))"

fun legacy_messages ::
  "'o cmf \<Rightarrow> (string \<Rightarrow> HostError) \<Rightarrow> nat \<Rightarrow> 'o Message list \<Rightarrow> HostError + json list" where
  "legacy_messages M err i [] = Inr []"
| "legacy_messages M err i (m # ms) =
     (case content m of
        [Text text] \<Rightarrow>
          rbind (legacy_messages M err (Suc i) ms) (\<lambda>js.
            Inr (JObject [(''role'', ser_role M (role m)),
              (''content'', JObject [(''type'', JString ''text''), (''text'', JString text)])] # js))
      | _ \<Rightarrow> Inl (err (''prompt result message '' @ show_nat i
               @ '' is not a single text part, and the legacy prompt message holds one text content'')))"

definition legacy_json ::
  "'o cmf \<Rightarrow> (string \<Rightarrow> HostError) \<Rightarrow> Shim \<Rightarrow> 'o ContentPart \<Rightarrow> HostError + json" where
  "legacy_json M err shim part =
     (case (shim, part) of
        (ShToolPreInvoke, ToolCallPart c) \<Rightarrow>
          if is_set (tc_namespace c) then Inl (err
            (''the tool call has a '' @ bq ''namespace'' @ '', which the legacy payload cannot carry; ''
             @ ''a plugin that authorizes by bare '' @ bq ''name'' @ '' would approve it in any namespace''))
          else Inr (ser_tool_pre \<lparr> tpre_name = tc_name c, tpre_args = Some (tc_arguments c),
                 tpre_headers = None \<rparr>)
      | (ShToolPostInvoke, ToolResultPart c) \<Rightarrow>
          if tr_is_error c \<and> \<not> result_says_error (tr_content c) then Inl (err
            (''the tool result has '' @ bq ''is_error'' @ '' set, and its '' @ bq ''content''
             @ '' does not carry '' @ bq ([CHR 0x22] @ ''isError'' @ [CHR 0x22] @ '': true'')
             @ '' for the legacy plugin to see''))
          else Inr (ser_tool_post \<lparr> tpost_name = tr_tool_name c, tpost_result = tr_content c \<rparr>)
      | (ShPromptPreFetch, PromptRequestPart c) \<Rightarrow>
          if is_set (prq_server_id c) then Inl (err
            (''the prompt request has a '' @ bq ''server_id'' @ '', which the legacy payload cannot ''
             @ ''carry; a plugin that authorizes by bare '' @ bq ''prompt_id''
             @ '' would approve it on any server''))
          else rbind (string_args err (prq_arguments c)) (\<lambda>args.
                 Inr (ser_prompt_pre \<lparr> ppre_prompt_id = prq_name c, ppre_args = Some args \<rparr>))
      | (ShPromptPostFetch, PromptResultPart name messages rendered error_message is_error rest) \<Rightarrow>
          if is_set rendered then Inl (err
            (''the prompt result has rendered '' @ bq ''content'' @ '', which the legacy payload cannot ''
             @ ''carry, so a plugin could not inspect or redact it''))
          else if is_set error_message then Inl (err
            (''the prompt result has an '' @ bq ''error_message'' @ '', which the legacy payload cannot ''
             @ ''carry, so a plugin could not inspect or redact it''))
          else if is_error then Inl (err
            (''the prompt result has '' @ bq ''is_error'' @ '' set, which the legacy payload cannot carry''))
          else rbind (legacy_messages M err 0 messages) (\<lambda>js.
                 Inr (ser_prompt_post \<lparr> ppost_prompt_id = name,
                   ppost_result = JObject [(''messages'', JArray js), (''description'', JNull)] \<rparr>))
      | (ShResourcePreFetch, ResourcePart c) \<Rightarrow>
          rbind (refuse_resource_version c err) (\<lambda>_.
            Inr (ser_resource_pre \<lparr> rpre_uri = rs_uri c, rpre_metadata = None \<rparr>))
      | (ShResourcePreFetch, ResourceRefPart c) \<Rightarrow>
          Inr (ser_resource_pre \<lparr> rpre_uri = rr_uri c, rpre_metadata = None \<rparr>)
      | (ShResourcePostFetch, ResourcePart c) \<Rightarrow>
          rbind (refuse_resource_version c err) (\<lambda>_.
            if rs_blob c \<noteq> None then Inl (err
              (''the resource carries binary '' @ bq ''blob'' @ '' content, which the shim does not ''
               @ ''translate''))
            else Inr (ser_resource_post \<lparr> rpost_uri = rs_uri c,
              rpost_content = JObject [(''type'', JString ''resource''),
                (''id'', JString (rs_resource_request_id c)), (''uri'', JString (rs_uri c)),
                (''mime_type'', opt_string (rs_mime_type c)), (''text'', opt_string (rs_content c))] \<rparr>))
      | (ShResourcePostFetch, ResourceRefPart c) \<Rightarrow> Inl (err
          (''the message holds a resource_ref with no content, and the legacy post-fetch ''
           @ ''payload carries the content''))
      | _ \<Rightarrow> Inl (err ''unexpected content part''))"

record 'o ShimmedPayload =
  sp_shim :: Shim
  sp_hook_name :: string
  sp_original :: "'o MessagePayload"
  sp_part :: nat
  sp_json :: json

definition candidates :: "Shim \<Rightarrow> 'o ContentPart list \<Rightarrow> nat list" where
  "candidates shim parts = filter (\<lambda>i. shim_matches shim (parts ! i)) [0 ..< length parts]"

definition hidden_sibling :: "Shim \<Rightarrow> nat \<Rightarrow> 'o ContentPart list \<Rightarrow> 'o ContentPart option" where
  "hidden_sibling shim part parts =
     map_option (\<lambda>i. parts ! i)
       (find (\<lambda>i. is_post shim \<and> i \<noteq> part \<and> carries_content (parts ! i)) [0 ..< length parts])"

text \<open>\<open>payload\<close> is the erased payload: the message payload, or something else.\<close>

definition to_legacy ::
  "'o cmf \<Rightarrow> string \<Rightarrow> 'o MessagePayload option \<Rightarrow> HostError + 'o ShimmedPayload" where
  "to_legacy M hook_name payload =
     (case for_hook hook_name of
        None \<Rightarrow> Inl (LegacyShim hook_name
          (''it has no legacy hook equivalent, so only a worker that claims the '' @ bq ''cmf_hooks''
           @ '' feature can run it. Upgrade the cpex package in the plugin's venv, or remove the hook ''
           @ ''from the plugin's '' @ bq ''hooks:'' @ '' list.''))
      | Some shim \<Rightarrow>
          let err = shim_error hook_name (legacy_hook shim) in
          rbind (ok_or (err ''the payload is not a CMF MessagePayload'') payload) (\<lambda>original.
          let parts = content (message original) in
          case candidates shim parts of
            [part] \<Rightarrow>
              (case hidden_sibling shim part parts of
                 Some sibling \<Rightarrow> Inl (err
                   (''the message holds a '' @ part_kind sibling @ '' content part beside the ''
                    @ part_name shim @ '' part, which the legacy payload cannot carry, so a plugin ''
                    @ ''could not inspect or redact it''))
               | None \<Rightarrow>
                   rbind (legacy_json M err shim (parts ! part)) (\<lambda>j.
                     Inr \<lparr> sp_shim = shim, sp_hook_name = hook_name, sp_original = original,
                           sp_part = part, sp_json = j \<rparr>))
          | [] \<Rightarrow> Inl (err (''the message has no '' @ part_name shim @ '' content part''))
          | many \<Rightarrow> Inl (err (''the message has '' @ show_nat (length many) @ '' '' @ part_name shim
                     @ '' content parts and the legacy payload holds one''))))"

section \<open>Back onto the message\<close>

definition sp_error :: "'o ShimmedPayload \<Rightarrow> string \<Rightarrow> HostError" where
  "sp_error s msg = shim_error (sp_hook_name s) (legacy_hook (sp_shim s)) msg"

definition sp_parse :: "'o cmf \<Rightarrow> 'o ShimmedPayload \<Rightarrow> (json \<Rightarrow> 'a option) \<Rightarrow> json \<Rightarrow> HostError + 'a" where
  "sp_parse M s de modified =
     ok_or (Protocol (''worker returned a modified payload that does not match the legacy hook ''
         @ sq (legacy_hook (sp_shim s)) @ '' (dispatched as '' @ sq (sp_hook_name s) @ ''): ''
         @ serde_error M modified)) (de modified)"

definition resource_pre_uri :: "'o cmf \<Rightarrow> 'o ShimmedPayload \<Rightarrow> json \<Rightarrow> HostError + string" where
  "resource_pre_uri M s modified =
     rbind (sp_parse M s de_resource_pre modified) (\<lambda>legacy.
       if (case rpre_metadata legacy of None \<Rightarrow> False | Some m \<Rightarrow> m \<noteq> []) then Inl (sp_error s
         (''the plugin returned resource '' @ bq ''metadata'' @ '', which a CMF resource part cannot carry''))
       else Inr (rpre_uri legacy))"

definition message_text :: "json \<Rightarrow> string option" where
  "message_text item =
     (case jget item ''content'' of
        Some (JObject c) \<Rightarrow>
          if Option.bind (obj_get c ''type'') as_str = Some ''text''
          then Option.bind (obj_get c ''text'') as_str else None
      | _ \<Rightarrow> None)"

definition message_from_legacy ::
  "'o cmf \<Rightarrow> 'o ShimmedPayload \<Rightarrow> 'o Message list \<Rightarrow> nat \<Rightarrow> json \<Rightarrow> HostError + 'o Message" where
  "message_from_legacy M s original i item =
     rbind (ok_or (sp_error s (bq (''result.messages['' @ show_nat i @ ''].role'') @ '' is not a CMF role''))
              (Option.bind (jget item ''role'') (de_role M))) (\<lambda>r.
     rbind (ok_or (sp_error s (bq (''result.messages['' @ show_nat i @ ''].content'')
                @ '' must be text content ({'' @ [CHR 0x22] @ ''type'' @ [CHR 0x22] @ '': '' @ [CHR 0x22]
                @ ''text'' @ [CHR 0x22] @ '', '' @ [CHR 0x22] @ ''text'' @ [CHR 0x22] @ '': ...})''))
              (message_text item)) (\<lambda>text.
     let m = (if i < length original then original ! i else text_message M r [])
     in Inr (Message r [Text text] (message_rest m))))"

fun messages_loop ::
  "'o cmf \<Rightarrow> 'o ShimmedPayload \<Rightarrow> 'o Message list \<Rightarrow> nat \<Rightarrow> json list \<Rightarrow> HostError + 'o Message list" where
  "messages_loop M s original i [] = Inr []"
| "messages_loop M s original i (item # items) =
     rbind (message_from_legacy M s original i item) (\<lambda>m.
     rbind (messages_loop M s original (Suc i) items) (\<lambda>ms. Inr (m # ms)))"

definition messages_from_legacy ::
  "'o cmf \<Rightarrow> 'o ShimmedPayload \<Rightarrow> json \<Rightarrow> 'o Message list \<Rightarrow> HostError + 'o Message list" where
  "messages_from_legacy M s result original =
     rbind (ok_or (sp_error s (bq ''result'' @ '' must be an object with a '' @ bq ''messages'' @ '' list''))
              (as_object result)) (\<lambda>r.
     if (case obj_get r ''description'' of None \<Rightarrow> False | Some d \<Rightarrow> \<not> is_null d) then Inl (sp_error s
       (''the plugin returned a prompt result '' @ bq ''description'' @ '', which a CMF prompt result ''
        @ ''cannot carry''))
     else rbind (ok_or (sp_error s (bq ''result.messages'' @ '' must be a list''))
                   (Option.bind (obj_get r ''messages'') as_array)) (\<lambda>items.
       messages_loop M s original 0 items))"

text \<open>The text and the mime type of returned resource content, absent when the value is neither a
  string nor null.\<close>

definition nullable_string :: "json \<Rightarrow> string option option" where
  "nullable_string v = (case v of JNull \<Rightarrow> Some None | JString t \<Rightarrow> Some (Some t) | _ \<Rightarrow> None)"

definition resource_fields ::
  "'o ShimmedPayload \<Rightarrow> string \<Rightarrow> 'o Resource \<Rightarrow> json obj \<Rightarrow> HostError + 'o Resource" where
  "resource_fields s original_uri c fs =
     (if (case obj_get fs ''blob'' of None \<Rightarrow> False | Some b \<Rightarrow> \<not> is_null b) then Inl (sp_error s
        (''the plugin returned resource '' @ bq ''content.blob'' @ ''; binary resource content is not ''
         @ ''carried by the shim''))
      else if (case obj_get fs ''id'' of None \<Rightarrow> False
               | Some i \<Rightarrow> as_str i \<noteq> Some (rs_resource_request_id c)) then Inl (sp_error s
        (''the plugin changed '' @ bq ''content.id'' @ '', which is not mapped back''))
      else if (case obj_get fs ''uri'' of None \<Rightarrow> False
               | Some u \<Rightarrow> as_str u \<noteq> Some (rs_uri c) \<and> as_str u \<noteq> Some original_uri) then Inl (sp_error s
        (''the plugin changed '' @ bq ''content.uri'' @ '' to a value other than '' @ bq ''uri''
         @ '', and only '' @ bq ''uri'' @ '' is mapped back''))
      else
        rbind (ok_or (sp_error s (bq ''content.text'' @ '' must be a string or null''))
                 (case obj_get fs ''text'' of None \<Rightarrow> Some None | Some t \<Rightarrow> nullable_string t)) (\<lambda>text.
        let c = c\<lparr> rs_content := text \<rparr> in
        case obj_get fs ''mime_type'' of
          None \<Rightarrow> Inr c
        | Some mime \<Rightarrow>
            rbind (ok_or (sp_error s (bq ''content.mime_type'' @ '' must be a string or null''))
                     (nullable_string mime)) (\<lambda>m. Inr (c\<lparr> rs_mime_type := m \<rparr>))))"

definition apply_resource_post ::
  "'o cmf \<Rightarrow> 'o ShimmedPayload \<Rightarrow> 'o Resource \<Rightarrow> json \<Rightarrow> HostError + 'o Resource" where
  "apply_resource_post M s c modified =
     rbind (sp_parse M s de_resource_post modified) (\<lambda>legacy.
     let original_uri = rs_uri c; c' = c\<lparr> rs_uri := rpost_uri legacy \<rparr> in
     rbind (case rpost_content legacy of
              JNull \<Rightarrow> Inr (c'\<lparr> rs_content := None \<rparr>)
            | JString text \<Rightarrow> Inr (c'\<lparr> rs_content := Some text \<rparr>)
            | JObject fs \<Rightarrow> resource_fields s original_uri c' fs
            | _ \<Rightarrow> Inl (sp_error s (bq ''content'' @ '' must be an object, a string, or null''))) (\<lambda>n.
     Inr (if rs_content n \<noteq> rs_content c \<and> rs_size_bytes n \<noteq> None
          then n\<lparr> rs_size_bytes := map_option (\<lambda>t. of_nat (length t)) (rs_content n) \<rparr> else n)))"

definition apply_part ::
  "'o cmf \<Rightarrow> 'o ShimmedPayload \<Rightarrow> json \<Rightarrow> 'o ContentPart \<Rightarrow> HostError + 'o ContentPart" where
  "apply_part M s modified part =
     (case (sp_shim s, part) of
        (ShToolPreInvoke, ToolCallPart c) \<Rightarrow>
          rbind (sp_parse M s de_tool_pre modified) (\<lambda>legacy.
            if (case tpre_headers legacy of None \<Rightarrow> False | Some h \<Rightarrow> h \<noteq> []) then Inl (sp_error s
              (''the plugin returned '' @ bq ''headers'' @ '', which a CMF tool call cannot carry''))
            else Inr (ToolCallPart (c\<lparr> tc_name := tpre_name legacy,
                   tc_arguments := (case tpre_args legacy of None \<Rightarrow> [] | Some a \<Rightarrow> a) \<rparr>)))
      | (ShToolPostInvoke, ToolResultPart c) \<Rightarrow>
          rbind (sp_parse M s de_tool_post modified) (\<lambda>legacy.
            if tr_is_error c \<and> \<not> result_says_error (tpost_result legacy) then Inl (sp_error s
              (''the plugin cleared '' @ bq ''isError'' @ '' on an error tool result, and the CMF ''
               @ bq ''is_error'' @ '' flag is not mapped back''))
            else Inr (ToolResultPart (c\<lparr> tr_is_error := tr_is_error c \<or> result_says_error (tpost_result legacy),
                   tr_tool_name := tpost_name legacy, tr_content := tpost_result legacy \<rparr>)))
      | (ShPromptPreFetch, PromptRequestPart c) \<Rightarrow>
          rbind (sp_parse M s de_prompt_pre modified) (\<lambda>legacy.
            Inr (PromptRequestPart (c\<lparr> prq_name := ppre_prompt_id legacy,
              prq_arguments := map (\<lambda>(k, v). (k, JString v))
                (case ppre_args legacy of None \<Rightarrow> [] | Some a \<Rightarrow> a) \<rparr>)))
      | (ShPromptPostFetch, PromptResultPart name messages rendered error_message is_error rest) \<Rightarrow>
          rbind (sp_parse M s de_prompt_post modified) (\<lambda>legacy.
          rbind (messages_from_legacy M s (ppost_result legacy) messages) (\<lambda>ms.
            Inr (PromptResultPart (ppost_prompt_id legacy) ms rendered error_message is_error rest)))
      | (ShResourcePreFetch, ResourcePart c) \<Rightarrow>
          rbind (resource_pre_uri M s modified) (\<lambda>uri.
            if uri \<noteq> rs_uri c \<and> (is_embedded M c \<or> rs_mime_type c \<noteq> None \<or> rs_size_bytes c \<noteq> None)
            then Inl (sp_error s
              (''the plugin rewrote the URI of a resource that carries content, mime_type or size_bytes ''
               @ ''from the original URI''))
            else Inr (ResourcePart (c\<lparr> rs_uri := uri \<rparr>)))
      | (ShResourcePreFetch, ResourceRefPart c) \<Rightarrow>
          rbind (resource_pre_uri M s modified) (\<lambda>uri. Inr (ResourceRefPart (c\<lparr> rr_uri := uri \<rparr>)))
      | (ShResourcePostFetch, ResourcePart c) \<Rightarrow>
          rbind (apply_resource_post M s c modified) (\<lambda>c. Inr (ResourcePart c))
      | _ \<Rightarrow> Inl (sp_error s ''the original content part changed kind''))"

definition apply_modified ::
  "'o cmf \<Rightarrow> 'o ShimmedPayload \<Rightarrow> json \<Rightarrow> HostError + 'o MessagePayload" where
  "apply_modified M s modified =
     (let original = sp_original s; m = message original in
      rbind (ok_or (sp_error s ''the original content part is gone'')
               (if sp_part s < length (content m) then Some (content m ! sp_part s) else None)) (\<lambda>part.
      rbind (apply_part M s modified part) (\<lambda>part'.
        Inr (original\<lparr> message := Message (role m) ((content m)[sp_part s := part']) (message_rest m) \<rparr>))))"

section \<open>What the shim accepts\<close>

lemma to_legacy_Inr:
  assumes "to_legacy M h (Some p) = Inr s"
  shows "for_hook h = Some (sp_shim s)"
    and "candidates (sp_shim s) (content (message p)) = [sp_part s]"
    and "hidden_sibling (sp_shim s) (sp_part s) (content (message p)) = None"
    and "legacy_json M (shim_error h (legacy_hook (sp_shim s))) (sp_shim s)
           (content (message p) ! sp_part s) = Inr (sp_json s)"
    and "sp_original s = p"
proof -
  from assms obtain shim where shim: "for_hook h = Some shim"
    by (cases "for_hook h") (simp_all add: to_legacy_def)
  let ?parts = "content (message p)"
  from assms shim obtain part where c: "candidates shim ?parts = [part]"
    by (simp add: to_legacy_def Let_def split: list.splits)
  with assms shim have sib: "hidden_sibling shim part ?parts = None"
    by (cases "hidden_sibling shim part ?parts") (simp_all add: to_legacy_def Let_def)
  from assms shim c sib obtain j where
    j: "legacy_json M (shim_error h (legacy_hook shim)) shim (?parts ! part) = Inr j" and
    s: "s = \<lparr> sp_shim = shim, sp_hook_name = h, sp_original = p, sp_part = part, sp_json = j \<rparr>"
    by (auto simp: to_legacy_def Let_def)
  from s have eqs: "sp_shim s = shim" "sp_part s = part" "sp_json s = j" "sp_original s = p" by simp_all
  show "for_hook h = Some (sp_shim s)" "candidates (sp_shim s) ?parts = [sp_part s]"
    "hidden_sibling (sp_shim s) (sp_part s) ?parts = None"
    "legacy_json M (shim_error h (legacy_hook (sp_shim s))) (sp_shim s) (?parts ! sp_part s) = Inr (sp_json s)"
    "sp_original s = p"
    using shim c sib j by (simp_all only: eqs)
qed

lemma candidates_single:
  assumes "candidates shim parts = [i]"
  shows "i < length parts" "shim_matches shim (parts ! i)"
    "\<And>j. j < length parts \<Longrightarrow> shim_matches shim (parts ! j) \<Longrightarrow> j = i"
proof -
  have set: "set (candidates shim parts) = {j. j < length parts \<and> shim_matches shim (parts ! j)}"
    by (auto simp: candidates_def)
  with assms have "{j. j < length parts \<and> shim_matches shim (parts ! j)} = {i}" by simp
  then show "i < length parts" "shim_matches shim (parts ! i)"
    "\<And>j. j < length parts \<Longrightarrow> shim_matches shim (parts ! j) \<Longrightarrow> j = i" by auto
qed

lemma hidden_sibling_None:
  assumes "hidden_sibling shim i parts = None" "is_post shim" "j < length parts" "j \<noteq> i"
  shows "\<not> carries_content (parts ! j)"
  using assms by (auto simp: hidden_sibling_def find_None_iff)

text \<open>C22: The shim dispatches a hook only when nothing is hidden from the plugin. The hook has a legacy
  equivalent (so the LLM hooks are always refused), the message holds exactly one part of the kind
  the legacy payload is built from, and on a post hook no other part carries content.\<close>

theorem to_legacy_shows_everything:
  assumes "to_legacy M h (Some p) = Inr s"
  shows "h \<notin> {''cmf.llm_input'', ''cmf.llm_output''} \<and>
    (\<exists>shim. for_hook h = Some shim \<and> sp_part s < length (content (message p)) \<and>
      shim_matches shim (content (message p) ! sp_part s) \<and>
      (\<forall>j < length (content (message p)). j = sp_part s \<or>
         \<not> shim_matches shim (content (message p) ! j) \<and>
         (\<not> is_post shim \<or> \<not> carries_content (content (message p) ! j))))"
proof -
  note * = to_legacy_Inr [OF assms]
  have "for_hook ''cmf.llm_input'' = None" "for_hook ''cmf.llm_output'' = None"
    by (simp_all add: for_hook_def SHIMMED_HOOKS_def)
  with *(1) have "h \<notin> {''cmf.llm_input'', ''cmf.llm_output''}" by auto
  with * candidates_single [OF *(2)] hidden_sibling_None [OF *(3)] show ?thesis by blast
qed

section \<open>Round trip\<close>

lemma string_args_back: "string_args err m = Inr args \<Longrightarrow> map (\<lambda>(k, v). (k, JString v)) args = m"
proof (induction m arbitrary: args)
  case (Cons kv m)
  obtain k v where kv: "kv = (k, v)" by fastforce
  from Cons kv show ?case by (cases v) auto
qed simp

lemma messages_back:
  assumes "role_law M"
  shows "legacy_messages M err i ms = Inr js \<Longrightarrow>
    (\<forall>j < length ms. i + j < length original \<and> original ! (i + j) = ms ! j) \<Longrightarrow>
    messages_loop M s original i js = Inr ms"
proof (induction ms arbitrary: i js)
  case (Cons m ms)
  from Cons.prems(1) obtain tx js' where m: "content m = [Text tx]" and
    js': "legacy_messages M err (Suc i) ms = Inr js'" and
    js: "js = JObject [(''role'', ser_role M (role m)),
        (''content'', JObject [(''type'', JString ''text''), (''text'', JString tx)])] # js'"
    by (auto split: list.splits ContentPart.splits)
  have orig: "i < length original" "original ! i = m"
    using Cons.prems(2) by force+
  have "\<forall>j < length ms. Suc i + j < length original \<and> original ! (Suc i + j) = ms ! j"
    using Cons.prems(2) by force
  with Cons.IH js' have rest: "messages_loop M s original (Suc i) js' = Inr ms" by blast
  have "message_from_legacy M s original i (hd js) = Inr (Message (role m) [Text tx] (message_rest m))"
    using assms orig by (simp add: message_from_legacy_def js message_text_def role_law_def)
  with js rest m show ?case by (cases m) simp
qed simp

lemma nullable_opt_string [simp]: "nullable_string (opt_string x) = Some x"
  by (cases x) (simp_all add: nullable_string_def opt_string_def)

text \<open>A tool result whose content says it is an error has its flag set.\<close>

definition error_flag_consistent :: "'o ContentPart \<Rightarrow> bool" where
  "error_flag_consistent part =
     (case part of ToolResultPart c \<Rightarrow> \<not> result_says_error (tr_content c) \<or> tr_is_error c | _ \<Rightarrow> True)"

text \<open>The part with its flag set when its content says it is an error, and the message with that done
  to part \<open>i\<close>.\<close>

definition with_error_flag :: "'o ContentPart \<Rightarrow> 'o ContentPart" where
  "with_error_flag part =
     (case part of
        ToolResultPart c \<Rightarrow> ToolResultPart (c\<lparr> tr_is_error := tr_is_error c \<or> result_says_error (tr_content c) \<rparr>)
      | _ \<Rightarrow> part)"

definition flag_part :: "nat \<Rightarrow> 'o MessagePayload \<Rightarrow> 'o MessagePayload" where
  "flag_part i p = (let m = message p in p\<lparr> message :=
     Message (role m) ((content m)[i := with_error_flag (content m ! i)]) (message_rest m) \<rparr>)"

lemma with_error_flag_id: "with_error_flag part = part \<longleftrightarrow> error_flag_consistent part"
proof (cases part)
  case (ToolResultPart c)
  then show ?thesis by (cases c) (auto simp: with_error_flag_def error_flag_consistent_def)
qed (simp_all add: with_error_flag_def error_flag_consistent_def)

lemma legacy_json_cases:
  assumes "legacy_json M err sh part = Inr j"
  obtains
    (ToolPre) c where "sh = ShToolPreInvoke" "part = ToolCallPart c"
      "j = ser_tool_pre \<lparr> tpre_name = tc_name c, tpre_args = Some (tc_arguments c), tpre_headers = None \<rparr>"
  | (ToolPost) c where "sh = ShToolPostInvoke" "part = ToolResultPart c"
      "\<not> tr_is_error c \<or> result_says_error (tr_content c)"
      "j = ser_tool_post \<lparr> tpost_name = tr_tool_name c, tpost_result = tr_content c \<rparr>"
  | (PromptPre) c args where "sh = ShPromptPreFetch" "part = PromptRequestPart c"
      "string_args err (prq_arguments c) = Inr args"
      "j = ser_prompt_pre \<lparr> ppre_prompt_id = prq_name c, ppre_args = Some args \<rparr>"
  | (PromptPost) n ms a b e r js where "sh = ShPromptPostFetch" "part = PromptResultPart n ms a b e r"
      "legacy_messages M err 0 ms = Inr js"
      "j = ser_prompt_post \<lparr> ppost_prompt_id = n,
         ppost_result = JObject [(''messages'', JArray js), (''description'', JNull)] \<rparr>"
  | (ResourcePre) c where "sh = ShResourcePreFetch" "part = ResourcePart c"
      "j = ser_resource_pre \<lparr> rpre_uri = rs_uri c, rpre_metadata = None \<rparr>"
  | (ResourceRefPre) c where "sh = ShResourcePreFetch" "part = ResourceRefPart c"
      "j = ser_resource_pre \<lparr> rpre_uri = rr_uri c, rpre_metadata = None \<rparr>"
  | (ResourcePost) c where "sh = ShResourcePostFetch" "part = ResourcePart c"
      "j = ser_resource_post \<lparr> rpost_uri = rs_uri c,
         rpost_content = JObject [(''type'', JString ''resource''),
           (''id'', JString (rs_resource_request_id c)), (''uri'', JString (rs_uri c)),
           (''mime_type'', opt_string (rs_mime_type c)), (''text'', opt_string (rs_content c))] \<rparr>"
  using assms
  by (cases sh; cases part) (auto simp: legacy_json_def split: if_splits)

lemma apply_part_back:
  assumes "role_law M" "legacy_json M err (sp_shim s) part = Inr j"
  shows "apply_part M s j part = Inr (with_error_flag part)"
  using assms(2)
proof (cases rule: legacy_json_cases)
  case (ToolPre c)
  then show ?thesis by (simp add: with_error_flag_def apply_part_def sp_parse_def tool_pre.round_trip)
next
  case (ToolPost c)
  then show ?thesis by (auto simp: apply_part_def sp_parse_def tool_post.round_trip with_error_flag_def)
next
  case (PromptPre c args)
  then show ?thesis by (simp add: with_error_flag_def apply_part_def sp_parse_def prompt_pre.round_trip string_args_back)
next
  case (PromptPost n ms a b e r js)
  then show ?thesis
    by (simp add: with_error_flag_def apply_part_def sp_parse_def prompt_post.round_trip messages_from_legacy_def
        is_null_def messages_back [OF assms(1)])
next
  case (ResourcePre c)
  then show ?thesis
    by (simp add: with_error_flag_def apply_part_def resource_pre_uri_def sp_parse_def resource_pre.round_trip)
next
  case (ResourceRefPre c)
  then show ?thesis
    by (simp add: with_error_flag_def apply_part_def resource_pre_uri_def sp_parse_def resource_pre.round_trip)
next
  case (ResourcePost c)
  then show ?thesis
    by (simp add: with_error_flag_def apply_part_def apply_resource_post_def sp_parse_def resource_post.round_trip
        resource_fields_def Let_def)
qed

text \<open>C21: What mapping the legacy payload the shim sent, unmodified, back onto the message gives,
  for every hook and part the shim accepts: the dispatched message with the error flag of the
  shown part set when its content says it is an error. So nothing is lost, and the message comes
  back exactly as dispatched if and only if the shown part is not a tool result that says
  \<^verbatim>\<open>isError\<close> in its content without carrying the flag.\<close>

theorem shim_round_trip:
  assumes "role_law M" "to_legacy M h (Some p) = Inr s"
  shows "apply_modified M s (sp_json s) = Inr (flag_part (sp_part s) p) \<and>
    (flag_part (sp_part s) p = p \<longleftrightarrow> error_flag_consistent (content (message p) ! sp_part s))"
proof -
  note * = to_legacy_Inr [OF assms(2)]
  note i = candidates_single(1) [OF *(2)]
  let ?part = "content (message p) ! sp_part s"
  have "apply_part M s (sp_json s) ?part = Inr (with_error_flag ?part)"
    by (rule apply_part_back [OF assms(1) *(4)])
  with i *(5) have "apply_modified M s (sp_json s) = Inr (flag_part (sp_part s) p)"
    by (simp add: apply_modified_def flag_part_def Let_def)
  moreover have "flag_part (sp_part s) p = p \<longleftrightarrow> with_error_flag ?part = ?part"
  proof
    assume "flag_part (sp_part s) p = p"
    then have "content (message (flag_part (sp_part s) p)) = content (message p)" by simp
    then have "(content (message p))[sp_part s := with_error_flag ?part] = content (message p)"
      by (simp add: flag_part_def Let_def)
    then show "with_error_flag ?part = ?part" using i by (metis nth_list_update_eq)
  next
    assume "with_error_flag ?part = ?part"
    then show "flag_part (sp_part s) p = p"
      by (cases p, cases "message p") (simp add: flag_part_def Let_def list_update_id)
  qed
  ultimately show ?thesis by (simp add: with_error_flag_id)
qed

text \<open>A modified payload can change nothing but the one part the plugin was shown: the role, the
  other parts, their order and number and the rest of the payload stay as dispatched.\<close>

theorem apply_modified_frame:
  assumes "apply_modified M s modified = Inr q"
  shows "role (message q) = role (message (sp_original s)) \<and>
    message_rest (message q) = message_rest (message (sp_original s)) \<and>
    payload_rest q = payload_rest (sp_original s) \<and>
    length (content (message q)) = length (content (message (sp_original s))) \<and>
    (\<forall>i. i = sp_part s \<or> content (message q) ! i = content (message (sp_original s)) ! i)"
  using assms by (auto simp: apply_modified_def Let_def nth_list_update split: if_splits)

section \<open>Instances\<close>

definition json_cmf :: "json cmf" where
  "json_cmf = \<lparr> ser_role = (\<lambda>r. r), de_role = Some, is_embedded = (\<lambda>r. rs_content r \<noteq> None),
     text_message = (\<lambda>r t. Message r [Text t] JNull), serde_error = (\<lambda>_. ''bad'') \<rparr>"

definition sample_call :: "json ToolCall" where
  "sample_call = \<lparr> tc_name = ''rm'', tc_arguments = [(''path'', JString ''x'')], tc_namespace = None,
     tc_rest = JNull \<rparr>"

definition sample_message :: "json MessagePayload" where
  "sample_message = \<lparr> message = Message (JString ''user'')
     [Thinking ''hmm'', ToolCallPart sample_call] JNull, payload_rest = JNull \<rparr>"

definition sample_shimmed :: "json ShimmedPayload" where
  "sample_shimmed = \<lparr> sp_shim = ShToolPreInvoke, sp_hook_name = ''cmf.tool_pre_invoke'',
     sp_original = sample_message, sp_part = 1,
     sp_json = ser_tool_pre \<lparr> tpre_name = ''rm'', tpre_args = Some [(''path'', JString ''x'')],
       tpre_headers = None \<rparr> \<rparr>"

lemma sample_to_legacy:
  "to_legacy json_cmf ''cmf.tool_pre_invoke'' (Some sample_message) = Inr sample_shimmed"
  by (simp add: to_legacy_def for_hook_def SHIMMED_HOOKS_def sample_message_def candidates_def
      hidden_sibling_def legacy_json_def sample_call_def is_set_def sample_shimmed_def Let_def)

theorem to_legacy_shows_everything_witness:
  "shim_matches ShToolPreInvoke (content (message sample_message) ! sp_part sample_shimmed)"
  using to_legacy_shows_everything [OF sample_to_legacy]
  by (simp add: for_hook_def SHIMMED_HOOKS_def)

theorem shim_round_trip_witness:
  "apply_modified json_cmf sample_shimmed (sp_json sample_shimmed) = Inr sample_message"
proof -
  have "error_flag_consistent (content (message sample_message) ! sp_part sample_shimmed)"
    by (simp add: sample_message_def sample_shimmed_def error_flag_consistent_def)
  with shim_round_trip [OF _ sample_to_legacy] show ?thesis by (simp add: role_law_def json_cmf_def)
qed

theorem apply_modified_frame_witness:
  "\<exists>q. apply_modified json_cmf sample_shimmed
        (JObject [(''name'', JString ''ls'')]) = Inr q \<and> length (content (message q)) = 2"
proof -
  let ?m = "JObject [(''name'', JString ''ls'')]"
  obtain q where q: "apply_modified json_cmf sample_shimmed ?m = Inr q"
    by (simp add: apply_modified_def sample_shimmed_def sample_message_def apply_part_def
        sp_parse_def de_tool_pre_def struct_fields_def req_def opt_def opt_of_def Let_def)
  from apply_modified_frame [OF q] q show ?thesis
    by (simp add: sample_shimmed_def sample_message_def)
qed

end
