(* ===== verification/Conversion.thy ===== *)
theory Conversion
  imports Extensions_Wire Cmf_Shim
begin

text \<open>
  Payload and result conversion at the worker boundary (\<^verbatim>\<open>conversion.rs\<close>): an erased
  payload is one of the concrete types the downcast chain tests for; a returned payload is
  re-erased as the type of its hook; a response becomes the four decision-bearing fields the
  executor consumes.
\<close>

section \<open>Erased payloads\<close>

datatype 'o payload =
    PMessage "'o MessagePayload"
  | PIdentity "'o IdentityPayload"
  | PDelegation "'o DelegationPayload"
  | PToolPre ToolPreInvokePayload
  | PToolPost ToolPostInvokePayload
  | PPromptPre PromptPreFetchPayload
  | PPromptPost PromptPostFetchPayload
  | PResourcePre ResourcePreFetchPayload
  | PResourcePost ResourcePostFetchPayload
  | PIdentityResolve IdentityResolvePayload
  | PTokenDelegate TokenDelegatePayload
  | PGeneric json
  | PForeign 'o

text \<open>The engine as this host uses it: extensions, messages and the CMF message's own codec.\<close>

record 'o host_env =
  env_engine :: "'o engine"
  env_cmf :: "'o cmf"
  ser_message :: "'o MessagePayload \<Rightarrow> string + json"
  de_message :: "json \<Rightarrow> 'o MessagePayload option"

definition message_law :: "'o host_env \<Rightarrow> bool" where
  "message_law H \<longleftrightarrow> (\<forall>m j. ser_message H m = Inr j \<longrightarrow> de_message H j = Some m)"

definition serialize_payload :: "'o host_env \<Rightarrow> 'o payload \<Rightarrow> HostError + json" where
  "serialize_payload H p =
     (case p of
        PIdentity identity \<Rightarrow> identity_to_worker (env_engine H) identity
      | PDelegation delegation \<Rightarrow> delegation_to_worker (env_engine H) delegation
      | PMessage m \<Rightarrow>
          (case ser_message H m of
             Inl e \<Rightarrow> Inl (Protocol (''could not serialize a MessagePayload payload: '' @ e))
           | Inr j \<Rightarrow> Inr j)
      | PToolPre q \<Rightarrow> Inr (ser_tool_pre q)
      | PToolPost q \<Rightarrow> Inr (ser_tool_post q)
      | PPromptPre q \<Rightarrow> Inr (ser_prompt_pre q)
      | PPromptPost q \<Rightarrow> Inr (ser_prompt_post q)
      | PResourcePre q \<Rightarrow> Inr (ser_resource_pre q)
      | PResourcePost q \<Rightarrow> Inr (ser_resource_post q)
      | PIdentityResolve q \<Rightarrow> Inr (ser_identity q)
      | PTokenDelegate q \<Rightarrow> Inr (ser_delegate q)
      | PGeneric v \<Rightarrow> Inr v
      | PForeign _ \<Rightarrow> Inl (Protocol
          (''payload type is not one this host can forward to a Python worker (expected a CMF message ''
           @ ''payload, a PPE identity or delegation payload, a legacy typed payload, or the generic ''
           @ ''payload)'')))"

definition mismatch :: "'o host_env \<Rightarrow> string \<Rightarrow> json \<Rightarrow> HostError" where
  "mismatch H hook_name v =
     Protocol (''worker returned a modified payload that does not match hook '' @ sq hook_name @ '': ''
       @ serde_error (env_cmf H) v)"

definition deserialize_payload :: "'o host_env \<Rightarrow> string \<Rightarrow> json \<Rightarrow> HostError + 'o payload" where
  "deserialize_payload H hook_name v =
     (let parse = ok_or (mismatch H hook_name v) in
      case payload_kind_for_hook hook_name of
        CmfMessage \<Rightarrow> parse (map_option PMessage (de_message H v))
      | ToolPreInvoke \<Rightarrow> parse (map_option PToolPre (de_tool_pre v))
      | ToolPostInvoke \<Rightarrow> parse (map_option PToolPost (de_tool_post v))
      | PromptPreFetch \<Rightarrow> parse (map_option PPromptPre (de_prompt_pre v))
      | PromptPostFetch \<Rightarrow> parse (map_option PPromptPost (de_prompt_post v))
      | ResourcePreFetch \<Rightarrow> parse (map_option PResourcePre (de_resource_pre v))
      | ResourcePostFetch \<Rightarrow> parse (map_option PResourcePost (de_resource_post v))
      | IdentityResolve \<Rightarrow> parse (map_option PIdentityResolve (de_identity v))
      | TokenDelegate \<Rightarrow> parse (map_option PTokenDelegate (de_delegate v))
      | Generic \<Rightarrow> Inr (PGeneric v))"

section \<open>Results\<close>

record 'o ErasedResultFields =
  continue_processing :: bool
  modified_payload :: "'o payload option"
  modified_extensions :: "'o OwnedExtensions option"
  violation :: "PluginViolation option"

definition parse_violation :: "json \<Rightarrow> HostError + PluginViolation" where
  "parse_violation raw =
     rbind (ok_or (Protocol ''worker returned a violation that is not a JSON object'') (as_object raw))
       (\<lambda>obj.
          let str = (\<lambda>k. Option.bind (obj_get obj k) as_str);
              v = new_violation (case str ''code'' of Some c \<Rightarrow> c | None \<Rightarrow> [])
                    (case str ''reason'' of Some r \<Rightarrow> r | None \<Rightarrow> []);
              v = v\<lparr> pv_description := str ''description'' \<rparr>;
              v = (case Option.bind (obj_get obj ''details'') as_object of
                     Some d \<Rightarrow> v\<lparr> pv_details := d \<rparr> | None \<Rightarrow> v);
              num = (case obj_get obj ''mcp_error_code'' of
                       Some n \<Rightarrow> Some n | None \<Rightarrow> obj_get obj ''proto_error_code'')
          in Inr (v\<lparr> pv_proto_error_code := Option.bind num as_i64 \<rparr>))"

definition optional :: "json \<Rightarrow> string \<Rightarrow> (json \<Rightarrow> 'e + 'a) \<Rightarrow> 'e + 'a option" where
  "optional response k f =
     (case jget response k of
        None \<Rightarrow> Inr None
      | Some raw \<Rightarrow> if is_null raw then Inr None else rbind (f raw) (\<lambda>x. Inr (Some x)))"

definition response_to_result ::
  "'o host_env \<Rightarrow> string \<Rightarrow> json \<Rightarrow> 'o Extensions \<Rightarrow> HostError + 'o ErasedResultFields" where
  "response_to_result H hook_name response inbound =
     (let continue = (case Option.bind (jget response ''continue_processing'') as_bool of
                        Some b \<Rightarrow> b | None \<Rightarrow> True) in
      rbind (optional response ''violation'' parse_violation) (\<lambda>v.
      rbind (optional response ''modified_payload'' (deserialize_payload H hook_name)) (\<lambda>p.
      rbind (case jget response MODIFIED_EXTENSIONS_FIELD of
               None \<Rightarrow> Inr None
             | Some raw \<Rightarrow> if is_null raw then Inr None
                          else owned_from_returned_slot (env_engine H) raw inbound) (\<lambda>x.
      Inr \<lparr> continue_processing = continue, modified_payload = p, modified_extensions = x,
            violation = v \<rparr>))))"

section \<open>Payloads keep their type\<close>

fun payload_kind :: "'o payload \<Rightarrow> PayloadKind option" where
  "payload_kind (PMessage _) = Some CmfMessage"
| "payload_kind (PToolPre _) = Some ToolPreInvoke"
| "payload_kind (PToolPost _) = Some ToolPostInvoke"
| "payload_kind (PPromptPre _) = Some PromptPreFetch"
| "payload_kind (PPromptPost _) = Some PromptPostFetch"
| "payload_kind (PResourcePre _) = Some ResourcePreFetch"
| "payload_kind (PResourcePost _) = Some ResourcePostFetch"
| "payload_kind (PIdentityResolve _) = Some IdentityResolve"
| "payload_kind (PTokenDelegate _) = Some TokenDelegate"
| "payload_kind (PGeneric _) = Some Generic"
| "payload_kind _ = None"

lemma deserialize_kind:
  "deserialize_payload H h v = Inr p \<Longrightarrow> payload_kind p = Some (payload_kind_for_hook h)"
  by (auto simp: deserialize_payload_def Let_def split: PayloadKind.splits)

definition delegate_payload_ok :: "'o payload \<Rightarrow> bool" where
  "delegate_payload_ok p = (case p of PTokenDelegate q \<Rightarrow> delegate_ok q | _ \<Rightarrow> True)"

text \<open>A payload survives the boundary with its type. What a worker returns for a hook is re-erased
  as the type the executor expects for that hook, and a payload of the hook's type that is sent
  and echoed back unchanged is the payload that was dispatched.\<close>

theorem payload_round_trip:
  assumes "message_law H" "payload_kind p = Some (payload_kind_for_hook h)" "delegate_payload_ok p"
    and "serialize_payload H p = Inr j"
  shows "deserialize_payload H h j = Inr p"
proof (cases p)
  case (PMessage m)
  with assms show ?thesis
    by (auto simp: serialize_payload_def deserialize_payload_def message_law_def split: sum.splits)
next
  case (PTokenDelegate q)
  with assms show ?thesis
    by (auto simp: serialize_payload_def deserialize_payload_def delegate_payload_ok_def
        eq_commute [of _ "payload_kind_for_hook h"] delegate.round_trip)
qed (use assms in \<open>auto simp: serialize_payload_def deserialize_payload_def
  eq_commute [of _ "payload_kind_for_hook h"] tool_pre.round_trip tool_post.round_trip
  prompt_pre.round_trip prompt_post.round_trip resource_pre.round_trip resource_post.round_trip
  identity.round_trip\<close>)

definition sample_env :: "json host_env" where
  "sample_env =
     \<lparr> env_engine = sample_engine, env_cmf = json_cmf,
       ser_message = (\<lambda>m. if m = sample_message then Inr (JString ''sample'') else Inl ''unsupported''),
       de_message = (\<lambda>v. if v = JString ''sample'' then Some sample_message else None) \<rparr>"

lemma kind_tool_pre: "payload_kind_for_hook ''cmf.tool_pre_invoke'' = CmfMessage"
  by (simp add: payload_kind_for_hook_def lookup_route_def HOOK_ROUTES_def route_def)

theorem payload_round_trip_witness:
  "deserialize_payload sample_env ''cmf.tool_pre_invoke'' (JString ''sample'')
     = Inr (PMessage sample_message)"
  by (rule payload_round_trip)
     (auto simp: message_law_def sample_env_def kind_tool_pre delegate_payload_ok_def
       serialize_payload_def)

section \<open>Decisions\<close>

lemma optional_Inr:
  "optional r k f = Inr x \<Longrightarrow>
     (case jget r k of None \<Rightarrow> x = None
      | Some raw \<Rightarrow> (raw = JNull \<and> x = None) \<or> (raw \<noteq> JNull \<and> (\<exists>y. f raw = Inr y \<and> x = Some y)))"
  by (auto simp: optional_def is_null_def split: option.splits if_splits)

text \<open>A deny is never softened. When the conversion succeeds, processing continues unless the
  response says false; a violation in the response is present in the result, with its code and
  reason defaulted rather than rejected; and a returned payload, if any, has the hook's type.\<close>

theorem response_decision_preserved:
  assumes "response_to_result H h r x = Inr f"
  shows "(continue_processing f \<longleftrightarrow> jget r ''continue_processing'' \<noteq> Some (JBool False)) \<and>
    (violation f = None \<longleftrightarrow> jget r ''violation'' \<in> {None, Some JNull}) \<and>
    (modified_payload f = None \<longleftrightarrow> jget r ''modified_payload'' \<in> {None, Some JNull}) \<and>
    (case modified_payload f of None \<Rightarrow> True
     | Some p \<Rightarrow> payload_kind p = Some (payload_kind_for_hook h))"
proof -
  from assms obtain v p w where *: "optional r ''violation'' parse_violation = Inr v"
    "optional r ''modified_payload'' (deserialize_payload H h) = Inr p"
    "f = \<lparr> continue_processing = (case Option.bind (jget r ''continue_processing'') as_bool of
        Some b \<Rightarrow> b | None \<Rightarrow> True), modified_payload = p, modified_extensions = w, violation = v \<rparr>"
    by (auto simp: response_to_result_def Let_def)
  have "(case Option.bind c as_bool of Some b \<Rightarrow> b | None \<Rightarrow> True) \<longleftrightarrow> c \<noteq> Some (JBool False)" for c
    by (cases c) (auto split: option.splits elim: as_bool.elims)
  moreover have "v = None \<longleftrightarrow> jget r ''violation'' \<in> {None, Some JNull}"
    using optional_Inr [OF *(1)] by (auto split: option.splits)
  moreover have "p = None \<longleftrightarrow> jget r ''modified_payload'' \<in> {None, Some JNull}"
    using optional_Inr [OF *(2)] by (auto split: option.splits)
  moreover have "case p of None \<Rightarrow> True | Some p \<Rightarrow> payload_kind p = Some (payload_kind_for_hook h)"
    using optional_Inr [OF *(2)] by (auto split: option.splits dest: deserialize_kind)
  ultimately show ?thesis using *(3) by simp
qed

lemma deny_response:
  "\<exists>f. response_to_result sample_env ''cmf.tool_pre_invoke''
     (JObject [(''continue_processing'', JBool False), (''violation'', JObject [])])
     no_extensions = Inr f"
  by (simp add: response_to_result_def optional_def is_null_def parse_violation_def
      MODIFIED_EXTENSIONS_FIELD_def Let_def)

theorem response_decision_preserved_witness:
  "\<exists>f. response_to_result sample_env ''cmf.tool_pre_invoke''
      (JObject [(''continue_processing'', JBool False), (''violation'', JObject [])])
      no_extensions = Inr f \<and> \<not> continue_processing f \<and> violation f \<noteq> None"
proof -
  from deny_response obtain f where f: "response_to_result sample_env ''cmf.tool_pre_invoke''
      (JObject [(''continue_processing'', JBool False), (''violation'', JObject [])])
      no_extensions = Inr f" by blast
  from response_decision_preserved [OF f] f show ?thesis by simp
qed

text \<open>A decision that is not a boolean reads as allow: a response whose continue flag is the string
  false, or the number zero, is converted to a result that continues.\<close>

theorem non_boolean_decision_allows:
  "\<forall>d \<in> {JString ''false'', jnat 0}. \<exists>f.
     response_to_result H h (JObject [(''continue_processing'', d)]) x = Inr f \<and> continue_processing f"
  by (auto simp: response_to_result_def optional_def MODIFIED_EXTENSIONS_FIELD_def Let_def)

theorem non_boolean_decision_allows_witness:
  "\<exists>f. response_to_result sample_env ''cmf.tool_pre_invoke''
     (JObject [(''continue_processing'', JString ''false'')]) no_extensions = Inr f \<and>
     continue_processing f"
  using non_boolean_decision_allows [of sample_env "''cmf.tool_pre_invoke''" no_extensions] by blast

text \<open>A null MCP error code hides the protocol error code beside it, although both name the same
  concept and a null stands for an unset field everywhere else in the conversion.\<close>

theorem null_mcp_code_hides_proto_code:
  "(case parse_violation (JObject [(''mcp_error_code'', JNull), (''proto_error_code'', jint n)]) of
      Inr v \<Rightarrow> pv_proto_error_code v = None | Inl _ \<Rightarrow> False) \<and>
   (case parse_violation (JObject [(''proto_error_code'', jint 403)]) of
      Inr v \<Rightarrow> pv_proto_error_code v = Some 403 | Inl _ \<Rightarrow> False)"
  by (simp add: parse_violation_def jint_def Let_def)

end
