(* ===== verification/Credentials.thy ===== *)
theory Credentials
  imports Extensions_Wire "HOL-Library.Char_ord" "HOL-Library.List_Lexorder"
    "HOL-Library.Option_ord" "HOL-Library.Product_Lexorder"
begin

text \<open>
  The gated credential channel (\<^verbatim>\<open>credentials.rs\<close>): which hook and which declared
  capability put a plaintext token on a task, from the payload or from the extensions view, and
  which delegated token is picked. \<open>task_decorator\<close> is the contract of the operations that
  decorate a task: they change one field of the object or fail.
\<close>

section \<open>The credential object\<close>

definition CREDENTIAL_FIELD :: string where
  "CREDENTIAL_FIELD = ''credential''"

definition CAP_READ_INBOUND :: string where
  "CAP_READ_INBOUND = ''read_inbound_credentials''"

definition CAP_READ_DELEGATED :: string where
  "CAP_READ_DELEGATED = ''read_delegated_tokens''"

record InboundCredential =
  ic_token :: string
  ic_source_header :: string
  ic_kind :: string
  ic_headers :: "(string \<times> string) list option"

record DelegatedCredential =
  dc_token :: string
  dc_outbound_header :: string
  dc_audience :: string
  dc_scopes :: "string list"

record CredentialDto =
  dto_inbound :: "InboundCredential option"
  dto_delegated :: "DelegatedCredential option"

text \<open>The derived serialization; an absent option is skipped.\<close>

definition inbound_to_value :: "InboundCredential \<Rightarrow> json" where
  "inbound_to_value c =
     JObject ([(''token'', JString (ic_token c)), (''source_header'', JString (ic_source_header c)),
       (''kind'', JString (ic_kind c))]
       @ (case ic_headers c of None \<Rightarrow> [] | Some h \<Rightarrow> [(''headers'', str_obj h)]))"

definition delegated_to_value :: "DelegatedCredential \<Rightarrow> json" where
  "delegated_to_value c =
     JObject [(''token'', JString (dc_token c)), (''outbound_header'', JString (dc_outbound_header c)),
       (''audience'', JString (dc_audience c)), (''scopes'', JArray (map JString (dc_scopes c)))]"

definition dto_to_value :: "CredentialDto \<Rightarrow> json" where
  "dto_to_value d =
     JObject ((case dto_inbound d of None \<Rightarrow> [] | Some c \<Rightarrow> [(''inbound'', inbound_to_value c)])
       @ (case dto_delegated d of None \<Rightarrow> [] | Some c \<Rightarrow> [(''delegated'', delegated_to_value c)]))"

fun token_kind_wire_name :: "TokenKind \<Rightarrow> string" where
  "token_kind_wire_name Jwt = ''jwt''"
| "token_kind_wire_name Opaque = ''opaque''"
| "token_kind_wire_name SpiffeJwt = ''spiffe_jwt''"
| "token_kind_wire_name Ucan = ''ucan''"
| "token_kind_wire_name TxnToken = ''txn_token''"
| "token_kind_wire_name (OtherKind _) = ''opaque''"

fun token_source_kind :: "'o TokenSource \<Rightarrow> string" where
  "token_source_kind SpiffeJwtSvid = ''spiffe_jwt''"
| "token_source_kind (OtherSource _) = ''opaque''"

definition insert_dto :: "json \<Rightarrow> CredentialDto \<Rightarrow> HostError + json" where
  "insert_dto task dto =
     rbind (ok_or (Protocol ''task must be a JSON object to carry a credential'') (as_object task))
       (\<lambda>obj. Inr (JObject (obj_insert CREDENTIAL_FIELD (dto_to_value dto) obj)))"

section \<open>From the payload\<close>

definition declared :: "string \<Rightarrow> string \<Rightarrow> string" where
  "declared cap hook = ''plugin declared '' @ sq cap @ '' for hook '' @ sq hook"

definition inbound_from_identity :: "'o IdentityPayload \<Rightarrow> string \<Rightarrow> HostError + InboundCredential" where
  "inbound_from_identity identity hook_name =
     rbind (ok_or (Credential (declared CAP_READ_INBOUND hook_name
              @ '' but the identity payload carries no credential, in '' @ bq ''raw_token''
              @ '' or its source header. Refusing to dispatch without the token it asked for''))
            (inbound_token identity))
       (\<lambda>token.
          let source_header = credential_header_name identity;
              headers = (if list_ex (\<lambda>(name, _). eq_ignore_ascii_case name source_header)
                              (ip_headers identity)
                         then ip_headers identity
                         else obj_insert source_header token (ip_headers identity))
          in Inr \<lparr> ic_token = token, ic_source_header = source_header,
                   ic_kind = token_source_kind (ip_source identity), ic_headers = Some headers \<rparr>)"

definition delegated_from_payload :: "'o DelegationPayload \<Rightarrow> string \<Rightarrow> HostError + DelegatedCredential" where
  "delegated_from_payload delegation hook_name =
     (if trim (dp_bearer_token delegation) = [] then
        Inl (Credential (declared CAP_READ_INBOUND hook_name
          @ '' but the delegation payload carries no bearer token. Refusing to dispatch without ''
          @ ''the token it asked for''))
      else Inr \<lparr> dc_token = dp_bearer_token delegation, dc_outbound_header = ''Authorization'',
                 dc_audience = (case dp_target_audience delegation of Some a \<Rightarrow> a | None \<Rightarrow> []),
                 dc_scopes = dp_required_permissions delegation \<rparr>)"

section \<open>From the extensions\<close>

definition inbound_from_token :: "RawInboundToken \<Rightarrow> string \<Rightarrow> HostError + InboundCredential" where
  "inbound_from_token token hook_name =
     (if trim (rit_token token) = [] then
        Inl (Credential (''the inbound token for hook '' @ sq hook_name @ '' is empty '' @ dash
          @ '' refusing to send an empty credential (an empty bearer authenticates nowhere, and a ''
          @ ''plugin may read it as '' @ sq ''no authentication required'' @ '')''))
      else Inr \<lparr> ic_token = rit_token token, ic_source_header = rit_source_header token,
                 ic_kind = token_kind_wire_name (rit_kind token),
                 ic_headers = Some [(rit_source_header token, rit_token token)] \<rparr>)"

definition no_raw_extension :: "string \<Rightarrow> string \<Rightarrow> HostError" where
  "no_raw_extension cap hook_name =
     Credential (declared cap hook_name @ '' but the request carries no raw-credentials extension ''
       @ dash @ '' refusing to dispatch without the token it asked for'')"

text \<open>The preferred roles in order, then whatever the map iterates first.\<close>

definition pick_inbound :: "(TokenRole \<times> RawInboundToken) list \<Rightarrow> RawInboundToken option" where
  "pick_inbound tokens =
     (case List.map_filter (map_of tokens) [RoleUser, RoleClient, RoleCallerWorkload] of
        t # _ \<Rightarrow> Some t
      | [] \<Rightarrow> (case tokens of [] \<Rightarrow> None | (_, t) # _ \<Rightarrow> Some t))"

definition build_inbound :: "'o Extensions \<Rightarrow> string \<Rightarrow> HostError + InboundCredential" where
  "build_inbound x hook_name =
     rbind (ok_or (no_raw_extension CAP_READ_INBOUND hook_name) (x_raw_credentials x)) (\<lambda>raw.
     rbind (ok_or (Credential (declared CAP_READ_INBOUND hook_name
              @ '' but no inbound token is present '' @ dash @ '' refusing to dispatch without it''))
            (pick_inbound (inbound_tokens raw))) (\<lambda>token.
     inbound_from_token token hook_name))"

fun mode_rank :: "DelegationMode \<Rightarrow> nat" where
  "mode_rank OnBehalfOfUser = 0"
| "mode_rank AsThisWorkload = 1"
| "mode_rank (OtherMode _) = 2"

definition delegated_from_token :: "RawDelegatedToken \<Rightarrow> string \<Rightarrow> HostError + DelegatedCredential" where
  "delegated_from_token token hook_name =
     (if trim (rdt_token token) = [] then
        Inl (Credential (''the delegated token for hook '' @ sq hook_name @ '' is empty '' @ dash
          @ '' refusing to send an empty credential''))
      else Inr \<lparr> dc_token = rdt_token token, dc_outbound_header = rdt_outbound_header token,
                 dc_audience = rdt_audience token, dc_scopes = rdt_scopes token \<rparr>)"

definition audience_matches :: "string option \<Rightarrow> DelegationKey \<times> RawDelegatedToken \<Rightarrow> bool" where
  "audience_matches requested kt =
     (case requested of
        Some audience \<Rightarrow> dk_audience (fst kt) = audience \<and> rdt_audience (snd kt) = audience
      | None \<Rightarrow> True)"

text \<open>The comparison of the stable sort: mode rank, then subject, then scopes.\<close>

definition candidate_key ::
  "DelegationKey \<times> RawDelegatedToken \<Rightarrow> nat \<times> string option \<times> string list" where
  "candidate_key kt = (mode_rank (dk_mode (fst kt)), dk_subject_id (fst kt), dk_scopes (fst kt))"

definition sorted_candidates ::
  "(DelegationKey \<times> RawDelegatedToken) list \<Rightarrow> string option
     \<Rightarrow> (DelegationKey \<times> RawDelegatedToken) list" where
  "sorted_candidates tokens requested =
     sort_key candidate_key (filter (audience_matches requested) tokens)"

definition build_delegated ::
  "'o Extensions \<Rightarrow> string \<Rightarrow> string option \<Rightarrow> HostError + DelegatedCredential" where
  "build_delegated x hook_name requested =
     rbind (ok_or (no_raw_extension CAP_READ_DELEGATED hook_name) (x_raw_credentials x)) (\<lambda>raw.
     case sorted_candidates (delegated_tokens raw) requested of
       [] \<Rightarrow> Inl (Credential (declared CAP_READ_DELEGATED hook_name @ '' but no delegated token''
              @ (case requested of Some a \<Rightarrow> '' for audience '' @ sq a | None \<Rightarrow> [])
              @ '' is present '' @ dash @ '' refusing to dispatch without it, and refusing to ''
              @ ''substitute a token minted for a different audience''))
     | (_, token) # _ \<Rightarrow> delegated_from_token token hook_name)"

definition requested_audience :: "json \<Rightarrow> string option" where
  "requested_audience task =
     Option.bind (Option.bind (jget task ''payload'') (\<lambda>p. jget p ''target_audience'')) as_str"

section \<open>Attaching\<close>

definition attach_credential ::
  "json \<Rightarrow> string \<Rightarrow> 'o Extensions \<Rightarrow> string set \<Rightarrow> HostError + json" where
  "attach_credential task hook_name x capabilities =
     (case payload_kind_for_hook hook_name of
        IdentityResolve \<Rightarrow>
          if CAP_READ_INBOUND \<notin> capabilities then Inr task
          else rbind (build_inbound x hook_name) (\<lambda>c.
                 insert_dto task \<lparr> dto_inbound = Some c, dto_delegated = None \<rparr>)
      | TokenDelegate \<Rightarrow>
          if CAP_READ_DELEGATED \<notin> capabilities then Inr task
          else rbind (build_delegated x hook_name (requested_audience task)) (\<lambda>c.
                 insert_dto task \<lparr> dto_inbound = None, dto_delegated = Some c \<rparr>)
      | _ \<Rightarrow> Inr task)"

text \<open>What the downcasts of an erased payload tell apart here.\<close>

datatype 'o payload_view =
    IdentityView "'o IdentityPayload" | DelegationView "'o DelegationPayload" | OtherView

definition attach_credential_for_payload ::
  "json \<Rightarrow> string \<Rightarrow> 'o payload_view \<Rightarrow> 'o Extensions \<Rightarrow> string set \<Rightarrow> HostError + json" where
  "attach_credential_for_payload task hook_name payload x capabilities =
     (case (payload_kind_for_hook hook_name, payload) of
        (IdentityResolve, IdentityView identity) \<Rightarrow>
          if CAP_READ_INBOUND \<in> capabilities
          then rbind (inbound_from_identity identity hook_name) (\<lambda>c.
                 insert_dto task \<lparr> dto_inbound = Some c, dto_delegated = None \<rparr>)
          else Inr task
      | (TokenDelegate, DelegationView delegation) \<Rightarrow>
          if CAP_READ_INBOUND \<in> capabilities
          then rbind (delegated_from_payload delegation hook_name) (\<lambda>c.
                 insert_dto task \<lparr> dto_inbound = None, dto_delegated = Some c \<rparr>)
          else Inr task
      | _ \<Rightarrow> attach_credential task hook_name x capabilities)"

section \<open>The contract of a task decorator\<close>

locale task_decorator =
  fixes decorate :: "json obj \<Rightarrow> 'e + json" and field :: string
  assumes decorate_only:
    "decorate t = Inr r \<Longrightarrow>
       \<exists>m. r = JObject m \<and> jobj.agree_off {field} t m \<and> (obj_ok t \<longrightarrow> obj_ok m)"
begin

lemma decorate_keeps:
  "decorate t = Inr (JObject m) \<Longrightarrow> k \<noteq> field \<Longrightarrow> obj_get m k = obj_get t k"
  using decorate_only [of t "JObject m"] by (auto simp: jobj.agree_off_def)

lemma decorate_object: "decorate t = Inr r \<Longrightarrow> is_object r"
  using decorate_only [of t r] by (auto simp: is_object_def)

end

locale task_pipeline =
  one: task_decorator one f1 + two: task_decorator two f2
  for one two :: "json obj \<Rightarrow> 'e + json" and f1 f2 :: string
begin

lemma pipeline_keeps:
  assumes "rbind (one t) (\<lambda>r. rbind (ok_or e (as_object r)) two) = Inr r"
  shows "\<exists>m. r = JObject m \<and> jobj.agree_off {f1, f2} t m \<and> (obj_ok t \<longrightarrow> obj_ok m)"
proof -
  from assms obtain m where m: "one t = Inr (JObject m)" "two m = Inr r" by auto
  from one.decorate_only [OF m(1)] have "jobj.agree_off {f1} t m" "obj_ok t \<longrightarrow> obj_ok m"
    by auto
  moreover from two.decorate_only [OF m(2)] obtain n where
    "r = JObject n" "jobj.agree_off {f2} m n" "obj_ok m \<longrightarrow> obj_ok n" by auto
  ultimately show ?thesis
    using jobj.agree_off_trans [of "{f1}" t m "{f2}" n] by (auto simp: insert_commute)
qed

end

lemma insert_dto_Inr:
  "insert_dto (JObject t) dto = Inr r \<longleftrightarrow> r = JObject (obj_insert CREDENTIAL_FIELD (dto_to_value dto) t)"
  by (auto simp: insert_dto_def)

lemma attach_credential_Inr:
  "attach_credential (JObject t) h x caps = Inr r \<Longrightarrow>
     r = JObject t \<or> (\<exists>v. r = JObject (obj_insert CREDENTIAL_FIELD v t))"
  by (auto simp: attach_credential_def insert_dto_Inr split: PayloadKind.splits if_splits)

lemma attach_credential_for_payload_Inr:
  "attach_credential_for_payload (JObject t) h p x caps = Inr r \<Longrightarrow>
     r = JObject t \<or> (\<exists>v. r = JObject (obj_insert CREDENTIAL_FIELD v t))"
  by (auto simp: attach_credential_for_payload_def insert_dto_Inr dest: attach_credential_Inr
      split: PayloadKind.splits payload_view.splits if_splits)

interpretation credential_step:
  task_decorator "\<lambda>t. attach_credential_for_payload (JObject t) h p x caps" CREDENTIAL_FIELD
  for h p x caps
  by unfold_locales (auto dest!: attach_credential_for_payload_Inr intro: jobj.agree_off_insrt)

interpretation extensions_step:
  task_decorator "\<lambda>t. attach_extensions E (JObject t) x" EXTENSIONS_FIELD for E x
  by unfold_locales (auto elim!: attach_extensions_Inr intro: jobj.agree_off_insrt)

interpretation dispatch_steps:
  task_pipeline "\<lambda>t. attach_credential_for_payload (JObject t) h p x caps"
    "\<lambda>t. attach_extensions E (JObject t) x" CREDENTIAL_FIELD EXTENSIONS_FIELD
  for h p x caps E
  by unfold_locales

section \<open>The gate\<close>

text \<open>The capability that opens the channel for a hook and a payload.\<close>

definition required_capability :: "string \<Rightarrow> 'o payload_view \<Rightarrow> string option" where
  "required_capability h p =
     (if h = ''identity.resolve'' then Some CAP_READ_INBOUND
      else if h = ''token.delegate'' then
        (case p of DelegationView _ \<Rightarrow> Some CAP_READ_INBOUND | _ \<Rightarrow> Some CAP_READ_DELEGATED)
      else None)"

definition carries_token :: "json \<Rightarrow> bool" where
  "carries_token r \<longleftrightarrow>
     (\<exists>side tok. Option.bind (Option.bind (jget r CREDENTIAL_FIELD) (\<lambda>c. jget c side))
         (\<lambda>c. jget c ''token'') = Some (JString tok) \<and> trim tok \<noteq> [])"

lemma carries_inbound:
  "trim (ic_token c) \<noteq> [] \<Longrightarrow>
     carries_token (JObject (obj_insert CREDENTIAL_FIELD
       (dto_to_value \<lparr> dto_inbound = Some c, dto_delegated = None \<rparr>) t))"
  unfolding carries_token_def
  by (intro exI [of _ "''inbound''"] exI [of _ "ic_token c"])
     (simp add: dto_to_value_def inbound_to_value_def)

lemma carries_delegated:
  "trim (dc_token c) \<noteq> [] \<Longrightarrow>
     carries_token (JObject (obj_insert CREDENTIAL_FIELD
       (dto_to_value \<lparr> dto_inbound = None, dto_delegated = Some c \<rparr>) t))"
  unfolding carries_token_def
  by (intro exI [of _ "''delegated''"] exI [of _ "dc_token c"])
     (simp add: dto_to_value_def delegated_to_value_def)

lemma inbound_token_nonblank: "inbound_token p = Some t \<Longrightarrow> trim t \<noteq> []"
  by (auto simp: inbound_token_def Let_def split: if_splits option.splits)

lemma inbound_from_identity_nonblank:
  "inbound_from_identity p h = Inr c \<Longrightarrow> trim (ic_token c) \<noteq> []"
  by (auto simp: inbound_from_identity_def Let_def dest: inbound_token_nonblank)

lemma delegated_from_payload_nonblank:
  "delegated_from_payload p h = Inr c \<Longrightarrow> trim (dc_token c) \<noteq> []"
  by (auto simp: delegated_from_payload_def split: if_splits)

lemma build_inbound_nonblank: "build_inbound x h = Inr c \<Longrightarrow> trim (ic_token c) \<noteq> []"
  by (auto simp: build_inbound_def inbound_from_token_def split: if_splits)

lemma build_delegated_Inr:
  "build_delegated x h req = Inr c \<longleftrightarrow>
     (\<exists>raw kt rest. x_raw_credentials x = Some raw \<and>
        sorted_candidates (delegated_tokens raw) req = kt # rest \<and>
        delegated_from_token (snd kt) h = Inr c)"
proof (cases "x_raw_credentials x")
  case None
  then show ?thesis by (simp add: build_delegated_def)
next
  case (Some raw)
  then show ?thesis
    by (cases "sorted_candidates (delegated_tokens raw) req")
       (auto simp: build_delegated_def)
qed

lemma build_delegated_nonblank: "build_delegated x h req = Inr c \<Longrightarrow> trim (dc_token c) \<noteq> []"
  by (auto simp: build_delegated_Inr delegated_from_token_def split: if_splits)

lemma kind_credential:
  "payload_kind_for_hook ''identity.resolve'' = IdentityResolve"
  "payload_kind_for_hook ''token.delegate'' = TokenDelegate"
  by (simp_all add: payload_kind_for_hook_def lookup_route_def HOOK_ROUTES_def route_def)

lemma kind_other:
  assumes "h \<noteq> ''identity.resolve''" "h \<noteq> ''token.delegate''"
  shows "payload_kind_for_hook h \<noteq> IdentityResolve" "payload_kind_for_hook h \<noteq> TokenDelegate"
proof -
  from assms have "\<not> is_credential_hook h" by (simp add: credential_hooks_are)
  then show "payload_kind_for_hook h \<noteq> IdentityResolve" "payload_kind_for_hook h \<noteq> TokenDelegate"
    by (simp_all add: is_credential_hook_def)
qed

lemma insert_dto_carries:
  "insert_dto task \<lparr> dto_inbound = Some c, dto_delegated = None \<rparr> = Inr r \<Longrightarrow>
     trim (ic_token c) \<noteq> [] \<Longrightarrow> carries_token r"
  "insert_dto task \<lparr> dto_inbound = None, dto_delegated = Some d \<rparr> = Inr r \<Longrightarrow>
     trim (dc_token d) \<noteq> [] \<Longrightarrow> carries_token r"
  by (auto simp: insert_dto_def carries_inbound carries_delegated)

lemma attach_identity_carries:
  "attach_credential_for_payload task ''identity.resolve'' p x caps = Inr r \<Longrightarrow>
     CAP_READ_INBOUND \<in> caps \<Longrightarrow> carries_token r"
  by (cases p)
     (auto simp: attach_credential_for_payload_def attach_credential_def kind_credential
       dest: insert_dto_carries(1) build_inbound_nonblank inbound_from_identity_nonblank)

lemma attach_delegate_carries:
  "attach_credential_for_payload task ''token.delegate'' p x caps = Inr r \<Longrightarrow>
     required_capability ''token.delegate'' p = Some cap \<Longrightarrow> cap \<in> caps \<Longrightarrow> carries_token r"
  by (cases p)
     (auto simp: attach_credential_for_payload_def attach_credential_def kind_credential
       required_capability_def
       dest: insert_dto_carries(2) build_delegated_nonblank delegated_from_payload_nonblank)

lemma attach_closed:
  assumes "\<And>cap. required_capability h p = Some cap \<Longrightarrow> cap \<notin> caps"
  shows "attach_credential_for_payload task h p x caps = Inr task"
proof (cases "h = ''identity.resolve'' \<or> h = ''token.delegate''")
  case True
  with assms show ?thesis
    by (cases p) (auto simp: attach_credential_for_payload_def attach_credential_def
        kind_credential required_capability_def)
next
  case False
  with kind_other [of h] show ?thesis
    by (cases "payload_kind_for_hook h")
       (simp_all add: attach_credential_for_payload_def attach_credential_def)
qed

text \<open>C2: The credential channel opens only for the two credential hooks and only for a plugin that
  declared the hook's capability; for every other dispatch the task is untouched. When the channel
  is open the result is either an error or a task that carries a token which is not blank, never a
  task without one.\<close>

theorem credential_gate:
  "case required_capability h p of
     None \<Rightarrow> attach_credential_for_payload task h p x caps = Inr task
   | Some cap \<Rightarrow>
       if cap \<notin> caps then attach_credential_for_payload task h p x caps = Inr task
       else (case attach_credential_for_payload task h p x caps of
               Inl _ \<Rightarrow> True | Inr r \<Rightarrow> carries_token r)"
proof (cases "required_capability h p")
  case None
  then have "attach_credential_for_payload task h p x caps = Inr task"
    by (intro attach_closed) simp
  with None show ?thesis by simp
next
  case (Some cap)
  have closed: "attach_credential_for_payload task h p x caps = Inr task" if "cap \<notin> caps"
    using that Some by (intro attach_closed) simp
  have h: "h = ''identity.resolve'' \<and> cap = CAP_READ_INBOUND \<or> h = ''token.delegate''"
    using Some by (auto simp: required_capability_def split: if_splits)
  have "carries_token r" if "cap \<in> caps" "attach_credential_for_payload task h p x caps = Inr r" for r
    using h that Some attach_identity_carries attach_delegate_carries by blast
  with Some closed show ?thesis by (auto split: sum.split)
qed

section \<open>The choice of a delegated token\<close>

lemma sorted_candidates_hd:
  assumes "sorted_candidates tokens req = kt # rest"
  shows "kt \<in> set tokens" "audience_matches req kt"
    "\<And>o'. o' \<in> set tokens \<Longrightarrow> audience_matches req o' \<Longrightarrow> candidate_key kt \<le> candidate_key o'"
proof -
  have set: "set (kt # rest) = {o' \<in> set tokens. audience_matches req o'}"
    using arg_cong [OF assms, of set] by (auto simp: sorted_candidates_def)
  then show "kt \<in> set tokens" "audience_matches req kt" by auto
  have "sorted (map candidate_key (kt # rest))"
    using sorted_sort_key [of candidate_key] assms by (metis sorted_candidates_def)
  then show "candidate_key kt \<le> candidate_key o'"
    if "o' \<in> set tokens" "audience_matches req o'" for o'
    using that set by auto
qed

lemma mode_rank_le: "candidate_key a \<le> candidate_key b \<Longrightarrow>
    mode_rank (dk_mode (fst a)) \<le> mode_rank (dk_mode (fst b))"
  by (auto simp: candidate_key_def)

text \<open>A delegated token that is handed over is one of the request's tokens, minted and keyed for
  the audience the hook was invoked for, and no token for that audience has a preferred mode; in
  particular a workload's own token is never handed over where the user's is available.\<close>

theorem build_delegated_picks:
  assumes "build_delegated x h req = Inr c"
  shows "\<exists>raw key token. x_raw_credentials x = Some raw \<and> (key, token) \<in> set (delegated_tokens raw) \<and>
     dc_token c = rdt_token token \<and> dc_audience c = rdt_audience token \<and> trim (dc_token c) \<noteq> [] \<and>
     (case req of None \<Rightarrow> True | Some a \<Rightarrow> dc_audience c = a \<and> dk_audience key = a) \<and>
     (\<forall>(key', token') \<in> set (delegated_tokens raw).
        audience_matches req (key', token') \<longrightarrow> mode_rank (dk_mode key) \<le> mode_rank (dk_mode key'))"
proof -
  from assms obtain raw key token rest where *: "x_raw_credentials x = Some raw"
    "sorted_candidates (delegated_tokens raw) req = (key, token) # rest"
    "delegated_from_token token h = Inr c"
    by (auto simp: build_delegated_Inr)
  from sorted_candidates_hd [OF *(2)] mode_rank_le
  have "\<forall>o' \<in> set (delegated_tokens raw). audience_matches req o' \<longrightarrow>
      mode_rank (dk_mode key) \<le> mode_rank (dk_mode (fst o'))"
    by fastforce
  with * sorted_candidates_hd(1,2) [OF *(2)] show ?thesis
    by (intro exI [of _ raw] exI [of _ key] exI [of _ token])
       (auto simp: delegated_from_token_def audience_matches_def split: if_splits option.splits)
qed

definition token_for :: "string \<Rightarrow> string \<Rightarrow> DelegationMode \<Rightarrow> string \<Rightarrow> DelegationKey \<times> RawDelegatedToken" where
  "token_for secret audience mode subject =
     (\<lparr> dk_mode = mode, dk_subject_id = Some subject, dk_audience = audience, dk_scopes = [],
        dk_target_name = [] \<rparr>,
      \<lparr> rdt_token = secret, rdt_outbound_header = ''Authorization'', rdt_audience = audience,
        rdt_scopes = [], rdt_expires_at = 0 \<rparr>)"

definition with_delegated :: "(DelegationKey \<times> RawDelegatedToken) list \<Rightarrow> json Extensions" where
  "with_delegated ts =
     no_extensions\<lparr> x_raw_credentials := Some \<lparr> inbound_tokens = [], delegated_tokens = ts \<rparr> \<rparr>"

theorem build_delegated_picks_witness:
  "\<exists>c. build_delegated (with_delegated [token_for ''gw'' ''hr'' AsThisWorkload ''g'',
         token_for ''usr'' ''hr'' OnBehalfOfUser ''u'']) ''token.delegate'' (Some ''hr'') = Inr c \<and>
       dc_audience c = ''hr''"
proof -
  have "trim ''usr'' = ''usr''" by (simp add: trim_visible visible_def)
  then obtain c where c: "build_delegated (with_delegated [token_for ''gw'' ''hr'' AsThisWorkload ''g'',
         token_for ''usr'' ''hr'' OnBehalfOfUser ''u'']) ''token.delegate'' (Some ''hr'') = Inr c"
    by (simp add: build_delegated_def with_delegated_def token_for_def sorted_candidates_def
        audience_matches_def candidate_key_def delegated_from_token_def)
  with build_delegated_picks [OF c] show ?thesis by auto
qed

text \<open>The choice does not depend on the iteration order of the token map, provided the matching
  tokens are told apart by mode rank, subject and scopes.\<close>

theorem build_delegated_order_independent:
  assumes "x_raw_credentials x = Some raw" "x_raw_credentials y = Some raw'"
    and "mset (delegated_tokens raw') = mset (delegated_tokens raw)"
    and "inj_on candidate_key {kt \<in> set (delegated_tokens raw). audience_matches req kt}"
  shows "build_delegated y h req = build_delegated x h req"
proof -
  let ?f = "filter (audience_matches req)"
  have "mset (?f (delegated_tokens raw)) = mset (sort_key candidate_key (?f (delegated_tokens raw')))"
    using assms(3) by (simp add: mset_filter)
  then have "sort_key candidate_key (?f (delegated_tokens raw))
      = sort_key candidate_key (?f (delegated_tokens raw'))"
    using assms(4) by (intro sort_key_inj_key_eq) simp_all
  with assms(1,2) show ?thesis
    by (simp add: build_delegated_def sorted_candidates_def)
qed

theorem build_delegated_order_independent_witness:
  "build_delegated (with_delegated [token_for ''a'' ''hr'' AsThisWorkload ''g'',
       token_for ''b'' ''hr'' OnBehalfOfUser ''u'']) ''token.delegate'' None
   = build_delegated (with_delegated [token_for ''b'' ''hr'' OnBehalfOfUser ''u'',
       token_for ''a'' ''hr'' AsThisWorkload ''g'']) ''token.delegate'' None"
proof -
  let ?a = "token_for ''a'' ''hr'' AsThisWorkload ''g''"
  let ?b = "token_for ''b'' ''hr'' OnBehalfOfUser ''u''"
  let ?raw = "\<lparr> inbound_tokens = [], delegated_tokens = [?b, ?a] \<rparr>"
  let ?raw' = "\<lparr> inbound_tokens = [], delegated_tokens = [?a, ?b] \<rparr>"
  have "candidate_key ?a \<noteq> candidate_key ?b" by (simp add: candidate_key_def token_for_def)
  then have "inj_on candidate_key {kt \<in> set (delegated_tokens ?raw). audience_matches None kt}"
    by (intro inj_onI) (simp, metis)
  then show ?thesis
    by (intro build_delegated_order_independent [where raw = ?raw and raw' = ?raw'])
       (simp_all add: with_delegated_def add_mset_commute)
qed

text \<open>The sort is not a total order on the tokens: with no audience requested, two tokens of one
  mode, subject and scope set for different audiences tie, and which of them is handed over is
  decided by the iteration order of the map.\<close>

theorem build_delegated_tie_follows_map_order:
  "\<exists>ts ts' c c'. mset ts = mset ts' \<and> distinct (map fst ts) \<and>
     build_delegated (with_delegated ts) ''token.delegate'' None = Inr c \<and>
     build_delegated (with_delegated ts') ''token.delegate'' None = Inr c' \<and>
     dc_token c \<noteq> dc_token c' \<and> dc_audience c \<noteq> dc_audience c'"
proof -
  let ?a = "token_for ''a'' ''hr'' OnBehalfOfUser ''u''" and ?b = "token_for ''b'' ''pay'' OnBehalfOfUser ''u''"
  have "trim ''a'' = ''a''" "trim ''b'' = ''b''" by (simp_all add: trim_visible visible_def)
  then show ?thesis
    by (intro exI [of _ "[?a, ?b]"] exI [of _ "[?b, ?a]"])
       (simp add: build_delegated_def with_delegated_def token_for_def sorted_candidates_def
         audience_matches_def candidate_key_def delegated_from_token_def)
qed

section \<open>Errors name no token\<close>

text \<open>\<open>map_tokens f\<close> replaces the plaintext of every token.\<close>

definition map_inbound :: "(string \<Rightarrow> string) \<Rightarrow> RawInboundToken \<Rightarrow> RawInboundToken" where
  "map_inbound f t = t\<lparr> rit_token := f (rit_token t) \<rparr>"

definition map_delegated :: "(string \<Rightarrow> string) \<Rightarrow> RawDelegatedToken \<Rightarrow> RawDelegatedToken" where
  "map_delegated f t = t\<lparr> rdt_token := f (rdt_token t) \<rparr>"

definition map_tokens :: "(string \<Rightarrow> string) \<Rightarrow> RawCredentials \<Rightarrow> RawCredentials" where
  "map_tokens f raw =
     \<lparr> inbound_tokens = map (map_prod id (map_inbound f)) (inbound_tokens raw),
       delegated_tokens = map (map_prod id (map_delegated f)) (delegated_tokens raw) \<rparr>"

lemma sort_key_map_same:
  assumes "\<And>x. k (g x) = k x"
  shows "sort_key k (map g xs) = map g (sort_key k xs)"
proof -
  have "insort_key k (g x) (map g ys) = map g (insort_key k x ys)" for x ys
    by (induction ys) (simp_all add: assms)
  then show ?thesis by (induction xs) simp_all
qed

lemma sorted_candidates_map:
  "sorted_candidates (map (map_prod id (map_delegated f)) ts) req
     = map (map_prod id (map_delegated f)) (sorted_candidates ts req)"
proof -
  have "audience_matches req (map_prod id (map_delegated f) kt) = audience_matches req kt" for kt
    by (auto simp: audience_matches_def map_delegated_def split: option.split)
  then have "filter (audience_matches req) (map (map_prod id (map_delegated f)) ts)
      = map (map_prod id (map_delegated f)) (filter (audience_matches req) ts)"
    by (simp add: filter_map comp_def)
  then show ?thesis
    by (simp add: sorted_candidates_def sort_key_map_same candidate_key_def)
qed

lemma pick_inbound_map:
  "pick_inbound (map (map_prod id (map_inbound f)) ts) = map_option (map_inbound f) (pick_inbound ts)"
proof -
  have "map_of (map (map_prod id (map_inbound f)) ts) r = map_option (map_inbound f) (map_of ts r)" for r
    by (induction ts) auto
  then show ?thesis
    by (cases ts) (auto simp: pick_inbound_def List.map_filter_def split: option.splits list.splits)
qed

text \<open>An error of the credential channel is the same whatever the plaintexts are. Replacing every
  token by another one, blank where it was blank, leaves every error as it is, so no error and no
  log line built from it can carry token material.\<close>

theorem credential_error_independent_of_token:
  assumes "\<forall>s. trim (f s) = [] \<longleftrightarrow> trim s = []"
  shows "attach_credential task h
       (x\<lparr> x_raw_credentials := map_option (map_tokens f) (x_raw_credentials x) \<rparr>) caps = Inl e
     \<longleftrightarrow> attach_credential task h x caps = Inl e"
proof -
  let ?x = "x\<lparr> x_raw_credentials := map_option (map_tokens f) (x_raw_credentials x) \<rparr>"
  have tok: "inbound_from_token (map_inbound f t) h = Inl e \<longleftrightarrow> inbound_from_token t h = Inl e" for t e
    using assms by (simp add: inbound_from_token_def map_inbound_def)
  have ib: "build_inbound ?x h = Inl e \<longleftrightarrow> build_inbound x h = Inl e" for e
    by (cases "x_raw_credentials x")
       (auto simp: build_inbound_def rbind_Inl_iff map_tokens_def pick_inbound_map tok)
  have dtok: "delegated_from_token (map_delegated f t) h = Inl e \<longleftrightarrow> delegated_from_token t h = Inl e"
    for t e
    using assms by (simp add: delegated_from_token_def map_delegated_def)
  have db: "build_delegated ?x h req = Inl e \<longleftrightarrow> build_delegated x h req = Inl e" for req e
    by (cases "x_raw_credentials x")
       (auto simp: build_delegated_def rbind_Inl_iff map_tokens_def sorted_candidates_map dtok
         split: list.splits)
  have dto: "insert_dto task d = Inl e \<longleftrightarrow> as_object task = None \<and>
      e = Protocol ''task must be a JSON object to carry a credential''" for d e
    by (auto simp: insert_dto_def rbind_Inl_iff)
  have ok: "(\<exists>c. build_inbound ?x h = Inr c) \<longleftrightarrow> (\<exists>c. build_inbound x h = Inr c)"
    "(\<exists>c. build_delegated ?x h req = Inr c) \<longleftrightarrow> (\<exists>c. build_delegated x h req = Inr c)" for req
    using ib db [of req] by (metis sum.exhaust sum.distinct(1))+
  show ?thesis
    using ok by (auto simp: attach_credential_def rbind_Inl_iff ib db dto split: PayloadKind.splits)
qed

theorem credential_error_independent_of_token_witness:
  "\<forall>e. attach_credential (JObject []) ''token.delegate''
     ((with_delegated [token_for ''a'' ''hr'' AsThisWorkload ''g''])
        \<lparr> x_raw_credentials := map_option (map_tokens (\<lambda>s. if trim s = [] then s else ''X''))
            (x_raw_credentials (with_delegated [token_for ''a'' ''hr'' AsThisWorkload ''g''])) \<rparr>)
     {CAP_READ_DELEGATED} = Inl e
   \<longleftrightarrow> attach_credential (JObject []) ''token.delegate''
     (with_delegated [token_for ''a'' ''hr'' AsThisWorkload ''g'']) {CAP_READ_DELEGATED} = Inl e"
proof -
  have "trim ''X'' = ''X''" by (simp add: trim_visible visible_def)
  then show ?thesis
    by (intro allI credential_error_independent_of_token) auto
qed

end
