(* ===== verification/Worker_Protocol.thy ===== *)
theory Worker_Protocol
  imports Host_Error "HOL-Library.Char_ord" "HOL-Library.List_Lexorder"
begin

text \<open>
  The wire protocol with the Python worker (\<^verbatim>\<open>worker.rs\<close>, the parts that keep no
  shared state): reading one bounded line through the fill buffer, interpreting a response
  envelope, recovering a request id from a truncated frame, the handshake report and the
  retained tail of stderr. The reader is an instance of \<open>frame_reader\<close>: however the bytes
  are split into fill buffers, it returns the frames of the byte stream.
\<close>

abbreviation newline :: char where
  "newline \<equiv> CHR 0x0A"

section \<open>Reading one bounded line\<close>

datatype BoundedLine = Line string | Oversized string nat | Eof

text \<open>A stream is the sequence of results \<^verbatim>\<open>fill_buf\<close> will give, an error or a
  buffer; the end of the list, like an empty buffer, is the end of the file. The unconsumed part
  of a buffer stays at the head.\<close>

type_synonym 'e stream = "('e + string) list"

definition finish_line :: "string \<Rightarrow> nat \<Rightarrow> bool \<Rightarrow> BoundedLine" where
  "finish_line buffer scanned over =
     (let buffer = (if buffer \<noteq> [] \<and> last buffer = CHR 0x0D then butlast buffer else buffer);
          text = from_utf8_lossy buffer
      in if over then Oversized text scanned else Line text)"

fun read_loop ::
  "nat \<Rightarrow> string \<Rightarrow> nat \<Rightarrow> bool \<Rightarrow> 'e stream \<Rightarrow> ('e + BoundedLine) \<times> 'e stream" where
  "read_loop limit buffer scanned over [] =
     (Inr (if scanned = 0 then Eof else finish_line buffer scanned over), [])"
| "read_loop limit buffer scanned over (Inl e # st) = (Inl e, st)"
| "read_loop limit buffer scanned over (Inr available # st) =
     (if available = [] then
        (Inr (if scanned = 0 then Eof else finish_line buffer scanned over), st)
      else
        let chunk = takeWhile (\<lambda>b. b \<noteq> newline) available;
            done = (newline \<in> set available);
            scanned' = scanned + length chunk;
            buffer' = (if over then buffer
                       else buffer @ take (min (length chunk) (limit - length buffer)) chunk);
            over' = (over \<or> scanned' > limit);
            left = drop (length chunk + 1) available
        in if done
           then (Inr (finish_line buffer' scanned' over'), if left = [] then st else Inr left # st)
           else read_loop limit buffer' scanned' over' st)"

definition read_bounded_line :: "nat \<Rightarrow> 'e stream \<Rightarrow> ('e + BoundedLine) \<times> 'e stream" where
  "read_bounded_line limit st = read_loop limit [] 0 False st"

section \<open>Responses\<close>

definition interpret_response :: "json \<Rightarrow> HostError + json" where
  "interpret_response response =
     (case response of
        JObject obj \<Rightarrow>
          let obj = obj_remove ''request_id'' obj in
          if Option.bind (obj_get obj ''status'') as_str = Some ''error''
          then Inl (WorkerError (case Option.bind (obj_get obj ''message'') as_str of
                 Some m \<Rightarrow> m | None \<Rightarrow> ''worker reported an error with no message''))
          else Inr (JObject obj)
      | _ \<Rightarrow> Inr response)"

definition quote :: char where
  "quote = CHR 0x22"

definition REQUEST_ID_KEY :: string where
  "REQUEST_ID_KEY = quote # ''request_id'' @ [quote]"

definition request_id_from_prefix :: "string \<Rightarrow> string option" where
  "request_id_from_prefix pre =
     Option.bind (str_find REQUEST_ID_KEY pre) (\<lambda>i.
     let after_key = drop (i + length REQUEST_ID_KEY) pre in
     Option.bind (str_find '':'' after_key) (\<lambda>c.
     let after_colon = drop (c + 1) after_key in
     Option.bind (str_find [quote] after_colon) (\<lambda>opening.
     let rest = drop (opening + 1) after_colon in
     Option.bind (str_find [quote] rest) (\<lambda>closing. Some (take closing rest)))))"

definition response_too_large :: "nat \<Rightarrow> nat \<Rightarrow> HostError" where
  "response_too_large size_b limit = ResponseTooLarge size_b limit"

section \<open>The handshake\<close>

record WorkerCapabilities =
  protocol_version :: "64 word"
  features :: "string list"
  cpex_version :: "string option"

definition no_capabilities :: WorkerCapabilities where
  "no_capabilities = \<lparr> protocol_version = 0, features = [], cpex_version = None \<rparr>"

definition has_feature :: "WorkerCapabilities \<Rightarrow> string \<Rightarrow> bool" where
  "has_feature c feature \<longleftrightarrow> feature \<in> set (features c)"

definition report_of :: "json \<Rightarrow> WorkerCapabilities" where
  "report_of response =
     \<lparr> protocol_version = (case Option.bind (jget response ''protocol_version'') as_u64 of
          Some v \<Rightarrow> v | None \<Rightarrow> 0),
       features = (case Option.bind (jget response ''features'') as_array of
          Some xs \<Rightarrow> sort (remdups (List.map_filter as_str xs)) | None \<Rightarrow> []),
       cpex_version = Option.bind (jget response ''cpex_version'') as_str \<rparr>"

text \<open>\<^verbatim>\<open>capabilities\<close>, given the outcome of sending the probe: the report and
  what the client remembers.\<close>

definition capabilities_of ::
  "WorkerCapabilities option \<Rightarrow> HostError + json \<Rightarrow> (HostError + WorkerCapabilities) \<times> WorkerCapabilities option"
where
  "capabilities_of reported outcome =
     (let set_once = (\<lambda>c. case reported of None \<Rightarrow> Some c | Some r \<Rightarrow> Some r) in
      case outcome of
        Inr response \<Rightarrow> (Inr (report_of response), set_once (report_of response))
      | Inl (WorkerError m) \<Rightarrow> (Inr no_capabilities, set_once no_capabilities)
      | Inl e \<Rightarrow> (Inl e, reported))"

section \<open>The retained stderr\<close>

definition STDERR_RETAIN_LINES :: nat where
  "STDERR_RETAIN_LINES = 40"

definition STDERR_MAX_LINE_BYTES :: nat where
  "STDERR_MAX_LINE_BYTES = 8192"

definition TRUNCATION_MARKER :: string where
  "TRUNCATION_MARKER = [CHR 0xE2, CHR 0x80, CHR 0xA6] @ '' [truncated by host]''"

definition retain :: "string list \<Rightarrow> string \<Rightarrow> string list" where
  "retain tail line = (if length tail = STDERR_RETAIN_LINES then tl tail else tail) @ [line]"

fun retained_text :: "BoundedLine \<Rightarrow> string option" where
  "retained_text (Line line) = Some line"
| "retained_text (Oversized pre scanned) = Some (pre @ TRUNCATION_MARKER)"
| "retained_text Eof = None"

text \<open>One pass of the stderr loop per line read; \<open>n\<close> bounds the number of lines.\<close>

fun stderr_loop :: "nat \<Rightarrow> 'e stream \<Rightarrow> string list \<Rightarrow> string list" where
  "stderr_loop 0 st tail = tail"
| "stderr_loop (Suc n) st tail =
     (case read_bounded_line STDERR_MAX_LINE_BYTES st of
        (Inl _, _) \<Rightarrow> tail
      | (Inr l, st') \<Rightarrow>
          (case retained_text l of None \<Rightarrow> tail | Some line \<Rightarrow> stderr_loop n st' (retain tail line)))"

definition died :: "string list \<Rightarrow> string \<Rightarrow> HostError" where
  "died tail context =
     (if tail = [] then WorkerDied context
      else WorkerDied (context @ ''; recent worker stderr: '' @ join '' | '' tail))"

section \<open>Frames do not depend on the buffers\<close>

definition read_line_spec :: "nat \<Rightarrow> string \<Rightarrow> BoundedLine \<times> string" where
  "read_line_spec limit bytes =
     (let line = takeWhile (\<lambda>b. b \<noteq> newline) bytes in
      if bytes = [] then (Eof, [])
      else (finish_line (take limit line) (length line) (length line > limit),
            drop (length line + 1) bytes))"

text \<open>The contract: a reader over states with a byte content returns the first frame of that
  content and keeps the rest.\<close>

locale frame_reader =
  fixes read :: "'st \<Rightarrow> ('e + BoundedLine) \<times> 'st"
    and content :: "'st \<Rightarrow> string"
    and healthy :: "'st \<Rightarrow> bool"
    and limit :: nat
  assumes read_spec:
    "healthy st \<Longrightarrow> fst (read st) = Inr (fst (read_line_spec limit (content st)))"
    "healthy st \<Longrightarrow> content (snd (read st)) = snd (read_line_spec limit (content st))"
    "healthy st \<Longrightarrow> healthy (snd (read st))"
begin

fun frames :: "nat \<Rightarrow> 'st \<Rightarrow> ('e + BoundedLine) list" where
  "frames 0 st = []"
| "frames (Suc n) st = fst (read st) # frames n (snd (read st))"

lemma frames_agree:
  "healthy st \<Longrightarrow> healthy st' \<Longrightarrow> content st = content st' \<Longrightarrow> frames n st = frames n st'"
  by (induction n arbitrary: st st') (simp_all add: read_spec)

end

fun clean :: "'e stream \<Rightarrow> bool" where
  "clean [] = True"
| "clean (Inl e # st) = False"
| "clean (Inr b # st) = (b \<noteq> [] \<and> clean st)"

fun stream_bytes :: "'e stream \<Rightarrow> string" where
  "stream_bytes [] = []"
| "stream_bytes (Inl e # st) = []"
| "stream_bytes (Inr b # st) = b @ stream_bytes st"

lemma takeWhile_hit: "x \<in> set a \<Longrightarrow> takeWhile (\<lambda>b. b \<noteq> x) (a @ b) = takeWhile (\<lambda>b. b \<noteq> x) a"
  by (simp add: takeWhile_append1)

lemma takeWhile_miss: "x \<notin> set a \<Longrightarrow> takeWhile (\<lambda>b. b \<noteq> x) (a @ b) = a @ takeWhile (\<lambda>b. b \<noteq> x) b"
  by (auto intro: takeWhile_append2)

lemma takeWhile_all: "x \<notin> set a \<Longrightarrow> takeWhile (\<lambda>b. b \<noteq> x) a = a"
  by (induction a) auto

lemma takeWhile_shorter: "x \<in> set a \<Longrightarrow> length (takeWhile (\<lambda>b. b \<noteq> x) a) < length a"
  by (induction a) auto

text \<open>The loop invariant: the buffer holds the first \<open>limit\<close> of the \<open>seen\<close> bytes of the
  line, and the flag says whether there were more.\<close>

lemma read_loop_spec:
  assumes "clean st"
  shows "let (r, st') = read_loop limit (take limit seen) (length seen) (length seen > limit) st;
             line = seen @ takeWhile (\<lambda>b. b \<noteq> newline) (stream_bytes st)
         in r = Inr (if seen = [] \<and> stream_bytes st = [] then Eof
                     else finish_line (take limit line) (length line) (length line > limit)) \<and>
            stream_bytes st' = drop (length line - length seen + 1) (stream_bytes st) \<and> clean st'"
  using assms
proof (induction st arbitrary: seen)
  case Nil
  then show ?case by simp
next
  case (Cons c st)
  then obtain b where c: "c = Inr b" "b \<noteq> []" "clean st" by (cases c) auto
  define chunk where "chunk = takeWhile (\<lambda>b. b \<noteq> newline) b"
  have buffer: "(if length seen > limit then take limit seen
      else take limit seen @ take (min (length chunk) (limit - length (take limit seen))) chunk)
      = take limit (seen @ chunk)"
    by (auto simp: min_def)
  have over: "(length seen > limit \<or> length seen + length chunk > limit)
      = (length (seen @ chunk) > limit)"
    by auto
  have step: "read_loop limit (take limit seen) (length seen) (length seen > limit) (Inr b # st) =
      (if newline \<in> set b
       then (Inr (finish_line (take limit (seen @ chunk)) (length (seen @ chunk))
                   (length (seen @ chunk) > limit)),
             if drop (length chunk + 1) b = [] then st else Inr (drop (length chunk + 1) b) # st)
       else read_loop limit (take limit (seen @ chunk)) (length (seen @ chunk))
              (length (seen @ chunk) > limit) st)"
    by (simp only: read_loop.simps Let_def buffer over chunk_def [symmetric] length_append c(2) if_False)
  show ?case
  proof (cases "newline \<in> set b")
    case True
    have "length chunk < length b"
      using True unfolding chunk_def by (rule takeWhile_shorter)
    with True c step show ?thesis
      by (simp add: Let_def chunk_def [symmetric] takeWhile_hit case_prod_beta)
  next
    case False
    then have chunk: "chunk = b" unfolding chunk_def by (rule takeWhile_all)
    with Cons.IH [OF c(3), of "seen @ b"] False c step show ?thesis
      by (simp add: Let_def takeWhile_miss case_prod_beta)
  qed
qed

lemma read_bounded_line_spec:
  assumes "clean st"
  shows "fst (read_bounded_line limit st) = Inr (fst (read_line_spec limit (stream_bytes st)))"
    and "stream_bytes (snd (read_bounded_line limit st)) = snd (read_line_spec limit (stream_bytes st))"
    and "clean (snd (read_bounded_line limit st))"
  using read_loop_spec [OF assms, of limit "[]"]
  by (auto simp: read_bounded_line_def read_line_spec_def Let_def case_prod_beta)

interpretation chunk_reader: frame_reader "read_bounded_line limit" stream_bytes clean limit for limit
  by unfold_locales (simp_all add: read_bounded_line_spec)

text \<open>The results of the first \<open>n\<close> reads of a stream.\<close>

fun read_lines :: "nat \<Rightarrow> nat \<Rightarrow> 'e stream \<Rightarrow> ('e + BoundedLine) list" where
  "read_lines limit 0 st = []"
| "read_lines limit (Suc n) st =
     (let (r, st') = read_bounded_line limit st in r # read_lines limit n st')"

lemma read_lines_frames: "read_lines limit n st = chunk_reader.frames limit n st"
  by (induction n arbitrary: st) (simp_all add: case_prod_beta)

text \<open>C39: How the worker's output is split into fill buffers is invisible. Two streams with the same
  bytes give the same lines, whatever the limit and however many lines are read, so an over-long
  line that is discarded never shifts the boundary of the next one.\<close>

theorem read_lines_ignore_buffering:
  assumes "clean st" "clean st'" "stream_bytes st = stream_bytes st'"
  shows "read_lines limit n st = read_lines limit n st'"
  using chunk_reader.frames_agree [OF assms] by (simp add: read_lines_frames)

theorem read_lines_ignore_buffering_witness:
  "read_lines 4 3 [Inr ''ab'', Inr (''c'' @ [newline] @ ''defgh''), Inr ([newline] @ ''i'')]
   = read_lines 4 3 [Inr (''abc'' @ [newline] @ ''defgh'' @ [newline] @ ''i'') :: unit + string]"
  by (rule read_lines_ignore_buffering) simp_all

text \<open>C34: One read returns the bytes up to the next newline (or the end of the stream), decoded with
  one trailing carriage return removed, when they are within the limit; otherwise it reports how
  many there were and keeps no more than the first \<open>limit\<close> of them. Either way exactly the
  line and its newline are consumed.\<close>

theorem read_bounded_line_correct:
  assumes "clean st"
  shows "let bytes = stream_bytes st; line = takeWhile (\<lambda>b. b \<noteq> newline) bytes;
             chomp = (\<lambda>s. from_utf8_lossy (if s \<noteq> [] \<and> last s = CHR 0x0D then butlast s else s))
         in fst (read_bounded_line limit st) =
              Inr (if bytes = [] then Eof
                   else if length line \<le> limit then Line (chomp line)
                   else Oversized (chomp (take limit line)) (length line)) \<and>
            stream_bytes (snd (read_bounded_line limit st)) = drop (length line + 1) bytes"
  using read_bounded_line_spec [OF assms, of limit]
  by (auto simp: read_line_spec_def finish_line_def Let_def)

theorem read_bounded_line_correct_witness:
  "stream_bytes (snd (read_bounded_line 4
      [Inr ''ab'', Inr (''c'' @ [newline] @ ''defgh'') :: unit + string])) = ''defgh''"
  using read_bounded_line_correct [of "[Inr ''ab'', Inr (''c'' @ [newline] @ ''defgh'') :: unit + string]" 4]
  by (simp add: Let_def)

section \<open>Bounds on what is retained\<close>

lemma from_utf8_lossy_length: "length (from_utf8_lossy s) \<le> 3 * length s"
proof (induction s rule: from_utf8_lossy.induct)
  case (2 c s)
  define n where "n = snd (utf8_step (c # s))"
  have n: "0 < n" "n \<le> length (c # s)"
    using utf8_step_pos [of "c # s"] utf8_step_le [of "c # s"] by (auto simp: n_def)
  have "length (from_utf8_lossy (c # s)) \<le> 3 * n + length (from_utf8_lossy (drop n (c # s)))"
    using n by (auto simp: replacement_char_def n_def [symmetric])
  also have "\<dots> \<le> 3 * n + 3 * (length (c # s) - n)"
    using "2" by (metis add_left_mono length_drop n_def)
  also have "\<dots> = 3 * length (c # s)" using n by linarith
  finally show ?case .
qed simp

fun line_text :: "BoundedLine \<Rightarrow> string" where
  "line_text (Line t) = t"
| "line_text (Oversized t _) = t"
| "line_text Eof = []"

lemma finish_line_bound:
  assumes "length buffer \<le> limit"
  shows "length (line_text (finish_line buffer n over)) \<le> 3 * limit"
proof -
  let ?b = "if buffer \<noteq> [] \<and> last buffer = CHR 0x0D then butlast buffer else buffer"
  have "length (from_utf8_lossy ?b) \<le> 3 * length ?b" by (rule from_utf8_lossy_length)
  also have "\<dots> \<le> 3 * limit" using assms by auto
  finally show ?thesis by (simp add: finish_line_def Let_def)
qed

lemma read_loop_bound:
  "fst (read_loop limit buffer scanned over st) = Inr l \<Longrightarrow> length buffer \<le> limit \<Longrightarrow>
     length (line_text l) \<le> 3 * limit"
proof (induction limit buffer scanned over st rule: read_loop.induct)
  case (3 limit buffer scanned over available st)
  let ?chunk = "takeWhile (\<lambda>b. b \<noteq> newline) available"
  let ?buffer = "if over then buffer
    else buffer @ take (min (length ?chunk) (limit - length buffer)) ?chunk"
  have len: "length ?buffer \<le> limit" using 3(3) by auto
  consider "available = []" | "available \<noteq> []" "newline \<in> set available"
    | "available \<noteq> []" "newline \<notin> set available" by blast
  then show ?case
  proof cases
    case 1
    with 3(2,3) finish_line_bound [OF 3(3)] show ?thesis by (auto split: if_splits)
  next
    case 2
    with 3(2) finish_line_bound [OF len] show ?thesis by (auto simp: Let_def)
  next
    case 3
    with "3.IH" "3.prems"(1) len show ?thesis by (simp add: Let_def)
  qed
qed (auto simp: finish_line_bound split: if_splits)

lemma retain_bound: "length tail \<le> STDERR_RETAIN_LINES \<Longrightarrow> length (retain tail line) \<le> STDERR_RETAIN_LINES"
  by (auto simp: retain_def STDERR_RETAIN_LINES_def)

lemma retained_text_bound:
  "read_bounded_line limit st = (Inr l, st') \<Longrightarrow> retained_text l = Some t \<Longrightarrow>
     length t \<le> 3 * limit + length TRUNCATION_MARKER"
  using read_loop_bound [of limit "[]" 0 False st l]
  by (cases l) (auto simp: read_bounded_line_def)

lemma stderr_loop_bound:
  assumes "length tail \<le> STDERR_RETAIN_LINES"
    and "\<forall>t \<in> set tail. length t \<le> 3 * STDERR_MAX_LINE_BYTES + length TRUNCATION_MARKER"
  shows "length (stderr_loop n st tail) \<le> STDERR_RETAIN_LINES \<and>
    (\<forall>t \<in> set (stderr_loop n st tail).
       length t \<le> 3 * STDERR_MAX_LINE_BYTES + length TRUNCATION_MARKER)"
  using assms
proof (induction n st tail rule: stderr_loop.induct)
  case (2 n st tail)
  show ?case
  proof (cases "\<exists>l st' t. read_bounded_line STDERR_MAX_LINE_BYTES st = (Inr l, st') \<and> retained_text l = Some t")
    case True
    then obtain l st' t where l: "read_bounded_line STDERR_MAX_LINE_BYTES st = (Inr l, st')"
      "retained_text l = Some t" by blast
    have "set (retain tail t) \<subseteq> insert t (set tail)"
      by (cases tail) (auto simp: retain_def)
    with "2.prems" retained_text_bound [OF l] retain_bound
    have "length (retain tail t) \<le> STDERR_RETAIN_LINES"
      "\<forall>t \<in> set (retain tail t). length t \<le> 3 * STDERR_MAX_LINE_BYTES + length TRUNCATION_MARKER"
      by auto
    from "2.IH" [OF l(1) [symmetric] refl l(2) this] l show ?thesis by simp
  next
    case False
    with 2 show ?thesis by (auto split: prod.splits sum.splits option.splits)
  qed
qed simp

lemma sum_list_bound: "\<forall>t \<in> set ts. length t \<le> b \<Longrightarrow> sum_list (map length ts) \<le> length ts * b"
  by (induction ts) auto

text \<open>However much a worker writes to stderr, in however few lines, the host retains at most 40
  lines of bounded length; the total stays under one mebibyte.\<close>

theorem stderr_tail_bounded:
  "length (stderr_loop n st []) \<le> 40 \<and> sum_list (map length (stderr_loop n st [])) < 2 ^ 20"
proof -
  let ?ts = "stderr_loop n st []"
  have b: "length ?ts \<le> 40" "\<forall>t \<in> set ?ts. length t \<le> 24600"
    using stderr_loop_bound [of "[]" n st]
    by (auto simp: STDERR_RETAIN_LINES_def STDERR_MAX_LINE_BYTES_def TRUNCATION_MARKER_def)
  have "sum_list (map length ?ts) \<le> length ?ts * 24600"
    by (rule sum_list_bound [OF b(2)])
  also have "\<dots> \<le> 40 * 24600" using b(1) by simp
  finally show ?thesis using b(1) by simp
qed

section \<open>Recovering a request id\<close>

lemma str_find_append: "str_find p s = Some i \<Longrightarrow> str_find p (s @ t) = Some i"
proof (induction s arbitrary: i)
  case Nil
  then show ?case by (cases t) (auto split: if_splits)
next
  case (Cons c s)
  show ?case
  proof (cases "prefix p (c # s)")
    case True
    then have "prefix p ((c # s) @ t)" by (rule prefix_prefix)
    with True Cons.prems show ?thesis by simp
  next
    case False
    with Cons.prems obtain j where j: "str_find p s = Some j" "i = Suc j"
      by (auto split: if_splits)
    from str_find_Some_prefix [OF j(1)] have "length p \<le> length s"
      by (auto dest!: prefix_length_le)
    then have "prefix p (c # s)" if "prefix p ((c # s) @ t)"
      using that by (intro prefix_length_prefix [OF that, of "c # s"]) auto
    with False have "\<not> prefix p (c # s @ t)" by auto
    with Cons.IH [OF j(1)] j(2) False show ?thesis by simp
  qed
qed

lemma str_find_char: "c \<notin> set a \<Longrightarrow> str_find [c] (a @ c # r) = Some (length a)"
  by (induction a) auto

lemma request_id_recovered_gen:
  assumes "str_find REQUEST_ID_KEY (before @ REQUEST_ID_KEY) = Some (length before)"
    and "CHR '':'' \<notin> set w" "quote \<notin> set v" "quote \<notin> set rid"
  shows "request_id_from_prefix
    (before @ REQUEST_ID_KEY @ w @ '':'' @ v @ [quote] @ rid @ [quote] @ rest) = Some rid"
proof -
  let ?t = "w @ '':'' @ v @ [quote] @ rid @ [quote] @ rest"
  have "str_find REQUEST_ID_KEY ((before @ REQUEST_ID_KEY) @ ?t) = Some (length before)"
    by (rule str_find_append [OF assms(1)])
  then have key: "str_find REQUEST_ID_KEY (before @ REQUEST_ID_KEY @ ?t) = Some (length before)"
    by simp
  show ?thesis
    using key assms(2-4) str_find_char [of "CHR '':''" w] str_find_char [of quote v]
      str_find_char [of quote rid]
    by (simp add: request_id_from_prefix_def)
qed

text \<open>A truncated frame whose first request id key is followed by a complete string value yields
  exactly that value, whatever white space surrounds the colon and wherever the frame was cut
  after it.\<close>

theorem request_id_recovered:
  assumes "str_find REQUEST_ID_KEY (before @ REQUEST_ID_KEY) = Some (length before)"
    and "CHR '':'' \<notin> set w" "quote \<notin> set v" "quote \<notin> set rid"
  shows "request_id_from_prefix
    (before @ REQUEST_ID_KEY @ w @ '':'' @ v @ [quote] @ rid @ [quote] @ rest) = Some rid"
  using assms by (rule request_id_recovered_gen)

theorem request_id_recovered_witness:
  "request_id_from_prefix (''{'' @ REQUEST_ID_KEY @ [] @ '':'' @ '' '' @ [quote] @ ''a1'' @ [quote] @ '', '')
     = Some ''a1''"
  by (rule request_id_recovered) (simp_all add: REQUEST_ID_KEY_def quote_def)

text \<open>The scan reads the first textual key, not the top-level one: a frame whose payload nests a
  request id before the envelope's own yields the nested id, so an over-long response is charged
  to another caller of that id and its own caller is left waiting.\<close>

theorem nested_request_id_is_taken:
  "\<exists>payload. request_id_from_prefix
     (payload @ '', '' @ REQUEST_ID_KEY @ '': '' @ [quote] @ ''A'' @ [quote] @ ''}'') = Some ''B''"
proof (rule exI)
  let ?p = "''{'' @ [quote] @ ''modified_payload'' @ [quote] @ '': {''"
  have "request_id_from_prefix (?p @ REQUEST_ID_KEY @ [] @ '':'' @ '' '' @ [quote] @ ''B'' @ [quote]
      @ ''}, '' @ REQUEST_ID_KEY @ '': '' @ [quote] @ ''A'' @ [quote] @ ''}'') = Some ''B''"
    by (rule request_id_recovered_gen) (simp_all add: REQUEST_ID_KEY_def quote_def)
  then show "request_id_from_prefix ((?p @ REQUEST_ID_KEY @ '': '' @ [quote] @ ''B'' @ [quote] @ ''}'')
      @ '', '' @ REQUEST_ID_KEY @ '': '' @ [quote] @ ''A'' @ [quote] @ ''}'') = Some ''B''"
    by simp
qed

section \<open>Response envelopes\<close>

text \<open>A response object becomes a hook result without its request id and otherwise unchanged,
  unless its status is the string error, which becomes the worker's error with its message.\<close>

theorem interpret_response_correct:
  assumes "obj_ok m"
  shows "case interpret_response (JObject m) of
     Inl e \<Rightarrow> obj_get m ''status'' = Some (JString ''error'') \<and>
       (case obj_get m ''message'' of Some (JString t) \<Rightarrow> e = WorkerError t
        | _ \<Rightarrow> e = WorkerError ''worker reported an error with no message'')
   | Inr r \<Rightarrow> obj_get m ''status'' \<noteq> Some (JString ''error'') \<and> jget r ''request_id'' = None \<and>
       (\<forall>k. k = ''request_id'' \<or> jget r k = obj_get m k)"
proof -
  have "Option.bind v as_str = Some s \<longleftrightarrow> v = Some (JString s)" for v s
    by (cases v) auto
  with assms show ?thesis
    by (auto simp: interpret_response_def Let_def split: option.splits json.splits)
qed

theorem interpret_response_correct_witness:
  "jget (projr (interpret_response (JObject [(''request_id'', JString ''1''), (''ok'', JBool True)]))) ''ok''
     = Some (JBool True)"
  using interpret_response_correct [of "[(''request_id'', JString ''1''), (''ok'', JBool True)]"]
  by (simp add: interpret_response_def obj_ok_def Let_def)

end
