(* ===== verification/Worker_Client.thy ===== *)
theory Worker_Client
  imports Worker_Protocol
begin

text \<open>
  The worker client as a transition system (\<^verbatim>\<open>worker.rs\<close>): concurrent calls of
  \<^verbatim>\<open>send_task\<close>, the reader task that routes responses by request id, the writer
  task, and the two-step teardown of the reader (mark dead, then clear the pending map). A step
  is what one task does between two points where another can run. The alive flag, the pending
  map with its one-shot channels and the phase of each call are the shared state. Two
  fields record history only: the frames the reader has read, oldest first, and for each call how
  many had been read when it was registered.
\<close>

section \<open>State\<close>

datatype chan = Open | Value "HostError + json" | Dropped

datatype reader_phase = Running | MarkedDead | Cleared

datatype call = Checked json | Registered string | Waiting | Finished "HostError + json"

record client =
  alive :: bool
  pending :: "string set"
  slots :: "string \<Rightarrow> chan"
  calls :: "string \<Rightarrow> call option"
  reader :: reader_phase
  writer_running :: bool
  outbound :: "string list"
  tail :: "string list"
  frames :: "BoundedLine list"
  sent :: "string \<Rightarrow> nat"

text \<open>The client's configuration and the JSON codec it calls.\<close>

record client_config =
  max_content_size :: nat
  timeout_secs :: "64 word"
  to_line :: "json \<Rightarrow> string + string"
  from_line :: "string \<Rightarrow> json option"

definition spawned :: client where
  "spawned = \<lparr> alive = True, pending = {}, slots = (\<lambda>_. Dropped), calls = (\<lambda>_. None),
     reader = Running, writer_running = True, outbound = [], tail = [], frames = [],
     sent = (\<lambda>_. 0) \<rparr>"

section \<open>The pure parts of the steps\<close>

definition prepare :: "client_config \<Rightarrow> string \<Rightarrow> json \<Rightarrow> HostError + string" where
  "prepare C rid task =
     rbind (ok_or (Protocol ''task must be a JSON object'') (as_object task)) (\<lambda>obj.
     case to_line C (JObject (obj_insert ''request_id'' (JString rid) obj)) of
       Inl e \<Rightarrow> Inl (Protocol (''could not serialize task: '' @ e))
     | Inr line \<Rightarrow>
         if length line > max_content_size C
         then Inl (TaskTooLarge (length line) (max_content_size C))
         else Inr line)"

datatype routing =
    Ignore
  | Deliver string json
  | FailOne string HostError
  | FailAll HostError
  | Stop

text \<open>What the reader does with one line, given the ids it finds pending.\<close>

definition route_frame :: "client_config \<Rightarrow> (string \<Rightarrow> bool) \<Rightarrow> BoundedLine \<Rightarrow> routing" where
  "route_frame C is_pending frame =
     (case frame of
        Eof \<Rightarrow> Stop
      | Line text \<Rightarrow>
          let line = trim text in
          if line = [] then Ignore
          else (case from_line C line of
                  None \<Rightarrow> Ignore
                | Some response \<Rightarrow>
                    (case Option.bind (jget response ''request_id'') as_str of
                       None \<Rightarrow> Ignore
                     | Some rid \<Rightarrow> if is_pending rid then Deliver rid response else Ignore))
      | Oversized pre scanned \<Rightarrow>
          let e = response_too_large scanned (max_content_size C) in
          (case request_id_from_prefix pre of
             Some rid \<Rightarrow> if is_pending rid then FailOne rid e else FailAll e
           | None \<Rightarrow> FailAll e))"

definition resolve :: "string \<Rightarrow> HostError + json \<Rightarrow> client \<Rightarrow> client" where
  "resolve rid r s = s\<lparr> pending := pending s - {rid}, slots := (slots s)(rid := Value r) \<rparr>"

definition apply_routing :: "routing \<Rightarrow> client \<Rightarrow> client" where
  "apply_routing r s =
     (case r of
        Ignore \<Rightarrow> s
      | Deliver rid response \<Rightarrow> resolve rid (Inr response) s
      | FailOne rid e \<Rightarrow> resolve rid (Inl e) s
      | FailAll e \<Rightarrow> s\<lparr> pending := {},
          slots := (\<lambda>i. if i \<in> pending s then Value (Inl e) else slots s i) \<rparr>
      | Stop \<Rightarrow> s\<lparr> alive := False, reader := MarkedDead \<rparr>)"

definition set_call :: "string \<Rightarrow> call \<Rightarrow> client \<Rightarrow> client" where
  "set_call rid c s = s\<lparr> calls := (calls s)(rid := Some c) \<rparr>"

definition clear_pending :: "client \<Rightarrow> client" where
  "clear_pending s = s\<lparr> pending := {}, reader := Cleared,
     slots := (\<lambda>i. if i \<in> pending s then Dropped else slots s i) \<rparr>"

section \<open>Steps\<close>

inductive client_step :: "client_config \<Rightarrow> client \<Rightarrow> client \<Rightarrow> bool" for C where
  start_dead:
    "calls s rid = None \<Longrightarrow> \<not> alive s \<Longrightarrow>
       client_step C s (set_call rid (Finished (Inl (died (tail s)
         ''worker process is no longer running''))) s)"
| start_alive:
    "calls s rid = None \<Longrightarrow> alive s \<Longrightarrow> client_step C s (set_call rid (Checked task) s)"
| refuse:
    "calls s rid = Some (Checked task) \<Longrightarrow> prepare C rid task = Inl e \<Longrightarrow>
       client_step C s (set_call rid (Finished (Inl e)) s)"
| register:
    "calls s rid = Some (Checked task) \<Longrightarrow> prepare C rid task = Inr line \<Longrightarrow>
       client_step C s (set_call rid (Registered line)
         (s\<lparr> pending := insert rid (pending s), slots := (slots s)(rid := Open),
             sent := (sent s)(rid := length (frames s)) \<rparr>))"
| enqueue:
    "calls s rid = Some (Registered line) \<Longrightarrow> writer_running s \<Longrightarrow>
       client_step C s (set_call rid Waiting (s\<lparr> outbound := outbound s @ [line @ [newline]] \<rparr>))"
| enqueue_fails:
    "calls s rid = Some (Registered line) \<Longrightarrow> \<not> writer_running s \<Longrightarrow>
       client_step C s (set_call rid (Finished (Inl (died (tail s)
         (''writer task is gone '' @ dash @ '' the worker is no longer accepting tasks''))))
         (s\<lparr> pending := pending s - {rid} \<rparr>))"
| receive:
    "calls s rid = Some Waiting \<Longrightarrow> slots s rid = Value r \<Longrightarrow>
       client_step C s (set_call rid (Finished (rbind r interpret_response)) s)"
| receive_dropped:
    "calls s rid = Some Waiting \<Longrightarrow> slots s rid = Dropped \<Longrightarrow>
       client_step C s (set_call rid (Finished (Inl (died (tail s)
         ''worker exited while the request was in flight''))) s)"
| time_out:
    "calls s rid = Some Waiting \<Longrightarrow> slots s rid = Open \<Longrightarrow>
       client_step C s (set_call rid (Finished (Inl (Timeout (timeout_secs C))))
         (s\<lparr> pending := pending s - {rid} \<rparr>))"
| read_frame:
    "reader s = Running \<Longrightarrow>
       client_step C s (apply_routing (route_frame C (\<lambda>i. i \<in> pending s) frame)
         (s\<lparr> frames := frames s @ [frame] \<rparr>))"
| read_error:
    "reader s = Running \<Longrightarrow> client_step C s (apply_routing Stop s)"
| clear:
    "reader s = MarkedDead \<Longrightarrow> client_step C s (clear_pending s)"
| write_line:
    "writer_running s \<Longrightarrow> outbound s = line # rest \<Longrightarrow> client_step C s (s\<lparr> outbound := rest \<rparr>)"
| writer_stops:
    "writer_running s \<Longrightarrow> client_step C s (s\<lparr> writer_running := False \<rparr>)"
| stderr_line:
    "client_step C s (s\<lparr> tail := retain (tail s) line \<rparr>)"

definition client_reachable :: "client_config \<Rightarrow> client \<Rightarrow> bool" where
  "client_reachable C s \<longleftrightarrow> reachable (\<lambda>s. s = spawned) (client_step C) s"

section \<open>The invariant\<close>

fun in_flight :: "call option \<Rightarrow> bool" where
  "in_flight (Some (Registered _)) = True"
| "in_flight (Some Waiting) = True"
| "in_flight _ = False"

text \<open>What a frame answers to request \<open>rid\<close>, read off the frame alone: a line that is not blank,
  parses, and carries that id. The answer to a call is the first such frame after it was sent.\<close>

definition answer :: "client_config \<Rightarrow> string \<Rightarrow> BoundedLine \<Rightarrow> json option" where
  "answer C rid frame =
     (case frame of
        Line text \<Rightarrow>
          if trim text = [] then None
          else (case from_line C (trim text) of
                  None \<Rightarrow> None
                | Some response \<Rightarrow>
                    if jget response ''request_id'' = Some (JString rid) then Some response else None)
      | _ \<Rightarrow> None)"

fun first_answer :: "client_config \<Rightarrow> string \<Rightarrow> BoundedLine list \<Rightarrow> json option" where
  "first_answer C rid [] = None"
| "first_answer C rid (f # fs) = (case answer C rid f of None \<Rightarrow> first_answer C rid fs | Some r \<Rightarrow> Some r)"

abbreviation own_answer :: "client_config \<Rightarrow> client \<Rightarrow> string \<Rightarrow> json option" where
  "own_answer C s rid \<equiv> first_answer C rid (drop (sent s rid) (frames s))"

text \<open>The results that say what the worker answered; the other errors are the host's own.\<close>

fun answered_by_worker :: "HostError + json \<Rightarrow> bool" where
  "answered_by_worker (Inr _) = True"
| "answered_by_worker (Inl (WorkerError _)) = True"
| "answered_by_worker (Inl _) = False"

fun value_inv :: "json option \<Rightarrow> HostError + json \<Rightarrow> bool" where
  "value_inv a (Inl e) = (\<not> answered_by_worker (Inl e))"
| "value_inv a (Inr v) = (a = Some v)"

definition result_inv :: "json option \<Rightarrow> HostError + json \<Rightarrow> bool" where
  "result_inv a r \<longleftrightarrow> (answered_by_worker r \<longrightarrow> map_option interpret_response a = Some r)"

definition call_inv :: "client_config \<Rightarrow> client \<Rightarrow> string \<Rightarrow> bool" where
  "call_inv C s rid \<longleftrightarrow> sent s rid \<le> length (frames s) \<and>
     (rid \<in> pending s \<longleftrightarrow> in_flight (calls s rid) \<and> slots s rid = Open) \<and>
     (rid \<in> pending s \<longrightarrow> own_answer C s rid = None) \<and>
     (\<forall>r. in_flight (calls s rid) \<longrightarrow> slots s rid = Value r \<longrightarrow> value_inv (own_answer C s rid) r) \<and>
     (\<forall>r. calls s rid = Some (Finished r) \<longrightarrow> result_inv (own_answer C s rid) r)"

definition client_inv :: "client_config \<Rightarrow> client \<Rightarrow> bool" where
  "client_inv C s \<longleftrightarrow> (\<forall>rid. call_inv C s rid) \<and> (alive s \<longleftrightarrow> reader s = Running) \<and>
     length (tail s) \<le> STDERR_RETAIN_LINES"

lemma first_answer_append:
  "first_answer C rid (fs @ [f]) = (case first_answer C rid fs of None \<Rightarrow> answer C rid f | Some r \<Rightarrow> Some r)"
  by (induction fs) (auto split: option.splits)

lemma route_frame_answer:
  "P rid \<Longrightarrow> route_frame C P f = Deliver rid v \<longleftrightarrow> answer C rid f = Some v"
  by (auto simp: route_frame_def answer_def Let_def bind_eq_Some_conv 
      split: BoundedLine.splits option.splits if_splits)

lemma route_frame_pending:
  "route_frame C P f = Deliver rid v \<Longrightarrow> P rid" "route_frame C P f = FailOne rid e \<Longrightarrow> P rid"
  by (auto simp: route_frame_def Let_def split: BoundedLine.splits option.splits if_splits)

lemma route_frame_fails:
  "route_frame C P f = FailOne rid e \<or> route_frame C P f = FailAll e \<Longrightarrow> \<not> answered_by_worker (Inl e)"
  by (auto simp: route_frame_def response_too_large_def Let_def
      split: BoundedLine.splits option.splits if_splits)

lemma set_call_simps [simp]:
  "alive (set_call rid c s) = alive s" "pending (set_call rid c s) = pending s"
  "slots (set_call rid c s) = slots s" "reader (set_call rid c s) = reader s"
  "tail (set_call rid c s) = tail s" "calls (set_call rid c s) = (calls s)(rid := Some c)"
  "frames (set_call rid c s) = frames s" "sent (set_call rid c s) = sent s"
  by (simp_all add: set_call_def)

lemma calls_unchanged [simp]:
  "calls (apply_routing r s) = calls s" "calls (clear_pending s) = calls s"
  "frames (apply_routing r s) = frames s" "frames (clear_pending s) = frames s"
  "sent (apply_routing r s) = sent s" "sent (clear_pending s) = sent s"
  "tail (apply_routing r s) = tail s"
  by (cases r; simp add: apply_routing_def resolve_def clear_pending_def)+

lemma own_answer_read:
  assumes "sent s rid \<le> length (frames s)" "frames s' = frames s @ [f]" "sent s' rid = sent s rid"
  shows "own_answer C s' rid = (case own_answer C s rid of None \<Rightarrow> answer C rid f | Some r \<Rightarrow> Some r)"
  using assms by (simp add: first_answer_append)

lemma routed_slot:
  assumes "rid \<in> pending s" "slots s rid = Open" "route_frame C (\<lambda>i. i \<in> pending s) f = r"
  shows "rid \<in> pending (apply_routing r s) \<and> slots (apply_routing r s) rid = Open \<and> answer C rid f = None \<or>
    rid \<notin> pending (apply_routing r s) \<and> (\<exists>x. slots (apply_routing r s) rid = Value x \<and>
      value_inv (answer C rid f) x)"
proof -
  have ans: "answer C rid f = None" if "\<And>v. r \<noteq> Deliver rid v"
    using route_frame_answer [of "\<lambda>i. i \<in> pending s" rid C f] assms(1,3) that
    by (cases "answer C rid f") auto
  show ?thesis
  proof (cases r)
    case (Deliver i v)
    with assms ans route_frame_answer [of "\<lambda>i. i \<in> pending s" rid C f v] show ?thesis
      by (cases "i = rid") (auto simp: apply_routing_def resolve_def)
  next
    case (FailOne i e)
    with assms ans route_frame_fails [of C "\<lambda>i. i \<in> pending s" f i e] show ?thesis
      by (cases "i = rid") (auto simp: apply_routing_def resolve_def)
  next
    case (FailAll e)
    with assms ans route_frame_fails [of C "\<lambda>i. i \<in> pending s" f _ e] show ?thesis
      by (auto simp: apply_routing_def)
  qed (use assms ans in \<open>auto simp: apply_routing_def\<close>)
qed

lemma routed_elsewhere:
  assumes "rid \<notin> pending s" "route_frame C (\<lambda>i. i \<in> pending s) f = r"
  shows "rid \<notin> pending (apply_routing r s) \<and> slots (apply_routing r s) rid = slots s rid"
proof (cases r)
  case (Deliver i v)
  with assms have "i \<in> pending s" using route_frame_pending(1) by metis
  with assms(1) Deliver show ?thesis by (auto simp: apply_routing_def resolve_def)
next
  case (FailOne i e)
  with assms have "i \<in> pending s" using route_frame_pending(2) by metis
  with assms(1) FailOne show ?thesis by (auto simp: apply_routing_def resolve_def)
qed (use assms(1) in \<open>auto simp: apply_routing_def\<close>)

lemma value_inv_read: "value_inv a r \<Longrightarrow> value_inv (case a of None \<Rightarrow> b | Some x \<Rightarrow> Some x) r"
  by (cases r) auto

lemma result_inv_read: "result_inv a r \<Longrightarrow> result_inv (case a of None \<Rightarrow> b | Some x \<Rightarrow> Some x) r"
  by (auto simp: result_inv_def)

lemma call_inv_read:
  assumes "call_inv C s rid"
  shows "call_inv C (apply_routing (route_frame C (\<lambda>i. i \<in> pending s) f) (s\<lparr> frames := frames s @ [f] \<rparr>)) rid"
    (is "call_inv C ?s' rid")
proof -
  let ?s = "s\<lparr> frames := frames s @ [f] \<rparr>"
  let ?r = "route_frame C (\<lambda>i. i \<in> pending s) f"
  from assms have "sent s rid \<le> length (frames s)" by (simp add: call_inv_def)
  then have own: "own_answer C ?s' rid = (case own_answer C s rid of None \<Rightarrow> answer C rid f | Some r \<Rightarrow> Some r)"
    by (rule own_answer_read) simp_all
  show ?thesis
  proof (cases "rid \<in> pending s")
    case True
    with assms have o: "slots ?s rid = Open" "own_answer C s rid = None" "in_flight (calls s rid)"
      by (auto simp: call_inv_def)
    then have "\<And>r. calls s rid \<noteq> Some (Finished r)" by auto
    from routed_slot [of rid ?s C f ?r] True o(1) consider
        "rid \<in> pending ?s'" "slots ?s' rid = Open" "answer C rid f = None"
      | x where "rid \<notin> pending ?s'" "slots ?s' rid = Value x"
          "value_inv (answer C rid f) x"
      by auto
    then show ?thesis
    proof cases
      case 1
      with o assms own show ?thesis by (auto simp: call_inv_def)
    next
      case (2 x)
      with o assms own show ?thesis by (cases x) (auto simp: call_inv_def)
    qed
  next
    case False
    have "rid \<notin> pending ?s' \<and> slots ?s' rid = slots s rid"
      using routed_elsewhere [of rid ?s C f ?r] False by simp
    with False assms show ?thesis
      unfolding call_inv_def own by (auto intro: value_inv_read result_inv_read)
  qed
qed

lemma received_result:
  "value_inv a r \<Longrightarrow> result_inv a (rbind r interpret_response)"
  by (cases r) (auto simp: result_inv_def)

lemma prepare_own_error: "prepare C rid task = Inl e \<Longrightarrow> \<not> answered_by_worker (Inl e)"
  by (auto simp: prepare_def ok_or_def Let_def rbind_Inl_iff split: option.splits sum.splits if_splits)

lemma died_own_error [simp]: "\<not> answered_by_worker (Inl (died t c))"
  by (simp add: died_def)

lemma call_inv_frame:
  "call_inv C s rid \<Longrightarrow> sent s' rid = sent s rid \<Longrightarrow> frames s' = frames s \<Longrightarrow>
     (rid \<in> pending s' \<longleftrightarrow> rid \<in> pending s) \<Longrightarrow> slots s' rid = slots s rid \<Longrightarrow> calls s' rid = calls s rid \<Longrightarrow>
     call_inv C s' rid"
  by (simp add: call_inv_def)

lemma call_inv_step: "client_step C s s' \<Longrightarrow> call_inv C s rid \<Longrightarrow> call_inv C s' rid"
proof (induction rule: client_step.induct)
  case (read_frame s frame)
  then show ?case by (simp add: call_inv_read)
next
  case (receive s i r)
  show ?case
  proof (cases "i = rid")
    case True
    with receive have "value_inv (own_answer C s rid) r" by (simp add: call_inv_def)
    from received_result [OF this] True receive show ?thesis
      by (simp add: call_inv_def result_inv_def)
  next
    case False
    with receive show ?thesis by (auto elim: call_inv_frame)
  qed
next
  case (refuse s i task e)
  then show ?case using prepare_own_error [of C i task e]
    by (cases "i = rid") (auto simp: call_inv_def result_inv_def)
qed (auto simp: call_inv_def result_inv_def clear_pending_def apply_routing_def)

lemma client_inv_step: "client_step C s s' \<Longrightarrow> client_inv C s \<Longrightarrow> client_inv C s'"
proof -
  assume step: "client_step C s s'" and inv: "client_inv C s"
  from step inv have "(alive s' \<longleftrightarrow> reader s' = Running) \<and> length (tail s') \<le> STDERR_RETAIN_LINES"
  proof (induction rule: client_step.induct)
    case (read_frame s frame)
    then show ?case
      by (cases "route_frame C (\<lambda>i. i \<in> pending s) frame") (auto simp: client_inv_def apply_routing_def resolve_def)
  qed (auto simp: client_inv_def clear_pending_def apply_routing_def retain_bound)
  with step inv call_inv_step show ?thesis by (auto simp: client_inv_def)
qed

lemma spawned_inv: "client_inv C spawned"
  by (simp add: client_inv_def call_inv_def spawned_def)

interpretation client_system:
  invariant_system "\<lambda>s. s = spawned" "client_step C" "client_inv C" for C
  by unfold_locales (auto simp: spawned_inv intro: client_inv_step)

lemma client_reachable_inv: "client_reachable C s \<Longrightarrow> client_inv C s"
  unfolding client_reachable_def by (rule client_system.reachable_inv)

section \<open>Properties\<close>

text \<open>C6: A result is routed to the call it answers. Whatever the interleaving of calls, responses,
  oversized frames, timeouts and teardown, a call that returns what the worker answered, a value or
  the worker's error, returns the interpretation of the first frame the reader read after the call
  was sent that carries the call's own request id; and a finished call has no entry left in the
  pending map.\<close>

theorem responses_reach_their_own_call:
  assumes "client_reachable C s" "calls s rid = Some (Finished r)"
  shows "rid \<notin> pending s \<and>
    (answered_by_worker r \<longrightarrow>
       map_option interpret_response (first_answer C rid (drop (sent s rid) (frames s))) = Some r)"
proof -
  from client_reachable_inv [OF assms(1)] have "call_inv C s rid" by (simp add: client_inv_def)
  with assms(2) show ?thesis by (simp add: call_inv_def result_inv_def)
qed

text \<open>When the reader has seen the end of the worker's output and clears the pending map, every
  call that is in flight at that moment is resolved: its channel holds a response or is dropped,
  so it returns without waiting for its timeout.\<close>

theorem clear_resolves_every_call:
  assumes "client_reachable C s" "reader s = MarkedDead" "in_flight (calls s rid)"
  shows "slots (clear_pending s) rid \<noteq> Open \<and> rid \<notin> pending (clear_pending s) \<and>
    \<not> alive (clear_pending s) \<and> client_step C s (clear_pending s)"
  using client_reachable_inv [OF assms(1)] assms(2,3) client_step.clear [OF assms(2)]
  by (auto simp: client_inv_def call_inv_def clear_pending_def)

section \<open>Runs\<close>

definition quick_config :: client_config where
  "quick_config = \<lparr> max_content_size = 100, timeout_secs = 30, to_line = (\<lambda>_. Inr ''{}''),
     from_line = (\<lambda>_. Some (JObject [(''request_id'', JString ''a'')])) \<rparr>"

definition run_checked :: client where
  "run_checked = set_call ''a'' (Checked (JObject [])) spawned"

definition run_registered :: "client \<Rightarrow> client" where
  "run_registered s = set_call ''a'' (Registered ''{}'')
     (s\<lparr> pending := insert ''a'' (pending s), slots := (slots s)(''a'' := Open),
         sent := (sent s)(''a'' := length (frames s)) \<rparr>)"

definition run_waiting :: "client \<Rightarrow> client" where
  "run_waiting s = set_call ''a'' Waiting (s\<lparr> outbound := outbound s @ [''{}'' @ [newline]] \<rparr>)"

lemma reach_step: "client_reachable C s \<Longrightarrow> client_step C s s' \<Longrightarrow> client_reachable C s'"
  unfolding client_reachable_def by (rule reachable_step)

lemma reach_checked: "client_reachable quick_config run_checked"
proof (rule reach_step)
  show "client_reachable quick_config spawned"
    by (simp add: client_reachable_def reachable_init)
  show "client_step quick_config spawned run_checked"
    unfolding run_checked_def by (rule start_alive) (simp_all add: spawned_def)
qed

lemma prepare_quick: "prepare quick_config ''a'' (JObject []) = Inr ''{}''"
  by (simp add: prepare_def quick_config_def)

lemma reach_registered:
  assumes "client_reachable quick_config s" "calls s ''a'' = Some (Checked (JObject []))"
  shows "client_reachable quick_config (run_registered s)"
  using register [OF assms(2) prepare_quick] assms(1) reach_step by (simp add: run_registered_def)

lemma reach_waiting:
  assumes "client_reachable quick_config s" "calls s ''a'' = Some (Registered ''{}'')" "writer_running s"
  shows "client_reachable quick_config (run_waiting s)"
  using enqueue [OF assms(2,3)] assms(1) reach_step by (simp add: run_waiting_def)

definition run_in_flight :: client where
  "run_in_flight = run_waiting (run_registered run_checked)"

lemma writer_set_call [simp]:
  "writer_running (set_call rid c s) = writer_running s" "outbound (set_call rid c s) = outbound s"
  by (simp_all add: set_call_def)

lemma reach_in_flight: "client_reachable quick_config run_in_flight"
  unfolding run_in_flight_def
  by (intro reach_waiting reach_registered reach_checked)
     (simp_all add: run_registered_def run_checked_def spawned_def)

definition run_dying :: client where
  "run_dying = apply_routing Stop run_in_flight"

lemma reach_dying: "client_reachable quick_config run_dying"
  unfolding run_dying_def
  by (rule reach_step [OF reach_in_flight], rule read_error)
     (simp add: run_in_flight_def run_waiting_def run_registered_def run_checked_def spawned_def)

theorem clear_resolves_every_call_witness:
  "slots (clear_pending run_dying) ''a'' \<noteq> Open"
proof -
  have "reader run_dying = MarkedDead" "in_flight (calls run_dying ''a'')"
    by (simp_all add: run_dying_def apply_routing_def run_in_flight_def run_waiting_def)
  from clear_resolves_every_call [OF reach_dying this] show ?thesis by blast
qed

definition run_answered :: client where
  "run_answered = apply_routing (route_frame quick_config (\<lambda>i. i \<in> pending run_in_flight) (Line ''{}''))
     (run_in_flight\<lparr> frames := frames run_in_flight @ [Line ''{}''] \<rparr>)"

lemma answered_eq:
  "run_answered = resolve ''a'' (Inr (JObject [(''request_id'', JString ''a'')]))
     (run_in_flight\<lparr> frames := frames run_in_flight @ [Line ''{}''] \<rparr>)"
proof -
  have "''a'' \<in> pending run_in_flight"
    by (simp add: run_in_flight_def run_waiting_def run_registered_def)
  moreover have "trim ''{}'' = ''{}''" by (simp add: trim_visible visible_def)
  ultimately show ?thesis
    by (simp add: run_answered_def route_frame_def apply_routing_def quick_config_def)
qed

definition run_returned :: client where
  "run_returned = set_call ''a'' (Finished (rbind (Inr (JObject [(''request_id'', JString ''a'')]))
     interpret_response)) run_answered"

lemma reach_returned: "client_reachable quick_config run_returned"
proof (rule reach_step)
  show "client_reachable quick_config run_answered"
    unfolding run_answered_def
    by (rule reach_step [OF reach_in_flight], rule read_frame)
       (simp add: run_in_flight_def run_waiting_def run_registered_def run_checked_def spawned_def)
  show "client_step quick_config run_answered run_returned"
    unfolding run_returned_def
    by (rule receive) (simp_all add: answered_eq resolve_def run_in_flight_def run_waiting_def)
qed

theorem responses_reach_their_own_call_witness:
  "calls run_returned ''a'' = Some (Finished (Inr (JObject []))) \<and> ''a'' \<notin> pending run_returned \<and>
   map_option interpret_response
     (first_answer quick_config ''a'' (drop (sent run_returned ''a'') (frames run_returned))) =
       Some (Inr (JObject []))"
proof -
  have "calls run_returned ''a'' = Some (Finished (Inr (JObject [])))"
    by (simp add: run_returned_def interpret_response_def Let_def)
  with responses_reach_their_own_call [OF reach_returned this] show ?thesis by simp
qed

section \<open>The race of a send with the teardown\<close>

text \<open>\<open>stranded rid s\<close>: the reader has finished its teardown and the call waits on a channel
  that nobody holds the other end of any more.\<close>

definition stranded :: "string \<Rightarrow> client \<Rightarrow> bool" where
  "stranded rid s \<longleftrightarrow> reader s = Cleared \<and> calls s rid = Some Waiting \<and> slots s rid = Open"

definition stranded_or_timed_out :: "client_config \<Rightarrow> string \<Rightarrow> client \<Rightarrow> bool" where
  "stranded_or_timed_out C rid s \<longleftrightarrow>
     stranded rid s \<or> calls s rid = Some (Finished (Inl (Timeout (timeout_secs C))))"

lemma stranded_step:
  "client_step C s s' \<Longrightarrow> stranded_or_timed_out C rid s \<Longrightarrow> stranded_or_timed_out C rid s'"
  by (induction rule: client_step.induct)
     (auto simp: stranded_or_timed_out_def stranded_def)

interpretation stranded_system:
  invariant_system "stranded rid" "client_step C" "stranded_or_timed_out C rid" for C rid
  by unfold_locales (simp add: stranded_or_timed_out_def, erule (1) stranded_step [rotated])

definition run_raced :: client where
  "run_raced = run_waiting (run_registered (clear_pending (apply_routing Stop run_checked)))"

lemma reach_raced: "client_reachable quick_config run_raced"
proof -
  let ?dead = "apply_routing Stop run_checked"
  have "client_reachable quick_config ?dead"
    by (rule reach_step [OF reach_checked], rule read_error) (simp add: run_checked_def spawned_def)
  then have "client_reachable quick_config (clear_pending ?dead)"
    by (rule reach_step) (simp add: clear apply_routing_def)
  then show ?thesis
    unfolding run_raced_def
    by (intro reach_waiting reach_registered)
       (simp_all add: run_registered_def clear_pending_def apply_routing_def run_checked_def spawned_def)
qed

text \<open>A send that passed the liveness check before the teardown and registered after it is lost.
  Such a state is reachable, and from every such state, whatever happens next, the call never
  returns anything but its timeout.\<close>

theorem send_racing_teardown_waits_out_timeout:
  "(\<exists>C rid s. client_reachable C s \<and> stranded rid s) \<and>
   (\<forall>C rid s s'. stranded rid s \<longrightarrow> (client_step C)\<^sup>*\<^sup>* s s' \<longrightarrow> stranded_or_timed_out C rid s')"
proof
  have "stranded ''a'' run_raced"
    by (simp add: stranded_def run_raced_def run_waiting_def run_registered_def clear_pending_def)
  with reach_raced show "\<exists>C rid s. client_reachable C s \<and> stranded rid s" by blast
  show "\<forall>C rid s s'. stranded rid s \<longrightarrow> (client_step C)\<^sup>*\<^sup>* s s' \<longrightarrow> stranded_or_timed_out C rid s'"
    using stranded_system.steps_inv stranded_system.init_inv by blast
qed

theorem send_racing_teardown_waits_out_timeout_witness:
  "stranded_or_timed_out quick_config ''a'' run_raced"
proof -
  have "stranded ''a'' run_raced"
    by (simp add: stranded_def run_raced_def run_waiting_def run_registered_def clear_pending_def)
  with send_racing_teardown_waits_out_timeout show ?thesis by blast
qed

end
