(* ===== verification/Plugin_Host.thy ===== *)
theory Plugin_Host
  imports Conversion Credentials Worker_Client
begin

text \<open>
  The plugin adapter (\<^verbatim>\<open>plugin.rs\<close>): the respawn budget, the worker handshake check,
  how an invocation gets its worker, the task it sends and the whole of
  \<^verbatim>\<open>invoke\<close>. What an invocation reads of the state that others change, the clock
  and the worker's answer are arguments; \<open>Plugin_Lifecycle\<close> lets the calls interleave.
\<close>

section \<open>Respawn budget\<close>

definition MAX_RESPAWN_ATTEMPTS :: nat where
  "MAX_RESPAWN_ATTEMPTS = 3"

definition RESPAWN_BACKOFF_BASE_MS :: "64 word" where
  "RESPAWN_BACKOFF_BASE_MS = 100"

definition RESPAWN_BUDGET_RESET_SECS :: nat where
  "RESPAWN_BUDGET_RESET_SECS = 60"

record RespawnState =
  attempts :: nat
  window_started :: "nat option"

definition new_respawn_state :: RespawnState where
  "new_respawn_state = \<lparr> attempts = 0, window_started = None \<rparr>"

text \<open>An instant is a number of nanoseconds; \<^verbatim>\<open>duration_since\<close> saturates at zero.\<close>

definition elapsed_secs :: "nat \<Rightarrow> nat \<Rightarrow> nat" where
  "elapsed_secs now s = (now - s) div 10 ^ 9"

definition expire_window :: "nat \<Rightarrow> RespawnState \<Rightarrow> RespawnState" where
  "expire_window now st =
     (if (case window_started st of None \<Rightarrow> False
          | Some s \<Rightarrow> elapsed_secs now s \<ge> RESPAWN_BUDGET_RESET_SECS)
      then st\<lparr> attempts := 0, window_started := None \<rparr> else st)"

definition try_reserve :: "nat \<Rightarrow> RespawnState \<Rightarrow> nat option \<times> RespawnState" where
  "try_reserve now st =
     (let st = expire_window now st in
      if attempts st \<ge> MAX_RESPAWN_ATTEMPTS then (None, st)
      else let n = attempts st + 1 in
        (Some n, st\<lparr> attempts := n,
           window_started := (case window_started st of None \<Rightarrow> Some now | Some s \<Rightarrow> Some s) \<rparr>))"

definition record_success :: "RespawnState \<Rightarrow> RespawnState" where
  "record_success st = st\<lparr> attempts := 0, window_started := None \<rparr>"

definition note_worker_healthy :: "RespawnState \<Rightarrow> RespawnState" where
  "note_worker_healthy st = (if attempts st > 0 then record_success st else st)"

definition backoff_ms :: "nat \<Rightarrow> 64 word" where
  "backoff_ms attempt = saturating_mul RESPAWN_BACKOFF_BASE_MS (push_bit (attempt - 1) 1)"

section \<open>The plugin and its worker's features\<close>

record plugin_config =
  pc_name :: string
  pc_kind :: string
  pc_hooks :: "string list"
  pc_capabilities :: "string list"
  pc_config :: "json option"

definition WORKER_KNOWN_CAPABILITIES :: "string list" where
  "WORKER_KNOWN_CAPABILITIES =
     [''read_subject'', ''read_roles'', ''read_teams'', ''read_claims'', ''read_permissions'',
      ''read_agent'', ''read_headers'', ''write_headers'', ''read_labels'', ''append_labels'',
      ''read_delegation'', ''append_delegation'']"

definition FEATURE_CREDENTIAL :: string where
  "FEATURE_CREDENTIAL = ''credential''"

definition FEATURE_EXTENSIONS :: string where
  "FEATURE_EXTENSIONS = ''extensions''"

definition FEATURE_CMF_HOOKS :: string where
  "FEATURE_CMF_HOOKS = ''cmf_hooks''"

definition worker_capabilities :: "plugin_config \<Rightarrow> string list" where
  "worker_capabilities c = filter (\<lambda>n. n \<in> set WORKER_KNOWN_CAPABILITIES) (pc_capabilities c)"

definition required_worker_features :: "plugin_config \<Rightarrow> string list" where
  "required_worker_features c =
     (if list_ex (\<lambda>h. h = ''cmf.llm_input'' \<or> h = ''cmf.llm_output'') (pc_hooks c)
      then [FEATURE_CMF_HOOKS] else [])
     @ (if list_ex (\<lambda>n. n = CAP_READ_INBOUND \<or> n = CAP_READ_DELEGATED) (pc_capabilities c)
        then [FEATURE_CREDENTIAL] else [])
     @ (if list_ex (\<lambda>n. n \<in> set WORKER_KNOWN_CAPABILITIES) (pc_capabilities c)
        then [FEATURE_EXTENSIONS] else [])"

definition missing_features_error :: "plugin_config \<Rightarrow> WorkerCapabilities \<Rightarrow> string list \<Rightarrow> HostError" where
  "missing_features_error c reported missing =
     Credential (''the installed cpex worker does not implement '' @ join '', '' missing @ '' '' @ dash
       @ '' which plugin '' @ sq (pc_name c) @ '' needs given its declared capabilities (''
       @ join '', '' (sort (pc_capabilities c)) @ '') and hooks ('' @ join '', '' (pc_hooks c)
       @ ''). The worker reported protocol version '' @ show_nat (unat (protocol_version reported))
       @ '' and features ['' @ join '', '' (features reported) @ ''] (cpex ''
       @ (case cpex_version reported of Some v \<Rightarrow> v | None \<Rightarrow> ''version unknown'')
       @ ''). Running anyway would drop those fields silently, so this plugin is failed closed at ''
       @ ''startup; upgrade the cpex package in the plugin's venv.'')"

text \<open>\<^verbatim>\<open>verify_worker_understands\<close>, given what the handshake probe returns when it is
  asked. The report it leaves on the client is the second component.\<close>

definition verify_worker_understands ::
  "plugin_config \<Rightarrow> WorkerCapabilities option \<Rightarrow> HostError + json
     \<Rightarrow> (HostError + unit) \<times> WorkerCapabilities option" where
  "verify_worker_understands c reported probe =
     (let required = required_worker_features c in
      if required = [] then
        (Inr (), if list_ex is_cmf_hook (pc_hooks c) then snd (capabilities_of reported probe) else reported)
      else
        let (outcome, reported') = capabilities_of reported probe in
        (case outcome of
           Inl e \<Rightarrow>
             Inl (if FEATURE_CMF_HOOKS \<in> set required
                  then Config (''plugin '' @ sq (pc_name c) @ '' declares an LLM hook, but the worker's ''
                         @ bq ''cmf_hooks'' @ '' support could not be verified ('' @ to_string e
                         @ ''); upgrade the cpex package in the plugin's venv'')
                  else e)
         | Inr caps \<Rightarrow>
             let missing = filter (\<lambda>f. \<not> has_feature caps f) required in
             if missing = [] then Inr () else Inl (missing_features_error c caps missing),
         reported'))"

section \<open>Building a task\<close>

definition worker_hook_for :: "string \<Rightarrow> bool \<Rightarrow> string" where
  "worker_hook_for hook_name legacy_cmf =
     (case (if legacy_cmf then legacy_hook_name hook_name else None) of
        Some legacy \<Rightarrow> legacy
      | None \<Rightarrow> worker_hook_name hook_name)"

definition needs_legacy_cmf :: "WorkerCapabilities option \<Rightarrow> bool" where
  "needs_legacy_cmf reported =
     (case reported of None \<Rightarrow> True | Some c \<Rightarrow> \<not> has_feature c FEATURE_CMF_HOOKS)"

record plugin_context =
  local_state :: "json obj"
  global_state :: "json obj"

text \<open>The plugin as the adapter holds it: configuration, resolved directories, class name and the
  JSON writer.\<close>

record plugin =
  pl_config :: plugin_config
  pl_dirs :: "string list"
  pl_class_name :: string
  pl_to_string :: "json \<Rightarrow> string + string"

definition config_json :: "plugin_config \<Rightarrow> bool \<Rightarrow> json" where
  "config_json c legacy_cmf =
     JObject [(''name'', JString (pc_name c)), (''kind'', JString (pc_kind c)),
       (''hooks'', JArray (map (\<lambda>h. JString (worker_hook_for h legacy_cmf)) (pc_hooks c))),
       (''capabilities'', JArray (map JString (worker_capabilities c))),
       (''config'', case pc_config c of Some v \<Rightarrow> v | None \<Rightarrow> JNull)]"

text \<open>\<open>fresh_id\<close> is the UUID generated when the context carries no request id.\<close>

definition build_task ::
  "plugin \<Rightarrow> string \<Rightarrow> string \<Rightarrow> bool \<Rightarrow> json \<Rightarrow> plugin_context \<Rightarrow> HostError + json" where
  "build_task P fresh_id hook_name legacy_cmf payload ctx =
     (let c = pl_config P in
      case pl_to_string P (config_json c legacy_cmf) of
        Inl e \<Rightarrow> Inl (Protocol (''could not serialize the plugin config for the worker: '' @ e))
      | Inr config_string \<Rightarrow>
          let request_id = (case Option.bind (obj_get (global_state ctx) ''request_id'') as_str of
                              Some s \<Rightarrow> s | None \<Rightarrow> fresh_id) in
          Inr (JObject
            [(''task_type'', JString ''load_and_run_hook''),
             (''plugin_dirs'', JArray (map JString (pl_dirs P))),
             (''class_name'', JString (pl_class_name P)),
             (''config'', JString config_string),
             (''hook_type'', JString (worker_hook_for hook_name legacy_cmf)),
             (''plugin_name'', JString (pc_name c)),
             (''payload'', payload),
             (''context'', JObject
                [(''state'', JObject (local_state ctx)),
                 (''global_context'', JObject
                    [(''request_id'', JString request_id), (''state'', JObject (global_state ctx))]),
                 (''metadata'', JObject [])])]))"

section \<open>One invocation\<close>

definition apply_context_deltas :: "json \<Rightarrow> plugin_context \<Rightarrow> plugin_context" where
  "apply_context_deltas response ctx =
     (case jget response ''context'' of
        None \<Rightarrow> ctx
      | Some context \<Rightarrow>
          let ctx = (case Option.bind (jget context ''state'') as_object of
                       None \<Rightarrow> ctx
                     | Some st \<Rightarrow> ctx\<lparr> local_state := obj_extend (local_state ctx) st \<rparr>)
          in (case Option.bind (Option.bind (jget context ''global_context'') (\<lambda>g. jget g ''state''))
                     as_object of
                None \<Rightarrow> ctx
              | Some st \<Rightarrow> ctx\<lparr> global_state := obj_extend (global_state ctx) st \<rparr>))"

definition apply_translated_modification ::
  "'o host_env \<Rightarrow> int \<Rightarrow> 'o ShimmedPayload option \<Rightarrow> 'o payload \<Rightarrow> json
     \<Rightarrow> 'o ErasedResultFields \<Rightarrow> HostError + 'o ErasedResultFields" where
  "apply_translated_modification H now shim payload modified f =
     (if \<not> continue_processing f then Inr (f\<lparr> modified_payload := None \<rparr>)
      else case shim of
        Some s \<Rightarrow>
          rbind (apply_modified (env_cmf H) s modified) (\<lambda>m.
            Inr (f\<lparr> modified_payload := Some (PMessage m) \<rparr>))
      | None \<Rightarrow>
          (case payload of
             PIdentity identity \<Rightarrow>
               rbind (identity_from_worker (env_engine H) identity modified) (\<lambda>out.
                 case out of
                   Resolved r \<Rightarrow> Inr (f\<lparr> modified_payload := Some (PIdentity r) \<rparr>)
                 | Rejected v \<Rightarrow> Inr (f\<lparr> modified_payload := None, continue_processing := False,
                                        violation := Some v \<rparr>))
           | PDelegation delegation \<Rightarrow>
               rbind (delegation_from_worker (env_engine H) now delegation modified) (\<lambda>d.
                 Inr (f\<lparr> modified_payload := Some (PDelegation d) \<rparr>))
           | _ \<Rightarrow> Inr f))"

fun payload_view :: "'o payload \<Rightarrow> 'o payload_view" where
  "payload_view (PIdentity p) = IdentityView p"
| "payload_view (PDelegation p) = DelegationView p"
| "payload_view _ = OtherView"

fun as_message :: "'o payload \<Rightarrow> 'o MessagePayload option" where
  "as_message (PMessage m) = Some m"
| "as_message _ = None"

definition is_ppe_credential_payload :: "'o payload \<Rightarrow> bool" where
  "is_ppe_credential_payload p = (case p of PIdentity _ \<Rightarrow> True | PDelegation _ \<Rightarrow> True | _ \<Rightarrow> False)"

definition make_shim ::
  "'o host_env \<Rightarrow> string \<Rightarrow> bool \<Rightarrow> 'o payload \<Rightarrow> HostError + 'o ShimmedPayload option" where
  "make_shim H hook_name legacy_cmf payload =
     (if legacy_cmf \<and> is_cmf_hook hook_name
      then rbind (to_legacy (env_cmf H) hook_name (as_message payload)) (\<lambda>s. Inr (Some s))
      else Inr None)"

text \<open>The task \<^verbatim>\<open>invoke\<close> sends: payload, task, credential, extensions.\<close>

definition invoke_task ::
  "'o host_env \<Rightarrow> plugin \<Rightarrow> string \<Rightarrow> string \<Rightarrow> bool \<Rightarrow> 'o ShimmedPayload option \<Rightarrow> 'o payload
     \<Rightarrow> 'o Extensions \<Rightarrow> plugin_context \<Rightarrow> HostError + json" where
  "invoke_task H P fresh_id hook_name legacy_cmf shim payload x ctx =
     rbind (case shim of Some s \<Rightarrow> Inr (sp_json s) | None \<Rightarrow> serialize_payload H payload) (\<lambda>j.
     rbind (build_task P fresh_id hook_name legacy_cmf j ctx) (\<lambda>task.
     rbind (attach_credential_for_payload task hook_name (payload_view payload) x
              (set (pc_capabilities (pl_config P)))) (\<lambda>task.
     attach_extensions (env_engine H) task x)))"

text \<open>What \<^verbatim>\<open>invoke\<close> makes of the response.\<close>

definition invoke_result ::
  "'o host_env \<Rightarrow> int \<Rightarrow> string \<Rightarrow> 'o ShimmedPayload option \<Rightarrow> 'o payload \<Rightarrow> 'o Extensions \<Rightarrow> json
     \<Rightarrow> HostError + 'o ErasedResultFields" where
  "invoke_result H now hook_name shim payload x response =
     (let translated = (shim \<noteq> None \<or> is_ppe_credential_payload payload);
          (returned, response) =
            (if translated then
               (case response of
                  JObject m \<Rightarrow> (obj_get m ''modified_payload'', JObject (obj_remove ''modified_payload'' m))
                | v \<Rightarrow> (None, v))
             else (None, response))
      in rbind (response_to_result H hook_name response x) (\<lambda>f.
           case returned of
             None \<Rightarrow> Inr f
           | Some m \<Rightarrow>
               if is_null m then Inr f else apply_translated_modification H now shim payload m f))"

section \<open>Getting a worker\<close>

text \<open>What the host knows of one worker: its report and whether the probe was tried a second time.\<close>

record worker_view =
  wv_reported :: "WorkerCapabilities option"
  wv_retry_spent :: bool

text \<open>
  What one invocation finds at each point where it reads state that other invocations, a shutdown
  or the worker itself may have changed: the slot (with whether that worker is alive) before and
  under the respawn lock, the shutdown flag at its four reads, the clock, how the launch went and
  what the handshake probe was answered.
\<close>

record worker_reads =
  wr_slot :: "(bool \<times> worker_view) option"
  wr_down :: bool
  wr_locked_slot :: "(bool \<times> worker_view) option"
  wr_locked_down :: bool
  wr_now :: nat
  wr_down_after_backoff :: bool
  wr_launched :: "HostError + unit"
  wr_probe :: "HostError + json"
  wr_down_at_install :: bool

definition shut_down_error :: HostError where
  "shut_down_error = WorkerStart ''the plugin has been shut down, so its worker is not respawned''"

definition no_worker_error :: HostError where
  "no_worker_error =
     WorkerStart (''plugin has no worker '' @ dash @ '' initialize() did not run or it failed'')"

definition budget_error :: HostError where
  "budget_error = WorkerStart (''worker died and could not be respawned after ''
     @ show_nat MAX_RESPAWN_ATTEMPTS @ '' attempts '' @ dash
     @ '' the plugin's worker is failing to start (check its venv and dependencies)'')"

text \<open>The worker to use or the error, the respawn budget left, and whether a new worker was put in
  the slot.\<close>

definition respawn_worker ::
  "plugin_config \<Rightarrow> worker_reads \<Rightarrow> RespawnState \<Rightarrow> (PluginError + worker_view) \<times> RespawnState \<times> bool" where
  "respawn_worker c R b =
     (let fail = (\<lambda>e. Inl (into_plugin_error e (pc_name c)))
      in case wr_locked_slot R of
           None \<Rightarrow> (fail shut_down_error, b, False)
         | Some (True, w) \<Rightarrow> (Inr w, b, False)
         | Some (False, _) \<Rightarrow>
             if wr_locked_down R then (fail shut_down_error, b, False)
             else (case try_reserve (wr_now R) b of
                     (None, b) \<Rightarrow> (fail budget_error, b, False)
                   | (Some attempt, b) \<Rightarrow>
                       if wr_down_after_backoff R then (fail shut_down_error, b, False)
                       else (case wr_launched R of
                               Inl e \<Rightarrow> (fail e, b, False)
                             | Inr _ \<Rightarrow>
                                 (case verify_worker_understands c None (wr_probe R) of
                                    (Inl e, _) \<Rightarrow> (fail e, b, False)
                                  | (Inr _, reported) \<Rightarrow>
                                      if wr_down_at_install R then (fail shut_down_error, b, False)
                                      else (Inr \<lparr> wv_reported = reported, wv_retry_spent = False \<rparr>, b, True)))))"

definition get_worker ::
  "plugin_config \<Rightarrow> worker_reads \<Rightarrow> RespawnState \<Rightarrow> (PluginError + worker_view) \<times> RespawnState \<times> bool" where
  "get_worker c R b =
     (case wr_slot R of
        Some (True, w) \<Rightarrow> (Inr w, b, False)
      | Some (False, _) \<Rightarrow> respawn_worker c R b
      | None \<Rightarrow>
          (Inl (into_plugin_error (if wr_down R then shut_down_error else no_worker_error) (pc_name c)),
             b, False))"

section \<open>The whole call\<close>

definition probe_if_needed :: "string \<Rightarrow> HostError + json \<Rightarrow> worker_view \<Rightarrow> worker_view" where
  "probe_if_needed hook_name probe w =
     (if is_cmf_hook hook_name \<and> wv_reported w = None \<and> \<not> wv_retry_spent w
      then w\<lparr> wv_retry_spent := True, wv_reported := snd (capabilities_of (wv_reported w) probe) \<rparr>
      else w)"

text \<open>The plugin's state after the call: the respawn budget, whether the call put a new worker in the
  slot, and the worker it talked to. \<open>probe\<close> is what the worker would answer to the second probe,
  \<open>send\<close> the transport.\<close>

record invoke_effect =
  ie_respawn :: RespawnState
  ie_installed :: bool
  ie_worker :: "worker_view option"

definition invoke ::
  "'o host_env \<Rightarrow> plugin \<Rightarrow> string \<Rightarrow> int \<Rightarrow> string \<Rightarrow> 'o payload \<Rightarrow> 'o Extensions
     \<Rightarrow> worker_reads \<Rightarrow> HostError + json \<Rightarrow> (json \<Rightarrow> HostError + json) \<Rightarrow> plugin_context \<Rightarrow> RespawnState
     \<Rightarrow> (PluginError + 'o ErasedResultFields) \<times> plugin_context \<times> invoke_effect" where
  "invoke H P fresh_id now hook_name payload x R probe send ctx b =
     (case get_worker (pl_config P) R b of
        (Inl e, b, installed) \<Rightarrow>
          (Inl e, ctx, \<lparr> ie_respawn = b, ie_installed = installed, ie_worker = None \<rparr>)
      | (Inr w, b, installed) \<Rightarrow>
          let w = probe_if_needed hook_name probe w;
              eff = \<lparr> ie_respawn = b, ie_installed = installed, ie_worker = Some w \<rparr>;
              legacy_cmf = needs_legacy_cmf (wv_reported w);
              fail = (\<lambda>e. Inl (into_plugin_error e (pc_name (pl_config P))))
          in (case make_shim H hook_name legacy_cmf payload of
                Inl e \<Rightarrow> (fail e, ctx, eff)
              | Inr shim \<Rightarrow>
                  (case invoke_task H P fresh_id hook_name legacy_cmf shim payload x ctx of
                     Inl e \<Rightarrow> (fail e, ctx, eff)
                   | Inr task \<Rightarrow>
                       (case send task of
                          Inl e \<Rightarrow> (fail e, ctx, eff)
                        | Inr response \<Rightarrow>
                            let eff = eff\<lparr> ie_respawn := note_worker_healthy (ie_respawn eff) \<rparr>;
                                ctx = apply_context_deltas response ctx
                            in (case invoke_result H now hook_name shim payload x response of
                                  Inl e \<Rightarrow> (fail e, ctx, eff)
                                | Inr f \<Rightarrow> (Inr f, ctx, eff))))))"

section \<open>The respawn budget bounds the respawn rate\<close>

text \<open>Reservations at the given instants, with no invocation succeeding in between: the attempt
  numbers granted.\<close>

fun reserve_all :: "nat list \<Rightarrow> RespawnState \<Rightarrow> nat list" where
  "reserve_all [] st = []"
| "reserve_all (t # ts) st =
     (case try_reserve t st of
        (None, st') \<Rightarrow> reserve_all ts st'
      | (Some n, st') \<Rightarrow> n # reserve_all ts st')"

abbreviation WINDOW_NS :: nat where
  "WINDOW_NS \<equiv> 60 * 10 ^ 9"

lemma elapsed_iff: "elapsed_secs now s \<ge> RESPAWN_BUDGET_RESET_SECS \<longleftrightarrow> now - s \<ge> WINDOW_NS"
  by (simp add: elapsed_secs_def RESPAWN_BUDGET_RESET_SECS_def less_eq_div_iff_mult_less_eq)

lemma try_reserve_in_window:
  assumes "window_started st = Some w" "t < w + WINDOW_NS"
  shows "try_reserve t st =
    (if attempts st < 3 then (Some (attempts st + 1), st\<lparr> attempts := attempts st + 1 \<rparr>) else (None, st))"
proof -
  have "expire_window t st = st"
    using assms elapsed_iff [of t w] by (simp add: expire_window_def)
  then show ?thesis
    using assms by (simp add: try_reserve_def MAX_RESPAWN_ATTEMPTS_def Let_def)
qed

lemma try_reserve_fresh:
  assumes "case window_started st of None \<Rightarrow> attempts st = 0 | Some w \<Rightarrow> w + WINDOW_NS \<le> t"
  shows "try_reserve t st = (Some 1, st\<lparr> attempts := 1, window_started := Some t \<rparr>)"
proof -
  have "expire_window t st = st\<lparr> attempts := 0, window_started := None \<rparr>"
    using assms by (cases "window_started st") (auto simp: expire_window_def elapsed_iff)
  then show ?thesis by (simp add: try_reserve_def MAX_RESPAWN_ATTEMPTS_def Let_def)
qed

lemma windows_le:
  fixes a b w W :: nat
  assumes "w + W \<le> t" "t \<le> e" "0 < W"
  shows "1 + (e - t) div W \<le> (e - w) div W"
proof -
  have "1 + (e - t) div W = (e - t + W) div W"
    using assms(3) div_add_self2 [of W "e - t"] by linarith
  also have "\<dots> \<le> (e - w) div W" using assms by (intro div_le_mono) linarith
  finally show ?thesis .
qed

lemma reserve_all_window:
  assumes "sorted ts" "\<forall>t\<in>set ts. w \<le> t \<and> t \<le> e" "window_started st = Some w" "w \<le> e"
    "attempts st \<le> 3"
  shows "length (reserve_all ts st) + attempts st \<le> 3 * (1 + (e - w) div WINDOW_NS)"
  using assms
proof (induction ts arbitrary: st w)
  case (Cons t ts)
  show ?case
  proof (cases "t < w + WINDOW_NS")
    case True
    note step = try_reserve_in_window [OF Cons.prems(3) True]
    show ?thesis
    proof (cases "attempts st < 3")
      case True
      with Cons.IH [of w "st\<lparr> attempts := attempts st + 1 \<rparr>"] Cons.prems step show ?thesis by simp
    next
      case False
      with Cons.IH [of w st] Cons.prems step show ?thesis by simp
    qed
  next
    case False
    let ?st = "st\<lparr> attempts := 1, window_started := Some t \<rparr>"
    have "try_reserve t st = (Some 1, ?st)"
      using False Cons.prems by (intro try_reserve_fresh) simp
    moreover have "length (reserve_all ts ?st) + 1 \<le> 3 * (1 + (e - t) div WINDOW_NS)"
      using Cons.IH [of t ?st] Cons.prems by simp
    moreover have "1 + (e - t) div WINDOW_NS \<le> (e - w) div WINDOW_NS"
      using windows_le [of w WINDOW_NS t e] False Cons.prems by simp
    ultimately show ?thesis using Cons.prems by simp
  qed
qed simp

lemma reserve_all_bounded: "\<forall>n\<in>set (reserve_all ts st). 1 \<le> n \<and> n \<le> 3"
proof (induction ts arbitrary: st)
  case (Cons t ts)
  obtain r st' where r: "try_reserve t st = (r, st')" by (cases "try_reserve t st")
  have "r = Some n \<Longrightarrow> 1 \<le> n \<and> n \<le> 3" for n
    using r by (auto simp: try_reserve_def MAX_RESPAWN_ATTEMPTS_def Let_def split: if_splits)
  with Cons r show ?case by (cases r) auto
qed simp

lemma backoff_values: "backoff_ms 1 = 100" "backoff_ms 2 = 200" "backoff_ms 3 = 400"
  by (simp_all add: backoff_ms_def saturating_mul_def RESPAWN_BACKOFF_BASE_MS_def)

text \<open>C31: While no invocation succeeds, a plugin whose worker keeps dying is respawned at most three
  times in every started minute, whatever the arrival times of the invocations, and the delay
  before each respawn is one of 100, 200 and 400 milliseconds.\<close>

theorem respawn_rate_bounded:
  assumes "sorted (t # ts)"
  shows "length (reserve_all (t # ts) new_respawn_state)
      \<le> 3 * (1 + (last (t # ts) - t) div (60 * 10 ^ 9)) \<and>
    backoff_ms ` set (reserve_all (t # ts) new_respawn_state) \<subseteq> {100, 200, 400}"
proof
  let ?st = "new_respawn_state\<lparr> attempts := 1, window_started := Some t \<rparr>"
  have first: "try_reserve t new_respawn_state = (Some 1, ?st)"
    by (intro try_reserve_fresh) (simp add: new_respawn_state_def)
  have "\<forall>u\<in>set ts. t \<le> u \<and> u \<le> last (t # ts)"
    using assms by (auto simp: sorted_iff_nth_mono last_conv_nth in_set_conv_nth)
  moreover have "t \<le> last (t # ts)" using assms by (cases ts) (auto simp: last_in_set)
  ultimately show "length (reserve_all (t # ts) new_respawn_state)
      \<le> 3 * (1 + (last (t # ts) - t) div (60 * 10 ^ 9))"
    using reserve_all_window [of ts t "last (t # ts)" ?st] assms first by simp
next
  have "backoff_ms n \<in> {100, 200, 400}" if "1 \<le> n \<and> n \<le> 3" for n
  proof -
    from that have "n = 1 \<or> n = 2 \<or> n = 3" by linarith
    then show ?thesis using backoff_values by auto
  qed
  with reserve_all_bounded [of "t # ts" new_respawn_state]
  show "backoff_ms ` set (reserve_all (t # ts) new_respawn_state) \<subseteq> {100, 200, 400}" by blast
qed

theorem respawn_rate_bounded_witness:
  "length (reserve_all [5, 6, 7, 8, 60000000005] new_respawn_state) \<le> 6 \<and>
   reserve_all [5, 6, 7, 8, 60000000005] new_respawn_state = [1, 2, 3, 1]"
  using respawn_rate_bounded [of 5 "[6, 7, 8, 60000000005]"]
  by (simp add: try_reserve_def expire_window_def new_respawn_state_def elapsed_secs_def
      MAX_RESPAWN_ATTEMPTS_def RESPAWN_BUDGET_RESET_SECS_def Let_def)

section \<open>The handshake fails closed\<close>

definition reports :: "WorkerCapabilities option \<Rightarrow> string \<Rightarrow> bool" where
  "reports reported f = (case reported of None \<Rightarrow> False | Some r \<Rightarrow> has_feature r f)"

lemma capabilities_of_fresh:
  "capabilities_of None probe = (o', r) \<Longrightarrow>
     (case o' of Inl _ \<Rightarrow> r = None | Inr caps \<Rightarrow> r = Some caps)"
  by (auto simp: capabilities_of_def split: sum.splits HostError.splits)

lemma required_feature_iff:
  "FEATURE_CREDENTIAL \<in> set (required_worker_features c) \<longleftrightarrow>
     {CAP_READ_INBOUND, CAP_READ_DELEGATED} \<inter> set (pc_capabilities c) \<noteq> {}"
  "FEATURE_EXTENSIONS \<in> set (required_worker_features c) \<longleftrightarrow>
     set WORKER_KNOWN_CAPABILITIES \<inter> set (pc_capabilities c) \<noteq> {}"
  "FEATURE_CMF_HOOKS \<in> set (required_worker_features c) \<longleftrightarrow>
     {''cmf.llm_input'', ''cmf.llm_output''} \<inter> set (pc_hooks c) \<noteq> {}"
  by (auto simp: required_worker_features_def list_ex_iff FEATURE_CREDENTIAL_def
      FEATURE_EXTENSIONS_def FEATURE_CMF_HOOKS_def)

lemma required_features_are:
  "set (required_worker_features c) \<subseteq> {FEATURE_CREDENTIAL, FEATURE_EXTENSIONS, FEATURE_CMF_HOOKS}"
  by (auto simp: required_worker_features_def)

lemma verify_decision:
  assumes "verify_worker_understands c None probe = (r, reported)"
  shows "r = Inr () \<longleftrightarrow> (\<forall>f\<in>set (required_worker_features c). reports reported f)"
proof (cases "required_worker_features c = []")
  case True
  with assms show ?thesis by (simp add: verify_worker_understands_def)
next
  case False
  obtain out rep where o: "capabilities_of None probe = (out, rep)" by fastforce
  then have rep: "reported = rep"
    using assms False by (auto simp: verify_worker_understands_def Let_def split: sum.splits)
  show ?thesis
  proof (cases out)
    case (Inl e)
    with capabilities_of_fresh [OF o] rep assms False o show ?thesis
      by (auto simp: verify_worker_understands_def Let_def reports_def neq_Nil_conv)
  next
    case (Inr caps)
    with capabilities_of_fresh [OF o] rep assms False o show ?thesis
      by (auto simp: verify_worker_understands_def Let_def reports_def filter_empty_conv split: if_splits)
  qed
qed

text \<open>C28: A fresh worker passes the handshake exactly when it has itself reported every wire feature
  the plugin's declaration commits the host to: credentials for a plugin that may read raw
  tokens, extensions for one that declares a capability the worker models, native CMF dispatch for
  one that declares an LLM hook. A worker that cannot answer, or answers with an error, passes only
  when nothing is required.\<close>

theorem handshake_fails_closed:
  assumes "verify_worker_understands c None probe = (r, reported)"
  shows "r = Inr () \<longleftrightarrow>
    ({CAP_READ_INBOUND, CAP_READ_DELEGATED} \<inter> set (pc_capabilities c) = {}
       \<or> reports reported FEATURE_CREDENTIAL) \<and>
    (set WORKER_KNOWN_CAPABILITIES \<inter> set (pc_capabilities c) = {}
       \<or> reports reported FEATURE_EXTENSIONS) \<and>
    ({''cmf.llm_input'', ''cmf.llm_output''} \<inter> set (pc_hooks c) = {}
       \<or> reports reported FEATURE_CMF_HOOKS)"
  using verify_decision [OF assms] required_feature_iff [of c] required_features_are [of c] by auto

definition identity_plugin :: "string list \<Rightarrow> plugin_config" where
  "identity_plugin caps = \<lparr> pc_name = ''idp'', pc_kind = ''isolated_venv'',
     pc_hooks = [''identity.resolve''], pc_capabilities = caps, pc_config = None \<rparr>"

theorem handshake_fails_closed_witness:
  "\<exists>e. fst (verify_worker_understands (identity_plugin [''read_inbound_credentials'']) None
      (Inl (WorkerError ''unknown task type''))) = Inl e"
proof -
  let ?c = "identity_plugin [''read_inbound_credentials'']"
  obtain r reported where
    v: "verify_worker_understands ?c None (Inl (WorkerError ''unknown task type'')) = (r, reported)"
    by fastforce
  have "\<not> reports reported FEATURE_CREDENTIAL"
    using v by (auto simp: verify_worker_understands_def capabilities_of_def Let_def reports_def
        no_capabilities_def has_feature_def identity_plugin_def split: if_splits)
  with handshake_fails_closed [OF v] have "r \<noteq> Inr ()"
    by (simp add: identity_plugin_def CAP_READ_INBOUND_def)
  with v show ?thesis by (cases r) auto
qed

section \<open>What a worker is sent\<close>

lemma build_task_object: "build_task P i h l j ctx = Inr t \<Longrightarrow> \<exists>m. t = JObject m"
  by (auto simp: build_task_def Let_def split: sum.splits)

lemma invoke_task_Inr:
  assumes "invoke_task H P i h l shim payload x ctx = Inr task"
  obtains j t m where
    "(case shim of Some s \<Rightarrow> Inr (sp_json s) | None \<Rightarrow> serialize_payload H payload) = Inr j"
    "build_task P i h l j ctx = Inr (JObject t)" "task = JObject m"
    "jobj.agree_off {CREDENTIAL_FIELD, EXTENSIONS_FIELD} t m"
proof -
  from assms obtain j t0 where
    j: "(case shim of Some s \<Rightarrow> Inr (sp_json s) | None \<Rightarrow> serialize_payload H payload) = Inr j"
    and t0: "build_task P i h l j ctx = Inr t0"
    and rest: "rbind (attach_credential_for_payload t0 h (payload_view payload) x
          (set (pc_capabilities (pl_config P)))) (\<lambda>task. attach_extensions (env_engine H) task x) = Inr task"
    unfolding invoke_task_def by auto
  from build_task_object [OF t0] obtain t where t: "t0 = JObject t" by blast
  from rest t obtain r where r: "attach_credential_for_payload (JObject t) h (payload_view payload) x
      (set (pc_capabilities (pl_config P))) = Inr r" "attach_extensions (env_engine H) r x = Inr task" by auto
  from credential_step.decorate_only [OF r(1)] obtain n where n: "r = JObject n" by blast
  with r have "rbind (attach_credential_for_payload (JObject t) h (payload_view payload) x
      (set (pc_capabilities (pl_config P)))) (\<lambda>r. rbind (ok_or (Protocol []) (as_object r))
        (\<lambda>t. attach_extensions (env_engine H) (JObject t) x)) = Inr task" by simp
  from dispatch_steps.pipeline_keeps [OF this] that [OF j t0 [unfolded t]] show thesis by auto
qed

text \<open>The task of an invocation names the hook in the worker's spelling, carries this plugin's name
  and class, the payload of the dispatch (or its legacy form) and both context maps; the credential
  and the extensions are added beside these fields and never overwrite one of them.\<close>

theorem invoke_task_contents:
  assumes "invoke_task H P i h l shim payload x ctx = Inr task"
  shows "jget task ''hook_type'' = Some (JString (worker_hook_for h l)) \<and>
    jget task ''task_type'' = Some (JString ''load_and_run_hook'') \<and>
    jget task ''plugin_name'' = Some (JString (pc_name (pl_config P))) \<and>
    jget task ''class_name'' = Some (JString (pl_class_name P)) \<and>
    map_option Inr (jget task ''payload'') =
      Some (case shim of Some s \<Rightarrow> Inr (sp_json s) | None \<Rightarrow> serialize_payload H payload) \<and>
    Option.bind (jget task ''context'') (\<lambda>c. jget c ''state'') = Some (JObject (local_state ctx)) \<and>
    Option.bind (jget task ''context'') (\<lambda>c. Option.bind (jget c ''global_context'') (\<lambda>g. jget g ''state''))
      = Some (JObject (global_state ctx))"
proof -
  from assms obtain j t m where
    j: "(case shim of Some s \<Rightarrow> Inr (sp_json s) | None \<Rightarrow> serialize_payload H payload) = Inr j"
    and t: "build_task P i h l j ctx = Inr (JObject t)" and m: "task = JObject m"
    and keep: "jobj.agree_off {CREDENTIAL_FIELD, EXTENSIONS_FIELD} t m"
    by (rule invoke_task_Inr)
  have get: "jget task k = jget (JObject t) k" if "k \<noteq> ''credential''" "k \<noteq> ''extensions''" for k
    using keep that by (simp add: m jobj.agree_off_def CREDENTIAL_FIELD_def EXTENSIONS_FIELD_def)
  show ?thesis unfolding j using t
    by (auto simp: get build_task_def Let_def split: sum.splits)
qed

definition sample_plugin :: plugin where
  "sample_plugin = \<lparr> pl_config = identity_plugin [], pl_dirs = [''/srv/plugins''],
     pl_class_name = ''idp.Resolver'', pl_to_string = (\<lambda>_. Inr ''config'') \<rparr>"

definition empty_context :: plugin_context where
  "empty_context = \<lparr> local_state = [], global_state = [] \<rparr>"

lemma sample_task:
  "\<exists>t. invoke_task sample_env sample_plugin ''id'' ''cmf.tool_pre_invoke'' False None
      (PGeneric (JBool True)) no_extensions empty_context = Inr t"
  by (simp add: invoke_task_def serialize_payload_def build_task_def sample_plugin_def
      identity_plugin_def empty_context_def attach_credential_for_payload_def attach_credential_def
      kind_tool_pre attach_extensions_def to_wire_def wire_slots_def no_extensions_def put_def Let_def)

theorem invoke_task_contents_witness:
  "\<exists>t. invoke_task sample_env sample_plugin ''id'' ''cmf.tool_pre_invoke'' False None
      (PGeneric (JBool True)) no_extensions empty_context = Inr t
    \<and> jget t ''payload'' = Some (JBool True)"
proof -
  from sample_task obtain t where t: "invoke_task sample_env sample_plugin ''id''
    ''cmf.tool_pre_invoke'' False None (PGeneric (JBool True)) no_extensions empty_context = Inr t" by blast
  from invoke_task_contents [OF t] t show ?thesis by (auto simp: serialize_payload_def)
qed

text \<open>Two dispatches that differ only in credentials: raw tokens and headers of the extensions, the
  token, headers and source header of an identity payload, the bearer token of a delegation.\<close>

inductive same_but_credential :: "'o payload \<Rightarrow> 'o payload \<Rightarrow> bool" where
  same_refl: "same_but_credential p p"
| same_identity: "same_but_credential (PIdentity p)
    (PIdentity (p\<lparr> ip_raw_token := t, ip_headers := hs, ip_source_header := sh \<rparr>))"
| same_delegation: "same_but_credential (PDelegation d) (PDelegation (d\<lparr> dp_bearer_token := t \<rparr>))"

lemma same_serialized:
  "same_but_credential p q \<Longrightarrow> serialize_payload H q = serialize_payload H p"
  by (induction rule: same_but_credential.induct)
     (auto simp: serialize_payload_def identity_to_worker_def delegation_to_worker_def Let_def
       split: sum.splits)

lemma same_required:
  "same_but_credential p q \<Longrightarrow>
     required_capability h (payload_view q) = required_capability h (payload_view p)"
  by (induction rule: same_but_credential.induct) (simp_all add: required_capability_def)

lemma wire_without_credentials:
  "wire_slots E (x\<lparr> x_raw_credentials := creds,
      x_http := map_option (\<lambda>(a, h). (a, h\<lparr> request_headers := hs, response_headers := hs' \<rparr>)) (x_http x) \<rparr>)
     = wire_slots E x"
  by (cases "x_http x") (simp_all add: wire_slots_def sanitize_http_def case_prod_beta)

text \<open>C1: A plugin that did not declare the capability of the hook it serves is sent the same task
  whatever credentials the request carries: nothing in the payload, in the credential field or in
  the extensions lets the worker tell two tokens or two header values apart.\<close>

theorem undeclared_plugin_sees_no_credential:
  assumes "same_but_credential payload payload'"
    and "case required_capability h (payload_view payload) of
           None \<Rightarrow> True | Some cap \<Rightarrow> cap \<notin> set (pc_capabilities (pl_config P))"
  shows "invoke_task H P i h l shim payload' (x\<lparr> x_raw_credentials := creds,
      x_http := map_option (\<lambda>(a, hx). (a, hx\<lparr> request_headers := hs, response_headers := hs' \<rparr>)) (x_http x) \<rparr>) ctx
     = invoke_task H P i h l shim payload x ctx"
proof -
  have closed: "attach_credential_for_payload t h (payload_view q) y (set (pc_capabilities (pl_config P))) = Inr t"
    if "q = payload \<or> q = payload'" for q t y
    using assms(2) same_required [OF assms(1), of h] that
    by (intro attach_closed) (auto split: option.splits)
  show ?thesis
    by (simp add: invoke_task_def closed attach_extensions_def to_wire_def wire_without_credentials
        same_serialized [OF assms(1)] cong: option.case_cong)
qed

theorem undeclared_plugin_sees_no_credential_witness:
  "invoke_task sample_env sample_plugin ''id'' ''identity.resolve'' False None
      (PIdentity (sample_identity\<lparr> ip_raw_token := ''other'', ip_headers := [], ip_source_header := None \<rparr>))
      (sample_view\<lparr> x_raw_credentials := None, x_http :=
        map_option (\<lambda>(a, h). (a, h\<lparr> request_headers := [], response_headers := [] \<rparr>)) (x_http sample_view) \<rparr>)
      empty_context
   = invoke_task sample_env sample_plugin ''id'' ''identity.resolve'' False None
      (PIdentity sample_identity) sample_view empty_context"
  by (rule undeclared_plugin_sees_no_credential [OF same_identity])
     (simp add: required_capability_def sample_plugin_def identity_plugin_def)

section \<open>What the host makes of the answer\<close>

lemma optional_absent [simp]: "jget r k = None \<Longrightarrow> optional r k f = Inr None"
  by (simp add: optional_def)

lemma response_without_payload:
  assumes "response_to_result H h r x = Inr f" "jget r ''modified_payload'' = None"
  shows "modified_payload f = None"
  using assms by (auto simp: response_to_result_def Let_def)

fun same_shape :: "'o ShimmedPayload option \<Rightarrow> 'o payload \<Rightarrow> 'o payload \<Rightarrow> bool" where
  "same_shape (Some _) _ (PMessage _) = True"
| "same_shape None (PIdentity _) (PIdentity _) = True"
| "same_shape None (PDelegation _) (PDelegation _) = True"
| "same_shape _ _ _ = False"

lemma translated_modification:
  assumes "apply_translated_modification H now shim payload m f = Inr g" "modified_payload f = None"
    "modified_payload g = Some q"
  shows "continue_processing g \<and> same_shape shim payload q"
proof (cases "shim = None \<and> (\<exists>p. payload = PIdentity p)")
  case True
  then obtain p where p: "shim = None" "payload = PIdentity p" by blast
  show ?thesis
  proof (cases "identity_from_worker (env_engine H) p m")
    case (Inr out)
    with assms p show ?thesis
      by (cases out) (auto simp: apply_translated_modification_def split: if_splits)
  qed (use assms p in \<open>auto simp: apply_translated_modification_def split: if_splits\<close>)
next
  case False
  with assms show ?thesis
    by (cases shim; cases payload) (auto simp: apply_translated_modification_def split: if_splits)
qed

text \<open>C33: For the hooks whose payload the host translates (shimmed CMF messages, identity and
  delegation), a result that denies never carries a modified payload, and a modified payload is
  always of the dispatched payload's own type, whatever the worker answered.\<close>

theorem translated_deny_modifies_nothing:
  assumes "invoke_result H now h shim payload x response = Inr f"
    and "shim \<noteq> None \<or> is_ppe_credential_payload payload"
    and "json_ok response"
  shows "case modified_payload f of None \<Rightarrow> True
     | Some q \<Rightarrow> continue_processing f \<and> same_shape shim payload q"
proof -
  define stripped where "stripped = (case response of
      JObject m \<Rightarrow> JObject (obj_remove ''modified_payload'' m) | v \<Rightarrow> v)"
  have none: "jget stripped ''modified_payload'' = None"
    using assms(3) by (cases response) (auto simp: stripped_def obj_ok_def)
  from assms(1,2) obtain g where g: "response_to_result H h stripped x = Inr g"
    and f: "f = g \<or> (\<exists>m. apply_translated_modification H now shim payload m g = Inr f)"
    by (auto simp: invoke_result_def stripped_def Let_def split: json.splits option.splits if_splits)
  note clean = response_without_payload [OF g none]
  from f show ?thesis
    using clean translated_modification [OF _ clean] by (auto split: option.splits)
qed

theorem translated_deny_modifies_nothing_witness:
  "\<exists>f. invoke_result sample_env 0 ''identity.resolve'' None (PIdentity sample_identity) no_extensions
      (JObject [(''continue_processing'', JBool False), (''modified_payload'', JString ''junk'')]) = Inr f
    \<and> modified_payload f = None"
proof -
  let ?r = "JObject [(''continue_processing'', JBool False), (''modified_payload'', JString ''junk'')]"
  obtain f where f: "invoke_result sample_env 0 ''identity.resolve'' None (PIdentity sample_identity)
      no_extensions ?r = Inr f" "\<not> continue_processing f"
    by (simp add: invoke_result_def is_ppe_credential_payload_def response_to_result_def is_null_def
        apply_translated_modification_def MODIFIED_EXTENSIONS_FIELD_def Let_def obj_get_def)
  from translated_deny_modifies_nothing [OF f(1)] f show ?thesis
    by (auto simp: is_ppe_credential_payload_def split: option.splits)
qed

section \<open>What an invocation changes\<close>

definition returned_local :: "json \<Rightarrow> json obj" where
  "returned_local response =
     (case jget response ''context'' of None \<Rightarrow> [] | Some c \<Rightarrow>
        (case Option.bind (jget c ''state'') as_object of None \<Rightarrow> [] | Some st \<Rightarrow> st))"

definition returned_global :: "json \<Rightarrow> json obj" where
  "returned_global response =
     (case jget response ''context'' of None \<Rightarrow> [] | Some c \<Rightarrow>
        (case Option.bind (Option.bind (jget c ''global_context'') (\<lambda>g. jget g ''state'')) as_object of
           None \<Rightarrow> [] | Some st \<Rightarrow> st))"

lemma context_merge:
  "apply_context_deltas response ctx =
     ctx\<lparr> local_state := obj_extend (local_state ctx) (returned_local response),
          global_state := obj_extend (global_state ctx) (returned_global response) \<rparr>"
  by (auto simp: apply_context_deltas_def returned_local_def returned_global_def obj_extend_def Let_def
      split: option.splits)

lemma healthy_budget: "attempts (note_worker_healthy st) = 0"
  by (simp add: note_worker_healthy_def record_success_def)

text \<open>A respawn attempt is reserved exactly when the slot held a dead worker both times it was read
  and the plugin was not shut down.\<close>

definition respawn_needed :: "worker_reads \<Rightarrow> bool" where
  "respawn_needed R \<longleftrightarrow> (case (wr_slot R, wr_locked_slot R) of
     (Some (False, _), Some (False, _)) \<Rightarrow> \<not> wr_locked_down R | _ \<Rightarrow> False)"

lemma get_worker_budget:
  "fst (snd (get_worker c R b)) = (if respawn_needed R then snd (try_reserve (wr_now R) b) else b)"
  by (auto simp: get_worker_def respawn_worker_def respawn_needed_def Let_def
      split: option.splits prod.splits sum.splits bool.splits)

text \<open>A new worker is put in the slot exactly when an attempt was granted, the worker could be
  launched, it passed the handshake, and the plugin was shut down neither during the backoff nor
  by the time of the install.\<close>

definition respawn_succeeds :: "plugin_config \<Rightarrow> worker_reads \<Rightarrow> RespawnState \<Rightarrow> bool" where
  "respawn_succeeds c R b \<longleftrightarrow> respawn_needed R \<and> fst (try_reserve (wr_now R) b) \<noteq> None \<and>
     \<not> wr_down_after_backoff R \<and> wr_launched R = Inr () \<and>
     fst (verify_worker_understands c None (wr_probe R)) = Inr () \<and> \<not> wr_down_at_install R"

lemma get_worker_installed: "snd (snd (get_worker c R b)) = respawn_succeeds c R b"
  by (auto simp: get_worker_def respawn_worker_def respawn_needed_def respawn_succeeds_def Let_def
      split: option.splits prod.splits sum.splits bool.splits)

text \<open>The answer worker \<open>w\<close> gave in an invocation, if there was one.\<close>

definition answered ::
  "'o host_env \<Rightarrow> plugin \<Rightarrow> string \<Rightarrow> string \<Rightarrow> 'o payload \<Rightarrow> 'o Extensions \<Rightarrow> HostError + json
     \<Rightarrow> (json \<Rightarrow> HostError + json) \<Rightarrow> plugin_context \<Rightarrow> worker_view \<Rightarrow> HostError + json" where
  "answered H P i h payload x probe send ctx w =
     (let l = needs_legacy_cmf (wv_reported (probe_if_needed h probe w)) in
      rbind (make_shim H h l payload) (\<lambda>shim.
      rbind (invoke_task H P i h l shim payload x ctx) send))"

lemma invoke_unanswered:
  assumes "get_worker (pl_config P) R b = (Inr w, b1, inst)"
    "answered H P i h payload x probe send ctx w = Inl e"
  shows "invoke H P i now h payload x R probe send ctx b = (Inl (into_plugin_error e (pc_name (pl_config P))),
     ctx, \<lparr> ie_respawn = b1, ie_installed = inst, ie_worker = Some (probe_if_needed h probe w) \<rparr>)"
  using assms by (auto simp: invoke_def answered_def Let_def split: sum.splits)

lemma invoke_answered:
  assumes "get_worker (pl_config P) R b = (Inr w, b1, inst)"
    "answered H P i h payload x probe send ctx w = Inr response"
  shows "snd (invoke H P i now h payload x R probe send ctx b) = (apply_context_deltas response ctx,
     \<lparr> ie_respawn = note_worker_healthy b1, ie_installed = inst, ie_worker = Some (probe_if_needed h probe w) \<rparr>)"
  using assms by (auto simp: invoke_def answered_def Let_def split: sum.splits)


end
