(* ===== verification/Plugin_Lifecycle.thy ===== *)
theory Plugin_Lifecycle
  imports Plugin_Host
begin

text \<open>
  The life of a plugin's worker (\<^verbatim>\<open>plugin.rs\<close>) as a transition system: any
  number of calls of \<^verbatim>\<open>initialize\<close>, of \<^verbatim>\<open>shutdown\<close> and of
  \<^verbatim>\<open>worker\<close> with \<^verbatim>\<open>respawn_worker\<close>, at any time and
  interleaved at their await points, with workers dying at any moment. An invocation or an
  \<^verbatim>\<open>initialize\<close> may also be cancelled wherever it is; a
  \<^verbatim>\<open>shutdown\<close> is assumed to be polled to its end. Calls of
  \<^verbatim>\<open>initialize\<close> and \<^verbatim>\<open>shutdown\<close> are numbered, an
  invoker \<open>i\<close> makes one call after the other. Workers are numbered in launch order. A worker's
  client is shared by reference count and started with \<^verbatim>\<open>kill_on_drop\<close>: what
  nothing refers to any more after a step is killed by that step.
\<close>

section \<open>State\<close>

datatype caller =
    Idle
  | Seeking
  | Holding
  | BackingOff nat nat
  | Reaping nat
  | Launching
  | Verifying nat
  | Installing nat
  | Unused nat HostError
  | Got "PluginError + nat"

datatype init_phase =
  NotInitialized | InitLaunching | InitVerifying nat | InitInstalling nat | Initialized

datatype shutdown_phase = Up | Taking | Stopping "nat option" | Down

text \<open>\<open>live\<close> holds the workers whose process runs, \<open>stopped\<close> those that were shut down or killed
  because their client was dropped.\<close>

record lifecycle =
  shut_down :: bool
  worker_slot :: "nat option"
  live :: "nat set"
  stopped :: "nat set"
  next_worker :: nat
  handshake :: "nat \<Rightarrow> WorkerCapabilities option"
  respawn_lock :: "nat option"
  budget :: RespawnState
  callers :: "nat \<Rightarrow> caller"
  inits :: "nat \<Rightarrow> init_phase"
  shutting :: "nat \<Rightarrow> shutdown_phase"

definition from_config :: lifecycle where
  "from_config = \<lparr> shut_down = False, worker_slot = None, live = {}, stopped = {}, next_worker = 0,
     handshake = (\<lambda>_. None), respawn_lock = None, budget = new_respawn_state, callers = (\<lambda>_. Idle),
     inits = (\<lambda>_. NotInitialized), shutting = (\<lambda>_. Up) \<rparr>"

text \<open>A worker is launched, stopped, or a caller returns and drops the respawn lock.\<close>

definition launch :: "lifecycle \<Rightarrow> lifecycle" where
  "launch s = s\<lparr> live := insert (next_worker s) (live s), next_worker := next_worker s + 1 \<rparr>"

definition stop_worker :: "nat \<Rightarrow> lifecycle \<Rightarrow> lifecycle" where
  "stop_worker w s = s\<lparr> live := live s - {w}, stopped := insert w (stopped s) \<rparr>"

definition at :: "nat \<Rightarrow> caller \<Rightarrow> lifecycle \<Rightarrow> lifecycle" where
  "at i c s = s\<lparr> callers := (callers s)(i := c) \<rparr>"

definition return :: "nat \<Rightarrow> PluginError + nat \<Rightarrow> lifecycle \<Rightarrow> lifecycle" where
  "return i r s = at i (Got r) (s\<lparr> respawn_lock := None \<rparr>)"

definition init_at :: "nat \<Rightarrow> init_phase \<Rightarrow> lifecycle \<Rightarrow> lifecycle" where
  "init_at k p s = s\<lparr> inits := (inits s)(k := p) \<rparr>"

definition shutdown_at :: "nat \<Rightarrow> shutdown_phase \<Rightarrow> lifecycle \<Rightarrow> lifecycle" where
  "shutdown_at k p s = s\<lparr> shutting := (shutting s)(k := p) \<rparr>"

text \<open>Who holds a reference to a worker's client.\<close>

fun caller_refs :: "caller \<Rightarrow> nat set" where
  "caller_refs (BackingOff w _) = {w}"
| "caller_refs (Reaping w) = {w}"
| "caller_refs (Verifying w) = {w}"
| "caller_refs (Installing w) = {w}"
| "caller_refs (Unused w _) = {w}"
| "caller_refs (Got (Inr w)) = {w}"
| "caller_refs _ = {}"

fun init_refs :: "init_phase \<Rightarrow> nat set" where
  "init_refs (InitVerifying w) = {w}"
| "init_refs (InitInstalling w) = {w}"
| "init_refs _ = {}"

definition referenced :: "lifecycle \<Rightarrow> nat \<Rightarrow> bool" where
  "referenced s w \<longleftrightarrow> worker_slot s = Some w \<or> (\<exists>k. shutting s k = Stopping (Some w)) \<or>
     (\<exists>k. w \<in> init_refs (inits s k)) \<or> (\<exists>i. w \<in> caller_refs (callers s i))"

definition drop_unreferenced :: "lifecycle \<Rightarrow> lifecycle" where
  "drop_unreferenced s =
     (let gone = {w. w < next_worker s \<and> \<not> referenced s w}
      in s\<lparr> live := live s - gone, stopped := stopped s \<union> gone \<rparr>)"

section \<open>Steps\<close>

inductive lifecycle_action :: "plugin_config \<Rightarrow> lifecycle \<Rightarrow> lifecycle \<Rightarrow> bool" for C where
  init_start: "inits s k = NotInitialized \<Longrightarrow>
    lifecycle_action C s (init_at k InitLaunching (s\<lparr> shut_down := False \<rparr>))"
| init_launch_fails: "inits s k = InitLaunching \<Longrightarrow> lifecycle_action C s (init_at k Initialized s)"
| init_launched: "inits s k = InitLaunching \<Longrightarrow>
    lifecycle_action C s (init_at k (InitVerifying (next_worker s)) (launch s))"
| init_refused: "inits s k = InitVerifying w \<Longrightarrow>
    verify_worker_understands C None probe = (Inl e, report) \<Longrightarrow>
    lifecycle_action C s (init_at k Initialized s)"
| init_verified: "inits s k = InitVerifying w \<Longrightarrow>
    verify_worker_understands C None probe = (Inr (), report) \<Longrightarrow>
    lifecycle_action C s (init_at k (InitInstalling w) (s\<lparr> handshake := (handshake s)(w := report) \<rparr>))"
| init_install: "inits s k = InitInstalling w \<Longrightarrow>
    lifecycle_action C s (init_at k Initialized (s\<lparr> worker_slot := Some w \<rparr>))"
| init_cancelled: "lifecycle_action C s (init_at k Initialized s)"
| worker_dies: "lifecycle_action C s (s\<lparr> live := live s - {w} \<rparr>)"
| call_alive: "callers s i = Idle \<Longrightarrow> worker_slot s = Some w \<Longrightarrow> w \<in> live s \<Longrightarrow>
    lifecycle_action C s (at i (Got (Inr w)) s)"
| call_no_worker: "callers s i = Idle \<Longrightarrow> worker_slot s = None \<Longrightarrow>
    lifecycle_action C s (at i (Got (Inl (into_plugin_error
      (if shut_down s then shut_down_error else no_worker_error) (pc_name C)))) s)"
| call_dead: "callers s i = Idle \<Longrightarrow> worker_slot s = Some w \<Longrightarrow> w \<notin> live s \<Longrightarrow>
    lifecycle_action C s (at i Seeking s)"
| lock_respawn: "callers s i = Seeking \<Longrightarrow> respawn_lock s = None \<Longrightarrow>
    lifecycle_action C s (at i Holding (s\<lparr> respawn_lock := Some i \<rparr>))"
| recheck_alive: "callers s i = Holding \<Longrightarrow> worker_slot s = Some w \<Longrightarrow> w \<in> live s \<Longrightarrow>
    lifecycle_action C s (return i (Inr w) s)"
| recheck_shut_down: "callers s i = Holding \<Longrightarrow>
    (case worker_slot s of None \<Rightarrow> True | Some w \<Rightarrow> w \<notin> live s \<and> shut_down s) \<Longrightarrow>
    lifecycle_action C s (return i (Inl (into_plugin_error shut_down_error (pc_name C))) s)"
| budget_exhausted: "callers s i = Holding \<Longrightarrow> worker_slot s = Some w \<Longrightarrow> w \<notin> live s \<Longrightarrow>
    \<not> shut_down s \<Longrightarrow> try_reserve now (budget s) = (None, b) \<Longrightarrow>
    lifecycle_action C s (return i (Inl (into_plugin_error budget_error (pc_name C))) (s\<lparr> budget := b \<rparr>))"
| budget_reserved: "callers s i = Holding \<Longrightarrow> worker_slot s = Some w \<Longrightarrow> w \<notin> live s \<Longrightarrow>
    \<not> shut_down s \<Longrightarrow> try_reserve now (budget s) = (Some n, b) \<Longrightarrow>
    lifecycle_action C s (at i (BackingOff w n) (s\<lparr> budget := b \<rparr>))"
| backoff_shut_down: "callers s i = BackingOff w n \<Longrightarrow> shut_down s \<Longrightarrow>
    lifecycle_action C s (return i (Inl (into_plugin_error shut_down_error (pc_name C))) s)"
| backoff_over: "callers s i = BackingOff w n \<Longrightarrow> \<not> shut_down s \<Longrightarrow>
    lifecycle_action C s (at i (Reaping w) s)"
| reap: "callers s i = Reaping w \<Longrightarrow> lifecycle_action C s (at i Launching (stop_worker w s))"
| respawn_launch_fails: "callers s i = Launching \<Longrightarrow>
    lifecycle_action C s (return i (Inl (into_plugin_error e (pc_name C))) s)"
| respawn_launched: "callers s i = Launching \<Longrightarrow>
    lifecycle_action C s (at i (Verifying (next_worker s)) (launch s))"
| respawn_refused: "callers s i = Verifying w \<Longrightarrow>
    verify_worker_understands C None probe = (Inl e, report) \<Longrightarrow>
    lifecycle_action C s (at i (Unused w e) s)"
| respawn_verified: "callers s i = Verifying w \<Longrightarrow>
    verify_worker_understands C None probe = (Inr (), report) \<Longrightarrow>
    lifecycle_action C s (at i (Installing w) (s\<lparr> handshake := (handshake s)(w := report) \<rparr>))"
| install_shut_down: "callers s i = Installing w \<Longrightarrow> shut_down s \<Longrightarrow>
    lifecycle_action C s (at i (Unused w shut_down_error) s)"
| install: "callers s i = Installing w \<Longrightarrow> \<not> shut_down s \<Longrightarrow>
    lifecycle_action C s (return i (Inr w) (s\<lparr> worker_slot := Some w \<rparr>))"
| stop_unused_worker: "callers s i = Unused w e \<Longrightarrow>
    lifecycle_action C s (return i (Inl (into_plugin_error e (pc_name C))) (stop_worker w s))"
| invocation_probes: "callers s i = Got (Inr w) \<Longrightarrow> handshake s w = None \<Longrightarrow>
    lifecycle_action C s (s\<lparr> handshake := (handshake s)(w := snd (capabilities_of None probe)) \<rparr>)"
| invocation_answered: "callers s i = Got (Inr w) \<Longrightarrow> respawn_lock s = None \<Longrightarrow>
    lifecycle_action C s (at i Idle (s\<lparr> budget := note_worker_healthy (budget s) \<rparr>))"
| call_over: "lifecycle_action C s
    (at i Idle (if respawn_lock s = Some i then s\<lparr> respawn_lock := None \<rparr> else s))"
| shutdown_start: "shutting s k = Up \<Longrightarrow>
    lifecycle_action C s (shutdown_at k Taking (s\<lparr> shut_down := True \<rparr>))"
| shutdown_take: "shutting s k = Taking \<Longrightarrow>
    lifecycle_action C s (shutdown_at k (Stopping (worker_slot s)) (s\<lparr> worker_slot := None \<rparr>))"
| shutdown_stop: "shutting s k = Stopping w \<Longrightarrow>
    lifecycle_action C s (shutdown_at k Down (case w of None \<Rightarrow> s | Some w \<Rightarrow> stop_worker w s))"

inductive lifecycle_step :: "plugin_config \<Rightarrow> lifecycle \<Rightarrow> lifecycle \<Rightarrow> bool" for C where
  step: "lifecycle_action C s a \<Longrightarrow> lifecycle_step C s (drop_unreferenced a)"

section \<open>The invariant\<close>

fun critical :: "caller \<Rightarrow> bool" where
  "critical Idle = False"
| "critical Seeking = False"
| "critical (Got _) = False"
| "critical _ = True"

fun holds :: "caller \<Rightarrow> nat set" where
  "holds (Verifying w) = {w}"
| "holds (Installing w) = {w}"
| "holds (Unused w _) = {w}"
| "holds _ = {}"

fun dying :: "caller \<Rightarrow> nat set" where
  "dying (BackingOff w _) = {w}"
| "dying (Reaping w) = {w}"
| "dying _ = {}"

definition passed :: "plugin_config \<Rightarrow> WorkerCapabilities option \<Rightarrow> bool" where
  "passed C r \<longleftrightarrow> (\<forall>f\<in>set (required_worker_features C). reports r f)"

definition lock_inv :: "lifecycle \<Rightarrow> bool" where
  "lock_inv s \<longleftrightarrow> (\<forall>i. critical (callers s i) \<longleftrightarrow> respawn_lock s = Some i)"

definition numbers_inv :: "lifecycle \<Rightarrow> bool" where
  "numbers_inv s \<longleftrightarrow> live s \<subseteq> {..<next_worker s} \<and> (\<forall>w. referenced s w \<longrightarrow> w < next_worker s)"

definition dying_inv :: "lifecycle \<Rightarrow> bool" where
  "dying_inv s \<longleftrightarrow> (\<forall>i. dying (callers s i) \<inter> live s = {})"

definition no_leak :: "lifecycle \<Rightarrow> bool" where
  "no_leak s \<longleftrightarrow> (\<forall>w\<in>live s. referenced s w)"

fun offered :: "caller \<Rightarrow> nat set" where
  "offered (Installing w) = {w}"
| "offered (Got (Inr w)) = {w}"
| "offered _ = {}"

definition verified_inv :: "plugin_config \<Rightarrow> lifecycle \<Rightarrow> bool" where
  "verified_inv C s \<longleftrightarrow>
     (\<forall>w. worker_slot s = Some w \<or> (\<exists>k. inits s k = InitInstalling w) \<or> (\<exists>i. w \<in> offered (callers s i))
        \<longrightarrow> passed C (handshake s w))"

definition lifecycle_inv :: "plugin_config \<Rightarrow> lifecycle \<Rightarrow> bool" where
  "lifecycle_inv C s \<longleftrightarrow> lock_inv s \<and> numbers_inv s \<and> dying_inv s \<and> no_leak s \<and> verified_inv C s"

lemmas step_defs = launch_def stop_worker_def at_def return_def init_at_def shutdown_at_def

lemma drop_keeps [simp]:
  "shut_down (drop_unreferenced s) = shut_down s" "worker_slot (drop_unreferenced s) = worker_slot s"
  "next_worker (drop_unreferenced s) = next_worker s" "handshake (drop_unreferenced s) = handshake s"
  "respawn_lock (drop_unreferenced s) = respawn_lock s" "callers (drop_unreferenced s) = callers s"
  "inits (drop_unreferenced s) = inits s" "shutting (drop_unreferenced s) = shutting s"
  "referenced (drop_unreferenced s) = referenced s"
  by (auto simp: drop_unreferenced_def referenced_def Let_def fun_eq_iff)

lemma drop_live: "w \<in> live (drop_unreferenced s) \<longleftrightarrow> w \<in> live s \<and> (w < next_worker s \<longrightarrow> referenced s w)"
  by (auto simp: drop_unreferenced_def Let_def)

lemma drop_stopped: "stopped s \<subseteq> stopped (drop_unreferenced s)"
  by (auto simp: drop_unreferenced_def Let_def)

lemma drop_nothing:
  assumes "\<And>w. w < next_worker s \<Longrightarrow> referenced s w"
  shows "drop_unreferenced s = s"
proof -
  have none: "{w. w < next_worker s \<and> \<not> referenced s w} = {}" using assms by blast
  show ?thesis by (simp add: drop_unreferenced_def none)
qed

lemma lock_crit: "lock_inv s \<Longrightarrow> critical (callers s i) \<Longrightarrow> respawn_lock s = Some i"
  by (simp add: lock_inv_def)

lemma lock_unique: "lock_inv s \<Longrightarrow> critical (callers s i) \<Longrightarrow> j \<noteq> i \<Longrightarrow> \<not> critical (callers s j)"
  by (auto simp: lock_inv_def)

lemma lock_irrelevant [simp]:
  "lock_inv (s\<lparr> budget := b \<rparr>) = lock_inv s" "lock_inv (s\<lparr> worker_slot := sl \<rparr>) = lock_inv s"
  "lock_inv (s\<lparr> handshake := hs \<rparr>) = lock_inv s" "lock_inv (init_at k p s) = lock_inv s"
  "lock_inv (s\<lparr> shut_down := d \<rparr>) = lock_inv s" "lock_inv (shutdown_at k q s) = lock_inv s"
  "lock_inv (s\<lparr> live := ws \<rparr>) = lock_inv s" "lock_inv (stop_worker w s) = lock_inv s"
  "lock_inv (launch s) = lock_inv s" "lock_inv (drop_unreferenced s) = lock_inv s"
  "callers (stop_worker w s) = callers s" "callers (launch s) = callers s"
  by (simp_all add: lock_inv_def step_defs)

lemma lock_at: "lock_inv s \<Longrightarrow> critical c = critical (callers s i) \<Longrightarrow> lock_inv (at i c s)"
  by (auto simp: lock_inv_def at_def)

lemma lock_return: "lock_inv s \<Longrightarrow> critical (callers s i) \<Longrightarrow> lock_inv (return i r s)"
  using lock_unique [of s i] by (auto simp: lock_inv_def step_defs)

lemma lock_action: "lifecycle_action C s s' \<Longrightarrow> lock_inv s \<Longrightarrow> lock_inv s'"
proof (induction rule: lifecycle_action.induct)
  case (lock_respawn s i)
  then show ?case by (auto simp: lock_inv_def at_def)
next
  case (call_over s i)
  then show ?case by (auto simp: lock_inv_def at_def)
next
  case (shutdown_stop s k w)
  then show ?case by (cases w) simp_all
qed (simp_all add: lock_at lock_return)

lemma numbers_fresh:
  "numbers_inv s \<Longrightarrow> referenced s w \<Longrightarrow> w < next_worker s"
  "numbers_inv s \<Longrightarrow> w \<in> live s \<Longrightarrow> w < next_worker s"
  by (auto simp: numbers_inv_def)

lemma referencedI:
  "worker_slot s = Some w \<Longrightarrow> referenced s w" "shutting s k = Stopping (Some w) \<Longrightarrow> referenced s w"
  "w \<in> init_refs (inits s k) \<Longrightarrow> referenced s w" "w \<in> caller_refs (callers s i) \<Longrightarrow> referenced s w"
  by (auto simp: referenced_def)

lemma referenced_by:
  "inits s k = InitVerifying w \<Longrightarrow> referenced s w" "inits s k = InitInstalling w \<Longrightarrow> referenced s w"
  "callers s i = BackingOff w n \<Longrightarrow> referenced s w" "callers s i = Reaping w \<Longrightarrow> referenced s w"
  "callers s i = Verifying w \<Longrightarrow> referenced s w" "callers s i = Installing w \<Longrightarrow> referenced s w"
  "callers s i = Unused w e \<Longrightarrow> referenced s w"
  by (rule referencedI(3) [of _ _ k] referencedI(4) [of _ _ i]; simp)+

lemma referenced_at:
  "referenced (at i c s) w \<Longrightarrow> referenced s w \<or> w \<in> caller_refs c"
  "referenced (init_at k p s) w \<Longrightarrow> referenced s w \<or> w \<in> init_refs p"
  "referenced (shutdown_at k q s) w \<Longrightarrow> referenced s w \<or> q = Stopping (Some w)"
  by (auto simp: referenced_def step_defs split: if_splits)

lemma referenced_irrelevant [simp]:
  "referenced (s\<lparr> budget := b \<rparr>) = referenced s" "referenced (s\<lparr> respawn_lock := l \<rparr>) = referenced s"
  "referenced (s\<lparr> handshake := hs \<rparr>) = referenced s" "referenced (s\<lparr> live := ws \<rparr>) = referenced s"
  "referenced (s\<lparr> shut_down := d \<rparr>) = referenced s" "referenced (stop_worker w s) = referenced s"
  "referenced (launch s) = referenced s"
  by (simp_all add: referenced_def step_defs fun_eq_iff)

lemma referenced_slot: "referenced (s\<lparr> worker_slot := sl \<rparr>) w \<Longrightarrow> referenced s w \<or> sl = Some w"
  by (auto simp: referenced_def)

lemma referenced_action:
  assumes "lifecycle_action C s s'" "referenced s' w"
  shows "referenced s w \<or> w = next_worker s \<and> next_worker s' = Suc (next_worker s)"
  using assms
  by (induction rule: lifecycle_action.induct)
     (auto simp: return_def dest!: referenced_at referenced_slot intro: referencedI
       split: option.splits if_splits, auto simp: step_defs dest: referenced_by)

lemma live_action:
  assumes "lifecycle_action C s s'" "w \<in> live s'"
  shows "w \<in> live s \<or> w = next_worker s \<and> next_worker s' = Suc (next_worker s) \<and> referenced s' w"
  using assms
  by (induction rule: lifecycle_action.induct)
     (auto simp: step_defs split: option.splits if_splits, auto simp: referenced_def)

lemma next_action: "lifecycle_action C s s' \<Longrightarrow> next_worker s \<le> next_worker s'"
  by (induction rule: lifecycle_action.induct) (auto simp: step_defs split: option.splits if_splits)

lemma numbers_action: "lifecycle_action C s s' \<Longrightarrow> numbers_inv s \<Longrightarrow> numbers_inv s'"
  using referenced_action [of C s s'] live_action [of C s s'] next_action [of C s s']
  unfolding numbers_inv_def by fastforce

lemma dying_action:
  assumes "lifecycle_action C s s'" "numbers_inv s" "dying_inv s"
  shows "dying_inv s'"
proof -
  have "v \<notin> live s'" if v: "v \<in> dying (callers s' j)" for v j
  proof
    have "v \<in> dying (callers s j) \<or> v \<notin> live s \<and> worker_slot s = Some v"
      using assms(1) v by (induction rule: lifecycle_action.induct)
        (auto simp: step_defs split: option.splits if_splits)
    moreover have "dying c \<subseteq> caller_refs c" for c by (cases c) auto
    ultimately have "referenced s v" by (blast intro: referencedI)
    then have "v < next_worker s" by (rule numbers_fresh [OF assms(2)])
    moreover assume "v \<in> live s'"
    ultimately have "v \<in> live s" using live_action [OF assms(1)] by blast
    with \<open>v \<in> dying (callers s j) \<or> _\<close> assms(3) show False by (auto simp: dying_inv_def)
  qed
  then show ?thesis by (auto simp: dying_inv_def)
qed

lemma passed_unreported: "passed C None \<Longrightarrow> passed C r"
  by (auto simp: passed_def reports_def)

lemma verified_action:
  assumes "lifecycle_action C s s'" "verified_inv C s"
  shows "verified_inv C s'"
  using assms
proof (induction rule: lifecycle_action.induct)
  case (init_verified s k w probe report)
  then show ?case using verify_decision [OF init_verified(2)]
    by (auto simp: verified_inv_def passed_def step_defs)
next
  case (respawn_verified s i w probe report)
  then show ?case using verify_decision [OF respawn_verified(2)]
    by (auto simp: verified_inv_def passed_def step_defs)
next
  case (install s i w)
  then have "w \<in> offered (callers s i)" by simp
  with install.prems have "passed C (handshake s w)" unfolding verified_inv_def by blast
  with install.prems show ?case by (auto simp: verified_inv_def step_defs)
next
  case (invocation_probes s i w probe)
  then have "w \<in> offered (callers s i)" by simp
  with invocation_probes have "passed C None" unfolding verified_inv_def by metis
  then show ?case using invocation_probes.prems passed_unreported by (auto simp: verified_inv_def)
qed (auto simp: verified_inv_def step_defs split: option.split)

lemma from_config_inv: "lifecycle_inv C from_config"
  by (simp add: lifecycle_inv_def lock_inv_def numbers_inv_def dying_inv_def no_leak_def referenced_def
      verified_inv_def from_config_def)

lemma drop_inv:
  "numbers_inv s \<Longrightarrow> numbers_inv (drop_unreferenced s)"
  "dying_inv s \<Longrightarrow> dying_inv (drop_unreferenced s)"
  "numbers_inv s \<Longrightarrow> no_leak (drop_unreferenced s)"
  "verified_inv C s \<Longrightarrow> verified_inv C (drop_unreferenced s)"
  by (auto simp: numbers_inv_def dying_inv_def no_leak_def verified_inv_def drop_live disjoint_iff)

lemma lifecycle_inv_step: "lifecycle_inv C s \<Longrightarrow> lifecycle_step C s s' \<Longrightarrow> lifecycle_inv C s'"
  by (auto simp: lifecycle_inv_def elim!: lifecycle_step.cases
      intro: drop_inv lock_action numbers_action dying_action verified_action)

interpretation lifecycle_system:
  invariant_system "\<lambda>s. s = from_config" "lifecycle_step C" "lifecycle_inv C" for C
  by unfold_locales (auto simp: from_config_inv intro: lifecycle_inv_step)

definition lifecycle_reachable :: "plugin_config \<Rightarrow> lifecycle \<Rightarrow> bool" where
  "lifecycle_reachable C = reachable (\<lambda>s. s = from_config) (lifecycle_step C)"

lemma lifecycle_reachable_inv: "lifecycle_reachable C s \<Longrightarrow> lifecycle_inv C s"
  unfolding lifecycle_reachable_def by (rule lifecycle_system.reachable_inv)

lemma served_passed:
  assumes "lifecycle_reachable C s" "callers s i = Got (Inr w)"
  shows "passed C (handshake s w)"
proof -
  from lifecycle_reachable_inv [OF assms(1)] have inv: "verified_inv C s"
    by (simp add: lifecycle_inv_def)
  have "w \<in> offered (callers s i)" using assms(2) by simp
  with inv show ?thesis unfolding verified_inv_def by blast
qed

section \<open>A shutdown with no initialize beside it\<close>

definition no_initialize :: "lifecycle \<Rightarrow> bool" where
  "no_initialize s \<longleftrightarrow> (\<forall>k. inits s k = NotInitialized \<or> inits s k = Initialized)"

text \<open>A step after which no \<^verbatim>\<open>initialize\<close> is under way.\<close>

definition calm_step :: "plugin_config \<Rightarrow> lifecycle \<Rightarrow> lifecycle \<Rightarrow> bool" where
  "calm_step C s s' \<longleftrightarrow> lifecycle_step C s s' \<and> no_initialize s'"

lemma lifecycle_go':
  "lifecycle_reachable C s \<Longrightarrow> lifecycle_step C s s' \<Longrightarrow> lifecycle_reachable C s'"
  unfolding lifecycle_reachable_def by (rule reachable_step)

lemma calm_reachable:
  assumes "lifecycle_reachable C s" "(calm_step C)\<^sup>*\<^sup>* s s'"
  shows "lifecycle_reachable C s'"
  using assms(2,1) by induction (auto simp: calm_step_def intro: lifecycle_go')

definition being_stopped :: "lifecycle \<Rightarrow> nat \<Rightarrow> bool" where
  "being_stopped s w \<longleftrightarrow> w \<in> stopped s \<or> (\<exists>j. shutting s j = Stopping (Some w))"

definition emptying :: "nat \<Rightarrow> nat option \<Rightarrow> lifecycle \<Rightarrow> bool" where
  "emptying k sl s \<longleftrightarrow> no_initialize s \<and> shut_down s \<and> shutting s k \<noteq> Up \<and>
     (shutting s k = Taking \<or> worker_slot s = None) \<and>
     (\<forall>w. sl = Some w \<longrightarrow> worker_slot s = Some w \<or> being_stopped s w)"

lemma emptying_drop [simp]: "emptying k sl s \<Longrightarrow> emptying k sl (drop_unreferenced s)"
  using drop_stopped [of s] by (auto simp: emptying_def no_initialize_def being_stopped_def)

lemma emptying_frame:
  "emptying k sl s \<Longrightarrow> no_initialize s' \<Longrightarrow> shut_down s' = shut_down s \<Longrightarrow> shutting s' = shutting s \<Longrightarrow>
     worker_slot s' = worker_slot s \<Longrightarrow> stopped s \<subseteq> stopped s' \<Longrightarrow> emptying k sl s'"
  by (auto simp: emptying_def being_stopped_def)

lemma emptying_action:
  assumes "lifecycle_action C s s'" "emptying k sl s" "no_initialize s'"
  shows "emptying k sl s'"
  using assms
proof (induction rule: lifecycle_action.induct)
  case (init_start s j)
  then have "inits (init_at j InitLaunching (s\<lparr> shut_down := False \<rparr>)) j = InitLaunching"
    by (simp add: init_at_def)
  with init_start.prems(2) show ?case unfolding no_initialize_def by (metis init_phase.distinct(1,13))
next
  case (init_install s j w)
  then show ?case unfolding emptying_def no_initialize_def by (metis init_phase.distinct(5,19))
next
  case (install s i w)
  then show ?case by (simp add: emptying_def)
next
  case (shutdown_start s j)
  then show ?case
    by (auto simp: emptying_def being_stopped_def shutdown_at_def) (metis shutdown_phase.distinct)+
next
  case (shutdown_take s j)
  then show ?case
    by (auto simp: emptying_def being_stopped_def shutdown_at_def) (metis shutdown_phase.distinct)+
next
  case (shutdown_stop s j w)
  then show ?case
    by (cases w) (auto simp: emptying_def being_stopped_def step_defs,
        (metis option.distinct(1) option.inject shutdown_phase.inject)+)
qed (erule (1) emptying_frame; auto simp: step_defs)+

lemma emptying_run:
  "(calm_step C)\<^sup>*\<^sup>* s s' \<Longrightarrow> emptying k sl s \<Longrightarrow> emptying k sl s'"
proof (induction rule: rtranclp_induct)
  case (step t u)
  then show ?case
    by (auto simp: calm_step_def no_initialize_def elim!: lifecycle_step.cases intro!: emptying_drop
        intro: emptying_action [unfolded no_initialize_def])
qed

section \<open>Properties\<close>

text \<open>C4: A shutdown with no \<^verbatim>\<open>initialize\<close> beside it leaves no worker behind,
  whatever invocations, respawns and other shutdowns do meanwhile. From the moment it has set its
  flag, and as long as no \<^verbatim>\<open>initialize\<close> runs, no respawn installs a worker; when it
  returns the slot is empty, the worker that was in the slot has been stopped or is being stopped
  by another shutdown, and every process still running belongs to a shutdown that is stopping it,
  to the respawn that owns the respawn lock, or to an invocation that had been given it.\<close>

theorem shutdown_leaves_no_worker:
  assumes "lifecycle_reachable C s0" "no_initialize s0" "shut_down s0" "shutting s0 k = Taking"
    and "(calm_step C)\<^sup>*\<^sup>* s0 s" "shutting s k = Down"
  shows "shut_down s \<and> worker_slot s = None \<and>
    (\<forall>w. worker_slot s0 = Some w \<longrightarrow> w \<in> stopped s \<or> (\<exists>j. shutting s j = Stopping (Some w))) \<and>
    live s \<subseteq> {w. \<exists>j. shutting s j = Stopping (Some w)} \<union>
      (case respawn_lock s of None \<Rightarrow> {} | Some i \<Rightarrow> holds (callers s i)) \<union>
      {w. \<exists>i. callers s i = Got (Inr w)}"
proof -
  from lifecycle_reachable_inv [OF calm_reachable [OF assms(1,5)]]
  have inv: "lock_inv s" "dying_inv s" "no_leak s" by (simp_all add: lifecycle_inv_def)
  have "emptying k (worker_slot s0) s0" using assms(2-4) by (auto simp: emptying_def)
  from emptying_run [OF assms(5) this] assms(6)
  have e: "no_initialize s" "shut_down s" "worker_slot s = None"
    "\<forall>w. worker_slot s0 = Some w \<longrightarrow> being_stopped s w" by (auto simp: emptying_def)
  have lock: "respawn_lock s = Some i" if "w \<in> holds (callers s i)" for w i
    using that lock_crit [OF inv(1), of i] by (cases "callers s i") auto
  have refs: "w \<in> holds c \<or> w \<in> dying c \<or> c = Got (Inr w)" if "w \<in> caller_refs c" for w c
    using that by (induction c rule: caller_refs.induct) auto
  have "init_refs (inits s j) = {}" for j using e(1) unfolding no_initialize_def by (metis init_refs.simps(3,5))
  then have "(\<exists>j. shutting s j = Stopping (Some w)) \<or> (\<exists>i. w \<in> holds (callers s i)) \<or>
    (\<exists>i. callers s i = Got (Inr w))" if "w \<in> live s" for w
    using that inv(2,3) e(3) refs unfolding no_leak_def referenced_def dying_inv_def by fastforce
  then show ?thesis using e lock by (fastforce simp: being_stopped_def)
qed

text \<open>C5: Every worker an invocation is given has passed the handshake: on no path, the first launch
  or a respawn, is a worker installed or returned that did not report every wire feature the
  plugin's declaration requires.\<close>

theorem served_by_verified_worker:
  assumes "lifecycle_reachable C s" "callers s i = Got (Inr w)"
  shows "\<forall>f\<in>set (required_worker_features C). reports (handshake s w) f"
  using served_passed [OF assms] by (simp add: passed_def)

section \<open>A run\<close>

abbreviation reader_config :: plugin_config where
  "reader_config \<equiv> identity_plugin [''read_inbound_credentials'']"

definition good_probe :: "HostError + json" where
  "good_probe = Inr (JObject [(''protocol_version'', jnat 1), (''features'', JArray [JString ''credential''])])"

lemma good_probe_passes: "\<exists>r. verify_worker_understands reader_config None good_probe = (Inr (), r)"
  by (simp add: verify_worker_understands_def required_worker_features_def identity_plugin_def good_probe_def
      capabilities_of_def report_of_def has_feature_def CAP_READ_INBOUND_def CAP_READ_DELEGATED_def
      WORKER_KNOWN_CAPABILITIES_def FEATURE_CREDENTIAL_def FEATURE_CMF_HOOKS_def FEATURE_EXTENSIONS_def
      Let_def obj_get_def)

lemma lifecycle_go:
  assumes "lifecycle_reachable C s" "lifecycle_action C s s'" "\<And>w. w < next_worker s' \<Longrightarrow> referenced s' w"
  shows "lifecycle_reachable C s'"
  using lifecycle_go' [OF assms(1) step [OF assms(2)]] drop_nothing [OF assms(3)] by simp

definition running :: "WorkerCapabilities option \<Rightarrow> lifecycle" where
  "running r = from_config\<lparr> live := {0}, next_worker := 1, worker_slot := Some 0,
     handshake := (\<lambda>_. None)(0 := r), inits := (\<lambda>_. NotInitialized)(0 := Initialized) \<rparr>"

text \<open>The first \<^verbatim>\<open>initialize\<close>, about to install its worker.\<close>

definition installing :: "WorkerCapabilities option \<Rightarrow> lifecycle" where
  "installing r = from_config\<lparr> live := {0}, next_worker := 1,
     handshake := (\<lambda>_. None)(0 := r), inits := (\<lambda>_. NotInitialized)(0 := InitInstalling 0) \<rparr>"

lemma reach_installing:
  assumes "verify_worker_understands C None probe = (Inr (), r)"
  shows "lifecycle_reachable C (installing r)"
proof -
  have 0: "lifecycle_reachable C from_config"
    unfolding lifecycle_reachable_def by (rule reachable_init) simp
  have 1: "lifecycle_reachable C (init_at 0 InitLaunching from_config)"
    using lifecycle_go [OF 0 init_start [of _ 0]] by (simp add: from_config_def step_defs)
  let ?s2 = "init_at 0 (InitVerifying 0) (launch (init_at 0 InitLaunching from_config))"
  have "lifecycle_action C (init_at 0 InitLaunching from_config) ?s2"
    using init_launched [of "init_at 0 InitLaunching from_config" 0 C] by (simp add: from_config_def init_at_def)
  from lifecycle_go [OF 1 this] have 2: "lifecycle_reachable C ?s2"
    by (auto simp: referenced_def step_defs from_config_def intro: exI [of _ 0])
  have "lifecycle_action C ?s2 (installing r)"
    using init_verified [of ?s2 0 0 C probe r] assms
    by (simp add: from_config_def step_defs installing_def fun_upd_def if_distrib cong: if_cong)
  from lifecycle_go [OF 2 this] show ?thesis
    by (auto simp: referenced_def installing_def from_config_def intro: exI [of _ 0])
qed

lemma reach_running:
  assumes "verify_worker_understands C None probe = (Inr (), r)"
  shows "lifecycle_reachable C (running r)"
proof -
  have "lifecycle_action C (installing r) (running r)"
    using init_install [of "installing r" 0 0 C]
    by (simp add: from_config_def step_defs installing_def running_def fun_upd_def if_distrib cong: if_cong)
  from lifecycle_go [OF reach_installing [OF assms] this] show ?thesis
    by (simp add: referenced_def running_def)
qed

lemma shutdown_go:
  assumes "lifecycle_reachable C s" "shutting s k = Up" "\<And>w. w < next_worker s \<Longrightarrow> referenced s w"
  shows "lifecycle_reachable C (shutdown_at k Taking (s\<lparr> shut_down := True \<rparr>))"
proof (rule lifecycle_go [OF assms(1) shutdown_start [OF assms(2)]])
  fix w assume "w < next_worker (shutdown_at k Taking (s\<lparr> shut_down := True \<rparr>))"
  then have "referenced s w" using assms(3) by (simp add: shutdown_at_def)
  then show "referenced (shutdown_at k Taking (s\<lparr> shut_down := True \<rparr>)) w"
    using assms(2) by (auto simp: referenced_def shutdown_at_def) (metis shutdown_phase.distinct)+
qed

text \<open>What \<open>shutdown_leaves_no_worker\<close> cannot do without: a shutdown that runs while an
  \<^verbatim>\<open>initialize\<close> is launching its worker finds an empty slot and returns, and the
  \<^verbatim>\<open>initialize\<close> then installs its worker without looking at the flag. The plugin is
  shut down, no call is under way, and its worker runs and is handed to invocations.\<close>

theorem initialize_outlives_shutdown:
  "\<exists>s. lifecycle_reachable reader_config s \<and> shut_down s \<and> shutting s 0 = Down \<and> no_initialize s \<and>
     worker_slot s = Some 0 \<and> 0 \<in> live s \<and> callers s 7 = Got (Inr 0)"
proof -
  let ?C = reader_config
  from good_probe_passes obtain r where r: "lifecycle_reachable ?C (installing r)"
    using reach_installing by blast
  let ?s1 = "shutdown_at 0 Taking ((installing r)\<lparr> shut_down := True \<rparr>)"
  let ?s2 = "shutdown_at 0 (Stopping None) (?s1\<lparr> worker_slot := None \<rparr>)"
  let ?s3 = "shutdown_at 0 Down ?s2"
  let ?s4 = "init_at 0 Initialized (?s3\<lparr> worker_slot := Some 0 \<rparr>)"
  let ?s5 = "at 7 (Got (Inr 0)) ?s4"
  note ini = installing_def from_config_def
  have 1: "lifecycle_reachable ?C ?s1"
    by (rule shutdown_go [OF r]) (auto simp: ini referenced_def intro: exI [of _ 0])
  have "lifecycle_action ?C ?s1 ?s2"
    using shutdown_take [of ?s1 0 ?C] by (simp add: step_defs ini)
  from lifecycle_go [OF 1 this] have 2: "lifecycle_reachable ?C ?s2"
    by (auto simp: ini step_defs referenced_def intro: exI [of _ 0])
  have "lifecycle_action ?C ?s2 ?s3"
    using shutdown_stop [of ?s2 0 None ?C] by (simp add: shutdown_at_def)
  from lifecycle_go [OF 2 this] have 3: "lifecycle_reachable ?C ?s3"
    by (auto simp: ini step_defs referenced_def intro: exI [of _ 0])
  have "lifecycle_action ?C ?s3 ?s4"
    by (rule init_install) (simp add: ini step_defs)
  from lifecycle_go [OF 3 this] have 4: "lifecycle_reachable ?C ?s4"
    by (simp add: ini step_defs referenced_def)
  have "lifecycle_action ?C ?s4 ?s5"
    by (rule call_alive) (simp_all add: ini step_defs)
  from lifecycle_go [OF 4 this] have 5: "lifecycle_reachable ?C ?s5"
    by (simp add: ini step_defs referenced_def)
  show ?thesis
    by (intro exI [of _ ?s5]) (simp add: 5, simp add: ini step_defs no_initialize_def)
qed

theorem shutdown_leaves_no_worker_witness:
  "\<exists>s. lifecycle_reachable reader_config s \<and> shutting s 0 = Down \<and> next_worker s = 1 \<and>
     worker_slot s = None \<and> (0 \<in> stopped s \<or> (\<exists>j. shutting s j = Stopping (Some 0)))"
proof -
  let ?C = reader_config
  from good_probe_passes obtain r where r: "lifecycle_reachable ?C (running r)"
    using reach_running by blast
  let ?s1 = "shutdown_at 0 Taking ((running r)\<lparr> shut_down := True \<rparr>)"
  let ?s2 = "shutdown_at 0 (Stopping (Some 0)) (?s1\<lparr> worker_slot := None \<rparr>)"
  let ?s3 = "drop_unreferenced (shutdown_at 0 Down (stop_worker 0 ?s2))"
  note run = running_def from_config_def step_defs
  have 1: "lifecycle_reachable ?C ?s1"
    by (rule shutdown_go [OF r]) (auto simp: run referenced_def)
  have "lifecycle_action ?C ?s1 ?s2"
    using shutdown_take [of ?s1 0 ?C] by (simp add: run)
  moreover have "drop_unreferenced ?s2 = ?s2"
    by (rule drop_nothing) (auto simp: run referenced_def intro: exI [of _ 0])
  ultimately have a: "lifecycle_step ?C ?s1 ?s2" using step by metis
  have "lifecycle_action ?C ?s2 (shutdown_at 0 Down (stop_worker 0 ?s2))"
    using shutdown_stop [of ?s2 0 "Some 0" ?C] by (simp add: shutdown_at_def)
  then have b: "lifecycle_step ?C ?s2 ?s3" by (rule step)
  have calm: "no_initialize ?s1" "no_initialize ?s2" "no_initialize ?s3"
    by (simp_all add: no_initialize_def) (simp_all add: run)
  with a b have path: "(calm_step ?C)\<^sup>*\<^sup>* ?s1 ?s3"
    by (meson calm_step_def rtranclp.rtrancl_into_rtrancl rtranclp.rtrancl_refl)
  have down: "shutting ?s3 0 = Down" by (simp add: shutdown_at_def)
  have s1: "shut_down ?s1" "shutting ?s1 0 = Taking" "worker_slot ?s1 = Some 0" by (simp_all add: run)
  have "next_worker ?s3 = 1" by (simp add: run)
  with shutdown_leaves_no_worker [OF 1 calm(1) s1(1,2) path down] s1(3) down calm_reachable [OF 1 path]
  show ?thesis by blast
qed

theorem served_by_verified_worker_witness:
  "\<exists>s. lifecycle_reachable reader_config s \<and> callers s 7 = Got (Inr 0) \<and>
     reports (handshake s 0) FEATURE_CREDENTIAL"
proof -
  from good_probe_passes obtain r where r: "lifecycle_reachable reader_config (running r)"
    using reach_running by blast
  let ?s = "at 7 (Got (Inr 0)) (running r)"
  have "lifecycle_action reader_config (running r) ?s"
    by (rule call_alive) (simp_all add: from_config_def running_def)
  from lifecycle_go [OF r this] have s: "lifecycle_reachable reader_config ?s"
    by (simp add: referenced_def at_def running_def)
  have c: "callers ?s 7 = Got (Inr 0)" by (simp add: at_def)
  have "FEATURE_CREDENTIAL \<in> set (required_worker_features reader_config)"
    by (simp add: required_feature_iff identity_plugin_def CAP_READ_INBOUND_def)
  with served_by_verified_worker [OF s c] s c show ?thesis by blast
qed

end
