(* ===== verification/Venv.thy ===== *)
theory Venv
  imports Host_Error Legacy_Payloads "HOL-Library.Char_ord" "HOL-Library.List_Lexorder"
    "HOL-Library.Countable"
begin

text \<open>
  The virtualenv cache (\<^verbatim>\<open>venv.rs\<close>): the layout of a plugin's files, the verdict on a
  cached venv, the owner registry of a shared one, and \<^verbatim>\<open>ensure\<close> with every file
  operation and child process it performs. The file system is a map from paths to contents and a
  map from venv directories to their (opaque) state; what the operating system, the hash function,
  the JSON codec, \<^verbatim>\<open>python3 -m venv\<close> and pip do are the fields of \<open>os\<close>.
\<close>

section \<open>The world\<close>

record 'v world =
  files :: "string \<Rightarrow> string option"
  venvs :: "string \<Rightarrow> 'v option"

datatype pip_run =
    PipSpawnError string
  | PipWaitError string
  | PipTimedOut
  | PipExit "32 word option" string

text \<open>\<open>io_error op path\<close> is the error an operation fails with. A child process returns its exit
  code (none when a signal killed it) and its stderr; the second component is the venv directory
  it leaves. pip sees the files, the directory it runs in and the requirements path. A process succeeds when it exits with code 0.\<close>

record 'v os =
  io_error :: "string \<Rightarrow> string \<Rightarrow> string option"
  sha256_hex :: "string \<Rightarrow> string"
  parse_json :: "string \<Rightarrow> json option"
  pretty_json :: "json \<Rightarrow> string + string"
  unicode_alphanumeric :: "string \<Rightarrow> bool"
  python_venv :: "string \<Rightarrow> 'v option \<Rightarrow> (string + 32 word option \<times> string) \<times> 'v option"
  pip_install :: "string \<Rightarrow> (string \<Rightarrow> string option) \<Rightarrow> 'v option \<Rightarrow> string \<Rightarrow> pip_run \<times> 'v option"

definition path_join :: "string \<Rightarrow> string \<Rightarrow> string" where
  "path_join a b =
     (if b \<noteq> [] \<and> hd b = CHR 0x2F then b
      else if a = [] \<or> last a = CHR 0x2F then a @ b
      else a @ [CHR 0x2F] @ b)"

definition exists :: "'v world \<Rightarrow> string \<Rightarrow> bool" where
  "exists w p \<longleftrightarrow> files w p \<noteq> None \<or> venvs w p \<noteq> None"

definition read_file :: "'v os \<Rightarrow> 'v world \<Rightarrow> string \<Rightarrow> string option" where
  "read_file S w p = (if io_error S ''read'' p = None then files w p else None)"

definition read_to_string :: "'v os \<Rightarrow> 'v world \<Rightarrow> string \<Rightarrow> string option" where
  "read_to_string S w p = Option.bind (read_file S w p) (\<lambda>s. if utf8_valid s then Some s else None)"

definition write_file ::
  "'v os \<Rightarrow> (string \<Rightarrow> HostError) \<Rightarrow> string \<Rightarrow> string \<Rightarrow> 'v world \<Rightarrow> (HostError + unit) \<times> 'v world" where
  "write_file S err p s w =
     (case io_error S ''write'' p of
        Some e \<Rightarrow> (Inl (err e), w)
      | None \<Rightarrow> (Inr (), w\<lparr> files := (files w)(p := Some s) \<rparr>))"

definition create_dir_all ::
  "'v os \<Rightarrow> (string \<Rightarrow> HostError) \<Rightarrow> string \<Rightarrow> 'v world \<Rightarrow> (HostError + unit) \<times> 'v world" where
  "create_dir_all S err p w =
     (case io_error S ''create_dir_all'' p of Some e \<Rightarrow> (Inl (err e), w) | None \<Rightarrow> (Inr (), w))"

text \<open>Sequencing of steps that change the world, stopping at the first error.\<close>

definition then_do ::
  "(HostError + 'a) \<times> 'v world \<Rightarrow> ('a \<Rightarrow> 'v world \<Rightarrow> (HostError + 'b) \<times> 'v world)
     \<Rightarrow> (HostError + 'b) \<times> 'v world" where
  "then_do r f = (case fst r of Inl e \<Rightarrow> (Inl e, snd r) | Inr x \<Rightarrow> f x (snd r))"

section \<open>Cache metadata\<close>

record CacheMetadata =
  md_venv_path :: string
  md_requirements_file :: "string option"
  md_requirements_hash :: string
  md_manifest_version :: "string option"
  md_manifest_hash :: "string option"
  md_python_version :: "string option"

definition nullable :: "string option \<Rightarrow> json" where
  "nullable v = (case v of None \<Rightarrow> JNull | Some s \<Rightarrow> JString s)"

definition ser_metadata :: "CacheMetadata \<Rightarrow> json" where
  "ser_metadata d =
     JObject ([(''venv_path'', JString (md_venv_path d)),
         (''requirements_file'', nullable (md_requirements_file d)),
         (''requirements_hash'', JString (md_requirements_hash d))]
       @ skip_none ''manifest_version'' JString (md_manifest_version d)
       @ skip_none ''manifest_hash'' JString (md_manifest_hash d)
       @ [(''python_version'', nullable (md_python_version d))])"

definition de_metadata :: "json \<Rightarrow> CacheMetadata option" where
  "de_metadata v =
     Option.bind (struct_fields [''venv_path'', ''requirements_file'', ''requirements_hash'',
         ''manifest_version'', ''manifest_hash'', ''python_version''] v) (\<lambda>m.
     Option.bind (req as_str m ''venv_path'') (\<lambda>vp.
     Option.bind (opt as_str m ''requirements_file'') (\<lambda>rf.
     Option.bind (req as_str m ''requirements_hash'') (\<lambda>rh.
     Option.bind (opt as_str m ''manifest_version'') (\<lambda>mv.
     Option.bind (opt as_str m ''manifest_hash'') (\<lambda>mh.
     Option.bind (opt as_str m ''python_version'') (\<lambda>pv.
     Some \<lparr> md_venv_path = vp, md_requirements_file = rf, md_requirements_hash = rh,
       md_manifest_version = mv, md_manifest_hash = mh, md_python_version = pv \<rparr>)))))))"

datatype CacheVerdict =
    Valid | VenvMissing | MetadataMissing | MetadataUnreadable | RequirementsChanged
  | ManifestVersionChanged | ManifestHashChanged

definition is_valid :: "CacheVerdict \<Rightarrow> bool" where
  "is_valid v \<longleftrightarrow> v = Valid"

definition hash_file_or_empty :: "'v os \<Rightarrow> 'v world \<Rightarrow> string option \<Rightarrow> string" where
  "hash_file_or_empty S w path =
     sha256_hex S (case path of
        Some p \<Rightarrow> (case read_file S w p of Some bytes \<Rightarrow> bytes | None \<Rightarrow> [])
      | None \<Rightarrow> [])"

definition evaluate_cache ::
  "'v os \<Rightarrow> 'v world \<Rightarrow> string \<Rightarrow> string \<Rightarrow> string \<Rightarrow> string option \<Rightarrow> string option \<Rightarrow> CacheVerdict" where
  "evaluate_cache S w venv_path metadata_path req_hash version hash =
     (if \<not> exists w venv_path then VenvMissing
      else if \<not> exists w metadata_path then MetadataMissing
      else case read_to_string S w metadata_path of
        None \<Rightarrow> MetadataUnreadable
      | Some raw \<Rightarrow>
          (case Option.bind (parse_json S raw) de_metadata of
             None \<Rightarrow> MetadataUnreadable
           | Some d \<Rightarrow>
               if md_requirements_hash d \<noteq> req_hash then RequirementsChanged
               else if md_manifest_version d \<noteq> None \<and> md_manifest_version d \<noteq> version
               then ManifestVersionChanged
               else if md_manifest_hash d \<noteq> None \<and> md_manifest_hash d \<noteq> hash
               then ManifestHashChanged
               else Valid))"

section \<open>Layout\<close>

text \<open>The characters of a string: its UTF-8 units.\<close>

function str_chars :: "string \<Rightarrow> string list" where
  "str_chars s =
     (if s = [] then []
      else let k = snd (utf8_step s) in take k s # str_chars (drop k s))"
  by pat_completeness auto
termination
  by (relation "measure length") (simp_all add: Let_def)

declare str_chars.simps [simp del]

lemma str_chars_ascii:
  "str_chars [] = []" "byte_in 0 0x7F c \<Longrightarrow> str_chars (c # s) = [c] # str_chars s"
proof -
  show "str_chars [] = []" by (subst str_chars.simps) simp
  assume "byte_in 0 0x7F c"
  then have "utf8_step (c # s) = (True, 1)" by (simp add: utf8_step.simps utf8_width_def)
  then show "str_chars (c # s) = [c] # str_chars s" by (subst str_chars.simps) (simp add: Let_def)
qed

definition ascii_alphanumeric :: "char \<Rightarrow> bool" where
  "ascii_alphanumeric c \<longleftrightarrow>
     (let n = of_char c :: nat in 48 \<le> n \<and> n \<le> 57 \<or> 65 \<le> n \<and> n \<le> 90 \<or> 97 \<le> n \<and> n \<le> 122)"

definition is_alphanumeric :: "'v os \<Rightarrow> string \<Rightarrow> bool" where
  "is_alphanumeric S u =
     (case u of [c] \<Rightarrow> ascii_alphanumeric c | _ \<Rightarrow> unicode_alphanumeric S u)"

definition hyphen :: char where
  "hyphen = CHR 0x2D"

definition trim_hyphens :: "string \<Rightarrow> string" where
  "trim_hyphens s = rev (dropWhile (\<lambda>c. c = hyphen) (rev (dropWhile (\<lambda>c. c = hyphen) s)))"

definition manifest_stem_for_class :: "'v os \<Rightarrow> string \<Rightarrow> string" where
  "manifest_stem_for_class S class_name =
     (let safe = concat (map (\<lambda>u. if is_alphanumeric S u \<or> u = [hyphen] \<or> u = [CHR 0x5F] then u
                                   else [hyphen]) (str_chars (trim class_name)));
          safe = trim_hyphens safe
      in if safe = [] then ''plugin'' else safe)"

definition manifest_filename_for_class :: "'v os \<Rightarrow> string \<Rightarrow> string" where
  "manifest_filename_for_class S class_name =
     manifest_stem_for_class S class_name @ ''.plugin-manifest.yaml''"

definition OWNERS_FILENAME :: string where
  "OWNERS_FILENAME = ''owners.json''"

record VenvLayout =
  plugin_path :: string
  venv_path :: string
  cache_dir :: string
  metadata_path :: string
  manifest_path :: string
  owners_path :: string

definition resolve_layout :: "'v os \<Rightarrow> string list \<Rightarrow> string \<Rightarrow> HostError + VenvLayout" where
  "resolve_layout S plugin_dirs class_name =
     (case plugin_dirs of
        [] \<Rightarrow> Inl (Config (''isolated_venv requires at least one plugin directory '' @ dash
                @ '' the venv is built under the first one''))
      | first # _ \<Rightarrow>
          let class_root = takeWhile (\<lambda>c. c \<noteq> CHR 0x2E) class_name in
          if class_root = [] then Inl (Config (bq ''class_name'' @ '' '' @ sq class_name
                @ '' has no leading package segment''))
          else
            let pp = path_join first class_root;
                cd = path_join (path_join pp ''.cpex'') ''venv_cache''
            in Inr \<lparr> plugin_path = pp, venv_path = path_join pp ''.venv'', cache_dir = cd,
                  metadata_path = path_join cd (manifest_stem_for_class S class_name @ ''_metadata.json''),
                  manifest_path = path_join pp (manifest_filename_for_class S class_name),
                  owners_path = path_join cd OWNERS_FILENAME \<rparr>)"

definition python_executable :: "VenvLayout \<Rightarrow> string" where
  "python_executable l = path_join (path_join (venv_path l) ''bin'') ''python''"

section \<open>Owners\<close>

text \<open>The registry is a \<^verbatim>\<open>BTreeSet\<close>: a sorted list without duplicates.\<close>

definition ser_owners :: "string list \<Rightarrow> json" where
  "ser_owners owners = JObject [(''owners'', string_list owners)]"

definition de_owners :: "json \<Rightarrow> string list option" where
  "de_owners v =
     Option.bind (struct_fields [''owners''] v) (\<lambda>m.
       map_option (\<lambda>xs. sort (remdups xs)) (dflt de_string_list [] m ''owners''))"

definition load_owners :: "'v os \<Rightarrow> 'v world \<Rightarrow> string \<Rightarrow> string list" where
  "load_owners S w path =
     (case Option.bind (Option.bind (read_to_string S w path) (parse_json S)) de_owners of
        Some owners \<Rightarrow> owners | None \<Rightarrow> [])"

definition has_other_owner :: "string list \<Rightarrow> string \<Rightarrow> bool" where
  "has_other_owner owners class_name \<longleftrightarrow> list_ex (\<lambda>o'. o' \<noteq> class_name) owners"

section \<open>The manager\<close>

datatype EnsureOutcome = Reused | Built bool | SharedUpdate bool

definition DEFAULT_PIP_TIMEOUT_SECS :: nat where
  "DEFAULT_PIP_TIMEOUT_SECS = 600"

record VenvManager =
  layout :: VenvLayout
  requirements_file :: "string option"
  manifest_version :: "string option"
  class_name :: string
  pip_timeout_secs :: nat

definition new_manager ::
  "'v os \<Rightarrow> string list \<Rightarrow> string \<Rightarrow> string option \<Rightarrow> string option \<Rightarrow> HostError + VenvManager" where
  "new_manager S plugin_dirs cls requirements version =
     rbind (resolve_layout S plugin_dirs cls) (\<lambda>l.
       Inr \<lparr> layout = l, requirements_file = map_option (path_join (plugin_path l)) requirements,
             manifest_version = version, class_name = cls,
             pip_timeout_secs = DEFAULT_PIP_TIMEOUT_SECS \<rparr>)"

definition cache_verdict :: "'v os \<Rightarrow> VenvManager \<Rightarrow> 'v world \<Rightarrow> CacheVerdict" where
  "cache_verdict S M w =
     evaluate_cache S w (venv_path (layout M)) (metadata_path (layout M))
       (hash_file_or_empty S w (requirements_file M)) (manifest_version M)
       (Some (hash_file_or_empty S w (Some (manifest_path (layout M)))))"

definition write_owners :: "'v os \<Rightarrow> VenvManager \<Rightarrow> string list \<Rightarrow> 'v world \<Rightarrow> (HostError + unit) \<times> 'v world" where
  "write_owners S M owners w =
     (case pretty_json S (ser_owners owners) of
        Inl e \<Rightarrow> (Inl (VenvBuild (''could not serialize the venv owner registry: '' @ e)), w)
      | Inr text \<Rightarrow>
          write_file S (\<lambda>e. VenvBuild (''could not write venv owners '' @ owners_path (layout M) @ '': '' @ e))
            (owners_path (layout M)) text w)"

definition register_owner :: "'v os \<Rightarrow> VenvManager \<Rightarrow> 'v world \<Rightarrow> (HostError + unit) \<times> 'v world" where
  "register_owner S M w =
     (let owners = load_owners S w (owners_path (layout M)) in
      if class_name M \<in> set owners then (Inr (), w)
      else then_do (create_dir_all S (\<lambda>e. VenvBuild (''could not create cache dir ''
               @ cache_dir (layout M) @ '': '' @ e)) (cache_dir (layout M)) w)
             (\<lambda>_. write_owners S M (insort (class_name M) owners)))"

definition release_owner :: "'v os \<Rightarrow> VenvManager \<Rightarrow> 'v world \<Rightarrow> (HostError + unit) \<times> 'v world" where
  "release_owner S M w =
     (let path = owners_path (layout M); owners = load_owners S w path in
      if class_name M \<notin> set owners then (Inr (), w)
      else let rest = remove1 (class_name M) owners in
        if rest = [] then
          (if exists w path then
             (case io_error S ''remove_file'' path of
                Some e \<Rightarrow> (Inl (VenvBuild (''could not remove venv owners '' @ path @ '': '' @ e)), w)
              | None \<Rightarrow> (Inr (), w\<lparr> files := (files w)(path := None) \<rparr>))
           else (Inr (), w))
        else write_owners S M rest w)"

definition remove_stale_venv :: "'v os \<Rightarrow> VenvManager \<Rightarrow> bool \<Rightarrow> 'v world \<Rightarrow> (HostError + unit) \<times> 'v world" where
  "remove_stale_venv S M update_in_place w =
     (let p = venv_path (layout M) in
      if \<not> update_in_place \<and> exists w p then
        (case io_error S ''remove_dir_all'' p of
           Some e \<Rightarrow> (Inl (VenvBuild (''could not remove stale venv '' @ p @ '': '' @ e)), w)
         | None \<Rightarrow> (Inr (), w\<lparr> venvs := (venvs w)(p := None) \<rparr>))
      else (Inr (), w))"

definition prepare_directories :: "'v os \<Rightarrow> VenvManager \<Rightarrow> bool \<Rightarrow> 'v world \<Rightarrow> (HostError + unit) \<times> 'v world" where
  "prepare_directories S M update_in_place w =
     then_do (create_dir_all S (\<lambda>e. VenvBuild (''could not create plugin dir ''
         @ plugin_path (layout M) @ '': '' @ e)) (plugin_path (layout M)) w) (\<lambda>_ w.
     then_do (create_dir_all S (\<lambda>e. VenvBuild (''could not create cache dir ''
         @ cache_dir (layout M) @ '': '' @ e)) (cache_dir (layout M)) w) (\<lambda>_.
     remove_stale_venv S M update_in_place))"

definition create_venv :: "'v os \<Rightarrow> VenvManager \<Rightarrow> 'v world \<Rightarrow> (HostError + unit) \<times> 'v world" where
  "create_venv S M w =
     (let p = venv_path (layout M); (r, dir) = python_venv S p (venvs w p);
          w' = w\<lparr> venvs := (venvs w)(p := dir) \<rparr>
      in case r of
           Inl e \<Rightarrow> (Inl (VenvBuild (''could not run '' @ bq ''python3 -m venv'' @ '': '' @ e
                       @ '' (is python3 on PATH?)'')), w')
         | Inr (status, err) \<Rightarrow>
             if status = Some 0 then (Inr (), w')
             else (Inl (VenvCommand ''python3 -m venv'' p (from_output status err)), w'))"

definition install_requirements :: "'v os \<Rightarrow> VenvManager \<Rightarrow> 'v world \<Rightarrow> (HostError + bool) \<times> 'v world" where
  "install_requirements S M w =
     (case requirements_file M of
        None \<Rightarrow> (Inr False, w)
      | Some rf \<Rightarrow>
          if \<not> exists w rf then (Inr False, w)
          else
            let p = venv_path (layout M); python = python_executable (layout M);
                (run, dir) = pip_install S python (files w) (venvs w p) rf;
                w' = w\<lparr> venvs := (venvs w)(p := dir) \<rparr>
            in case run of
                 PipSpawnError e \<Rightarrow> (Inl (VenvBuild (''could not run pip in '' @ python @ '': '' @ e)), w')
               | PipWaitError e \<Rightarrow> (Inl (VenvBuild (''could not wait on pip in '' @ python @ '': '' @ e)), w')
               | PipTimedOut \<Rightarrow> (Inl (VenvBuild (''pip install -r '' @ rf @ '' exceeded the ''
                    @ show_nat (pip_timeout_secs M) @ ''s timeout and was killed '' @ dash
                    @ '' check network reachability to the package index, or raise the pip timeout'')), w')
               | PipExit status err \<Rightarrow>
                   if status = Some 0 then (Inr True, w')
                   else (Inl (VenvCommand ''pip install'' rf (from_output status err)), w'))"

definition metadata_of :: "'v os \<Rightarrow> VenvManager \<Rightarrow> 'v world \<Rightarrow> CacheMetadata" where
  "metadata_of S M w =
     \<lparr> md_venv_path = venv_path (layout M),
       md_requirements_file = (case requirements_file M of
          None \<Rightarrow> None | Some rf \<Rightarrow> if exists w rf then Some rf else None),
       md_requirements_hash = hash_file_or_empty S w (requirements_file M),
       md_manifest_version = manifest_version M,
       md_manifest_hash = Some (hash_file_or_empty S w (Some (manifest_path (layout M)))),
       md_python_version = None \<rparr>"

definition save_metadata :: "'v os \<Rightarrow> VenvManager \<Rightarrow> 'v world \<Rightarrow> (HostError + unit) \<times> 'v world" where
  "save_metadata S M w =
     (case pretty_json S (ser_metadata (metadata_of S M w)) of
        Inl e \<Rightarrow> (Inl (VenvBuild (''could not serialize cache metadata: '' @ e)), w)
      | Inr text \<Rightarrow>
          write_file S (\<lambda>e. VenvBuild (''could not write cache metadata '' @ metadata_path (layout M)
             @ '': '' @ e)) (metadata_path (layout M)) text w)"

definition build_venv :: "'v os \<Rightarrow> VenvManager \<Rightarrow> bool \<Rightarrow> 'v world \<Rightarrow> (HostError + EnsureOutcome) \<times> 'v world" where
  "build_venv S M update_in_place w =
     then_do (prepare_directories S M update_in_place w) (\<lambda>_ w.
     then_do (if update_in_place then (Inr (), w) else create_venv S M w) (\<lambda>_ w.
     then_do (install_requirements S M w) (\<lambda>installed w.
     then_do (register_owner S M w) (\<lambda>_ w.
     then_do (save_metadata S M w) (\<lambda>_ w.
       (Inr (if update_in_place then SharedUpdate installed else Built installed), w))))))"

definition ensure :: "'v os \<Rightarrow> VenvManager \<Rightarrow> 'v world \<Rightarrow> (HostError + EnsureOutcome) \<times> 'v world" where
  "ensure S M w =
     (if is_valid (cache_verdict S M w)
      then then_do (register_owner S M w) (\<lambda>_ w. (Inr Reused, w))
      else
        let shared = has_other_owner (load_owners S w (owners_path (layout M))) (class_name M);
            update_in_place = (shared \<and> exists w (venv_path (layout M)))
        in build_venv S M update_in_place w)"

section \<open>Laws of the environment\<close>

text \<open>The JSON text the host writes reads back as the value it wrote, and is UTF-8.\<close>

definition codec_law :: "'v os \<Rightarrow> bool" where
  "codec_law S \<longleftrightarrow> (\<forall>j t. pretty_json S j = Inr t \<longrightarrow> parse_json S t = Some j \<and> utf8_valid t)"

text \<open>A process that reports success left a venv directory behind.\<close>

definition tools_law :: "'v os \<Rightarrow> bool" where
  "tools_law S \<longleftrightarrow>
     (\<forall>p d err d'. python_venv S p d = (Inr (Some 0, err), d') \<longrightarrow> d' \<noteq> None) \<and>
     (\<forall>py fs d rf err d'. pip_install S py fs d rf = (PipExit (Some 0) err, d') \<longrightarrow> d' \<noteq> None)"

section \<open>Frame: what each step touches\<close>

definition touches :: "VenvManager \<Rightarrow> 'v world \<Rightarrow> 'v world \<Rightarrow> bool" where
  "touches M w w' \<longleftrightarrow>
     (\<forall>p. p \<noteq> metadata_path (layout M) \<and> p \<noteq> owners_path (layout M) \<longrightarrow> files w' p = files w p) \<and>
     (\<forall>p. p \<noteq> venv_path (layout M) \<longrightarrow> venvs w' p = venvs w p)"

lemma touches_refl [simp]: "touches M w w"
  by (simp add: touches_def)

lemma touches_trans: "touches M w w' \<Longrightarrow> touches M w' w'' \<Longrightarrow> touches M w w''"
  by (simp add: touches_def)

lemma touches_then:
  "touches M w (snd r) \<Longrightarrow> (\<And>x w'. touches M w' (snd (f x w'))) \<Longrightarrow> touches M w (snd (then_do r f))"
  by (auto simp: then_do_def intro: touches_trans split: sum.split)

lemma write_touches [simp]:
  "p = metadata_path (layout M) \<or> p = owners_path (layout M) \<Longrightarrow> touches M w (snd (write_file S err p t w))"
  by (auto simp: write_file_def touches_def split: option.split)

lemma create_dir_same [simp]: "snd (create_dir_all S err p w) = w"
  by (simp add: create_dir_all_def split: option.split)

lemma write_owners_touches [simp]: "touches M w (snd (write_owners S M xs w))"
  by (simp add: write_owners_def split: sum.split)

lemma register_touches [simp]: "touches M w (snd (register_owner S M w))"
  by (simp add: register_owner_def Let_def touches_then)

lemma remove_touches [simp]: "touches M w (snd (remove_stale_venv S M u w))"
  by (simp add: remove_stale_venv_def touches_def Let_def split: option.split)

lemma prepare_touches [simp]: "touches M w (snd (prepare_directories S M u w))"
  unfolding prepare_directories_def by (intro touches_then) simp_all

lemma create_touches [simp]: "touches M w (snd (create_venv S M w))"
  by (auto simp: create_venv_def touches_def Let_def split: prod.split sum.split)

lemma install_touches [simp]: "touches M w (snd (install_requirements S M w))"
  by (auto simp: install_requirements_def touches_def Let_def
      split: option.split prod.split pip_run.split)

lemma save_touches [simp]: "touches M w (snd (save_metadata S M w))"
  by (simp add: save_metadata_def split: sum.split)

lemma build_touches [simp]: "touches M w (snd (build_venv S M u w))"
  unfolding build_venv_def by (intro touches_then) simp_all

lemma ensure_touches: "touches M w (snd (ensure S M w))"
  by (simp add: ensure_def Let_def touches_then)

section \<open>The files of a layout are distinct\<close>

lemma path_join_suffix: "suffix b (path_join a (st @ b))"
  by (auto simp: path_join_def suffix_def)

definition layout_ok :: "VenvLayout \<Rightarrow> bool" where
  "layout_ok l \<longleftrightarrow> metadata_path l \<noteq> owners_path l \<and> metadata_path l \<noteq> manifest_path l \<and>
     owners_path l \<noteq> manifest_path l"

lemma suffix_differs:
  assumes "suffix a s" "suffix b s" "length a \<le> length b"
  shows "suffix a b"
  using assms suffix_length_suffix by blast

lemma resolve_layout_ok: "resolve_layout S dirs cls = Inr l \<Longrightarrow> layout_ok l"
proof -
  assume r: "resolve_layout S dirs cls = Inr l"
  then obtain cd pp st where *: "metadata_path l = path_join cd (st @ ''_metadata.json'')"
    "owners_path l = path_join cd ''owners.json''"
    "manifest_path l = path_join pp (st @ ''.plugin-manifest.yaml'')"
    by (auto simp: resolve_layout_def manifest_filename_for_class_def OWNERS_FILENAME_def Let_def
        split: list.splits if_splits)
  have suf: "suffix ''_metadata.json'' (metadata_path l)" "suffix ''owners.json'' (owners_path l)"
    "suffix ''.plugin-manifest.yaml'' (manifest_path l)"
    using path_join_suffix [of "''_metadata.json''" cd st] path_join_suffix [of "''owners.json''" cd "[]"]
      path_join_suffix [of "''.plugin-manifest.yaml''" pp st]
    by (simp_all add: *)
  have "\<not> suffix ''owners.json'' ''_metadata.json''" "\<not> suffix ''_metadata.json'' ''.plugin-manifest.yaml''"
    "\<not> suffix ''owners.json'' ''.plugin-manifest.yaml''"
    by (simp_all add: suffix_to_prefix)
  then show ?thesis
    using suf suffix_differs [of "''owners.json''" "metadata_path l" "''_metadata.json''"]
      suffix_differs [of "''_metadata.json''" "manifest_path l" "''.plugin-manifest.yaml''"]
      suffix_differs [of "''owners.json''" "manifest_path l" "''.plugin-manifest.yaml''"]
    by (auto simp: layout_ok_def)
qed

section \<open>A successful build is a cache hit\<close>

lemma then_do_Inr:
  "then_do r f = (Inr y, w') \<longleftrightarrow> (\<exists>x w. r = (Inr x, w) \<and> f x w = (Inr y, w'))"
  by (cases r; cases "fst r") (auto simp: then_do_def)

lemma metadata_codec: "de_metadata (ser_metadata d) = Some d"
  by (cases d) (auto simp: de_metadata_def ser_metadata_def struct_fields_def req_def opt_def opt_of_def
      skip_none_def nullable_def obj_get_def split: option.split)

lemma owners_codec: "de_owners (ser_owners xs) = Some (sort (remdups xs))"
  by (simp add: de_owners_def ser_owners_def struct_fields_def dflt_def obj_get_def
      string_list_codec.round_trip)

text \<open>The inputs of a verdict are files the build does not write, and can be read.\<close>

definition inputs_ok :: "'v os \<Rightarrow> VenvManager \<Rightarrow> bool" where
  "inputs_ok S M \<longleftrightarrow> layout_ok (layout M) \<and>
     requirements_file M \<noteq> Some (metadata_path (layout M)) \<and>
     requirements_file M \<noteq> Some (owners_path (layout M)) \<and>
     io_error S ''read'' (metadata_path (layout M)) = None \<and>
     io_error S ''read'' (owners_path (layout M)) = None"

lemma hash_same:
  assumes "\<And>p. path = Some p \<Longrightarrow> files w' p = files w p"
  shows "hash_file_or_empty S w' path = hash_file_or_empty S w path"
  using assms by (cases path) (auto simp: hash_file_or_empty_def read_file_def)

lemma touches_hashes:
  assumes "inputs_ok S M" "touches M w w'"
  shows "hash_file_or_empty S w' (requirements_file M) = hash_file_or_empty S w (requirements_file M)"
    and "hash_file_or_empty S w' (Some (manifest_path (layout M)))
       = hash_file_or_empty S w (Some (manifest_path (layout M)))"
  using assms by (auto intro!: hash_same simp: inputs_ok_def layout_ok_def touches_def)

lemma save_makes_valid:
  assumes "codec_law S" "inputs_ok S M" "exists w (venv_path (layout M))"
    "save_metadata S M w = (Inr (), w')"
  shows "cache_verdict S M w' = Valid"
proof -
  let ?d = "metadata_of S M w"
  obtain t where t: "pretty_json S (ser_metadata ?d) = Inr t"
    and w': "w' = w\<lparr> files := (files w)(metadata_path (layout M) := Some t) \<rparr>"
    using assms(4) by (auto simp: save_metadata_def write_file_def split: sum.splits option.splits)
  have parse: "Option.bind (parse_json S t) de_metadata = Some ?d" "utf8_valid t"
    using assms(1) t by (auto simp: codec_law_def metadata_codec)
  have "touches M w w'" using save_touches [of M w S] assms(4) by simp
  note h = touches_hashes [OF assms(2) this]
  have read: "read_to_string S w' (metadata_path (layout M)) = Some t"
    using assms(2) parse(2) by (simp add: read_to_string_def read_file_def w' inputs_ok_def)
  have "exists w' (venv_path (layout M))" using assms(3) by (auto simp: exists_def w')
  moreover have "exists w' (metadata_path (layout M))" by (simp add: exists_def w')
  ultimately show ?thesis
    by (simp add: cache_verdict_def evaluate_cache_def read parse(1) h) (simp add: metadata_of_def)
qed

lemma create_makes_venv:
  assumes "tools_law S" "create_venv S M w = (Inr (), w')"
  shows "exists w' (venv_path (layout M))"
  using assms by (auto simp: create_venv_def exists_def tools_law_def Let_def
      split: prod.splits sum.splits if_splits)

lemma install_keeps_venv:
  assumes "tools_law S" "exists w (venv_path (layout M))" "install_requirements S M w = (Inr b, w')"
  shows "exists w' (venv_path (layout M))"
  using assms by (auto simp: install_requirements_def exists_def tools_law_def Let_def
      split: option.splits prod.splits pip_run.splits if_splits)

lemma ensure_built:
  assumes "ensure S M w = (Inr out, w')" "out \<noteq> Reused"
  obtains u w1 w2 w3 w4 b where
    "prepare_directories S M u w = (Inr (), w1)"
    "(if u then (Inr (), w1) else create_venv S M w1) = (Inr (), w2)"
    "install_requirements S M w2 = (Inr b, w3)" "register_owner S M w3 = (Inr (), w4)"
    "save_metadata S M w4 = (Inr (), w')" "out = (if u then SharedUpdate b else Built b)"
    "u \<longrightarrow> exists w (venv_path (layout M))"
    "u \<longleftrightarrow> has_other_owner (load_owners S w (owners_path (layout M))) (class_name M)
        \<and> exists w (venv_path (layout M))"
  using assms
  by (auto simp: ensure_def build_venv_def then_do_Inr Let_def split: if_splits)

lemma touches_files_venv:
  "touches M w w' \<Longrightarrow> venvs w' = venvs w \<Longrightarrow> exists w (venv_path (layout M)) \<Longrightarrow>
     venv_path (layout M) \<noteq> metadata_path (layout M) \<Longrightarrow>
     venv_path (layout M) \<noteq> owners_path (layout M) \<Longrightarrow> exists w' (venv_path (layout M))"
  by (auto simp: touches_def exists_def)

lemma register_keeps_exists: "exists w p \<Longrightarrow> exists (snd (register_owner S M w)) p"
  by (auto simp: register_owner_def write_owners_def write_file_def create_dir_all_def then_do_def
      exists_def Let_def split: option.split sum.split)

lemma prepare_in_place: "prepare_directories S M True w = (Inr (), w') \<Longrightarrow> w' = w"
  by (auto simp: prepare_directories_def remove_stale_venv_def create_dir_all_def then_do_def Let_def
      split: option.splits)

lemma built_is_valid:
  assumes "codec_law S" "tools_law S" "inputs_ok S M" "ensure S M w = (Inr out, w')" "out \<noteq> Reused"
  shows "cache_verdict S M w' = Valid"
proof -
  from ensure_built [OF assms(4,5)] obtain u w1 w2 w3 w4 b where
    b: "prepare_directories S M u w = (Inr (), w1)"
    "(if u then (Inr (), w1) else create_venv S M w1) = (Inr (), w2)"
    "install_requirements S M w2 = (Inr b, w3)" "register_owner S M w3 = (Inr (), w4)"
    "save_metadata S M w4 = (Inr (), w')" "u \<longrightarrow> exists w (venv_path (layout M))" by metis
  have "exists w2 (venv_path (layout M))"
    using b create_makes_venv [OF assms(2)] prepare_in_place [of S M w w1] by (cases u) auto
  from install_keeps_venv [OF assms(2) this b(3)] have "exists w4 (venv_path (layout M))"
    using register_keeps_exists [of w3 _ S M] b(4) by simp
  from save_makes_valid [OF assms(1,3) this b(5)] show ?thesis .
qed

lemma register_load:
  assumes "codec_law S" "inputs_ok S M" "register_owner S M w = (Inr (), w')"
  shows "set (load_owners S w' (owners_path (layout M)))
       = insert (class_name M) (set (load_owners S w (owners_path (layout M))))"
proof (cases "class_name M \<in> set (load_owners S w (owners_path (layout M)))")
  case True
  with assms(3) show ?thesis by (auto simp: register_owner_def)
next
  case False
  let ?xs = "insort (class_name M) (load_owners S w (owners_path (layout M)))"
  from False assms(3) obtain t where "pretty_json S (ser_owners ?xs) = Inr t"
    "w' = w\<lparr> files := (files w)(owners_path (layout M) := Some t) \<rparr>"
    by (auto simp: register_owner_def create_dir_all_def write_owners_def write_file_def then_do_def Let_def
        split: option.splits sum.splits)
  with assms(1,2) have "load_owners S w' (owners_path (layout M)) = sort (remdups ?xs)"
    by (auto simp: load_owners_def read_to_string_def read_file_def inputs_ok_def codec_law_def owners_codec)
  then show ?thesis by (simp add: set_insort_key)
qed

lemma owners_distinct: "distinct (load_owners S w p)"
  by (auto simp: load_owners_def de_owners_def bind_eq_Some_conv split: option.splits)

lemma release_load:
  assumes "codec_law S" "inputs_ok S M" "release_owner S M w = (Inr (), w')"
  shows "set (load_owners S w' (owners_path (layout M)))
       = set (load_owners S w (owners_path (layout M))) - {class_name M}"
proof -
  let ?p = "owners_path (layout M)" and ?c = "class_name M"
  let ?rest = "remove1 ?c (load_owners S w ?p)"
  have set_rest: "set ?rest = set (load_owners S w ?p) - {?c}"
    by (simp add: owners_distinct)
  consider "?c \<notin> set (load_owners S w ?p)" | "?c \<in> set (load_owners S w ?p)" "?rest = []"
    | "?c \<in> set (load_owners S w ?p)" "?rest \<noteq> []" by blast
  then show ?thesis
  proof cases
    case 1
    with assms(3) show ?thesis by (auto simp: release_owner_def)
  next
    case 2
    then have "files w ?p \<noteq> None"
      by (auto simp: load_owners_def read_to_string_def read_file_def bind_eq_Some_conv
          split: option.splits if_splits)
    with 2 assms(3) have "files w' ?p = None"
      by (auto simp: release_owner_def exists_def Let_def split: option.splits)
    then have "load_owners S w' ?p = []"
      by (simp add: load_owners_def read_to_string_def read_file_def)
    with 2 set_rest show ?thesis by simp
  next
    case 3
    then obtain t where "pretty_json S (ser_owners ?rest) = Inr t"
      "w' = w\<lparr> files := (files w)(?p := Some t) \<rparr>"
      using assms(3) by (auto simp: release_owner_def write_owners_def write_file_def Let_def
          split: option.splits sum.splits)
    with assms(1,2) have "load_owners S w' ?p = sort (remdups ?rest)"
      by (auto simp: load_owners_def read_to_string_def read_file_def inputs_ok_def codec_law_def owners_codec)
    then show ?thesis using set_rest by simp
  qed
qed

lemma same_files_owners:
  "files w' p = files w p \<Longrightarrow> load_owners S w' p = load_owners S w p"
  by (simp add: load_owners_def read_to_string_def read_file_def)

lemma files_kept:
  "files (snd (prepare_directories S M u w)) = files w" "files (snd (create_venv S M w)) = files w"
  "files (snd (install_requirements S M w)) = files w"
  by (auto simp: prepare_directories_def remove_stale_venv_def create_dir_all_def then_do_def create_venv_def
      install_requirements_def Let_def split: option.split prod.split sum.split pip_run.split)

lemma files_keptD:
  "prepare_directories S M u w = (r, w') \<Longrightarrow> files w' = files w"
  "create_venv S M w = (r, w') \<Longrightarrow> files w' = files w"
  "install_requirements S M w = (q, w') \<Longrightarrow> files w' = files w"
  using files_kept(1) [of S M u w] files_kept(2) [of S M w] files_kept(3) [of S M w] by auto

lemma save_keeps_owners:
  "inputs_ok S M \<Longrightarrow> files (snd (save_metadata S M w)) (owners_path (layout M)) = files w (owners_path (layout M))"
  by (auto simp: save_metadata_def write_file_def inputs_ok_def layout_ok_def split: sum.split option.split)

lemma valid_after_register:
  assumes "inputs_ok S M" "cache_verdict S M w = Valid"
  shows "cache_verdict S M (snd (register_owner S M w)) = Valid"
proof -
  let ?w = "snd (register_owner S M w)"
  note h = touches_hashes [OF assms(1) register_touches [of M w S]]
  have md: "files ?w (metadata_path (layout M)) = files w (metadata_path (layout M))"
    using assms(1)
    by (auto simp: register_owner_def write_owners_def write_file_def create_dir_all_def then_do_def Let_def
        inputs_ok_def layout_ok_def split: option.split sum.split)
  then have "read_to_string S ?w (metadata_path (layout M)) = read_to_string S w (metadata_path (layout M))"
    by (simp add: read_to_string_def read_file_def)
  with assms(2) register_keeps_exists [of w _ S M] h show ?thesis
    by (auto simp: cache_verdict_def evaluate_cache_def split: if_splits)
qed

lemma owner_after_ensure:
  assumes "codec_law S" "inputs_ok S M" "ensure S M w = (Inr out, w')"
  shows "set (load_owners S w' (owners_path (layout M)))
       = insert (class_name M) (set (load_owners S w (owners_path (layout M))))"
proof (cases "out = Reused")
  case True
  with assms(3) have "register_owner S M w = (Inr (), w')"
    by (auto simp: ensure_def build_venv_def then_do_Inr Let_def split: if_splits)
  from register_load [OF assms(1,2) this] show ?thesis .
next
  case False
  from ensure_built [OF assms(3) False] obtain u w1 w2 w3 w4 b where
    b: "prepare_directories S M u w = (Inr (), w1)"
    "(if u then (Inr (), w1) else create_venv S M w1) = (Inr (), w2)"
    "install_requirements S M w2 = (Inr b, w3)" "register_owner S M w3 = (Inr (), w4)"
    "save_metadata S M w4 = (Inr (), w')" by metis
  have "files w3 = files w"
    using files_kept(1) [of S M u w] files_kept(2) [of S M w1] files_kept(3) [of S M w2] b
    by (cases u) simp_all
  moreover have "files w' (owners_path (layout M)) = files w4 (owners_path (layout M))"
    using save_keeps_owners [OF assms(2), of w4] b(5) by simp
  ultimately show ?thesis
    using register_load [OF assms(1,2) b(4)]
      same_files_owners [of w3 "owners_path (layout M)" w S] same_files_owners [of w' "owners_path (layout M)" w4 S]
    by simp
qed

text \<open>C18: Ensuring is idempotent. When it succeeds, on whatever path, the plugin is in the owner registry
  of its venv and the cache is valid, so that ensuring again with unchanged inputs reuses the venv
  and changes nothing at all.\<close>

theorem ensure_idempotent:
  assumes "codec_law S" "tools_law S" "inputs_ok S M" "ensure S M w = (Inr out, w')"
  shows "ensure S M w' = (Inr Reused, w')"
proof -
  have valid: "cache_verdict S M w' = Valid"
  proof (cases "out = Reused")
    case True
    then have "cache_verdict S M w = Valid" "w' = snd (register_owner S M w)"
      using assms(4) by (auto simp: ensure_def build_venv_def is_valid_def then_do_Inr Let_def split: if_splits)
    with valid_after_register [OF assms(3)] show ?thesis by simp
  next
    case False
    with built_is_valid assms show ?thesis by blast
  qed
  have "class_name M \<in> set (load_owners S w' (owners_path (layout M)))"
    using owner_after_ensure [OF assms(1,3,4)] by simp
  then have "register_owner S M w' = (Inr (), w')" by (simp add: register_owner_def)
  with valid show ?thesis by (simp add: ensure_def is_valid_def then_do_def)
qed

section \<open>A shared venv is never pulled out from under its owners\<close>

lemma register_venvs [simp]: "venvs (snd (register_owner S M w)) = venvs w"
  by (auto simp: register_owner_def write_owners_def write_file_def create_dir_all_def then_do_def Let_def
      split: option.split sum.split)

lemma save_venvs [simp]: "venvs (snd (save_metadata S M w)) = venvs w"
  by (auto simp: save_metadata_def write_file_def split: option.split sum.split)

lemma then_do_snd:
  "snd (then_do r f) = (case fst r of Inl e \<Rightarrow> snd r | Inr x \<Rightarrow> snd (f x (snd r)))"
  by (simp add: then_do_def split: sum.split)

lemma install_venvs:
  "venvs (snd (install_requirements S M w)) = venvs w \<or>
   (\<exists>rf. requirements_file M = Some rf \<and>
      venvs (snd (install_requirements S M w)) = (venvs w)(venv_path (layout M) :=
        snd (pip_install S (python_executable (layout M)) (files w) (venvs w (venv_path (layout M))) rf)))"
  by (auto simp: install_requirements_def Let_def split: option.split prod.split pip_run.split)

lemma prepare_in_place_world: "snd (prepare_directories S M True w) = w"
  by (auto simp: prepare_directories_def remove_stale_venv_def create_dir_all_def then_do_def Let_def
      split: option.split)

lemma build_in_place_venvs:
  "venvs (snd (build_venv S M True w)) \<in> {venvs w, venvs (snd (install_requirements S M w))}"
  by (auto simp: build_venv_def then_do_snd prepare_in_place_world split: sum.split)

text \<open>C35: With another plugin recorded as an owner of an existing venv, ensuring never removes or
  recreates it: whether it succeeds or fails, the directory is as it was or as an in-place pip
  install of this plugin's requirements left it, and no other venv is touched.\<close>

theorem shared_venv_updated_in_place:
  assumes "other \<in> set (load_owners S w (owners_path (layout M)))" "other \<noteq> class_name M"
    and "venvs w (venv_path (layout M)) \<noteq> None"
  shows "venvs (snd (ensure S M w)) = venvs w \<or>
    (\<exists>rf. requirements_file M = Some rf \<and>
       venvs (snd (ensure S M w)) = (venvs w)(venv_path (layout M) :=
         snd (pip_install S (python_executable (layout M)) (files w) (venvs w (venv_path (layout M))) rf)))"
proof (cases "is_valid (cache_verdict S M w)")
  case True
  then show ?thesis by (auto simp: ensure_def then_do_snd split: sum.split)
next
  case False
  have "has_other_owner (load_owners S w (owners_path (layout M))) (class_name M)"
    using assms by (auto simp: has_other_owner_def list_ex_iff)
  moreover have "exists w (venv_path (layout M))" using assms(3) by (simp add: exists_def)
  ultimately have "ensure S M w = build_venv S M True w"
    using False by (simp add: ensure_def Let_def)
  with build_in_place_venvs [of S M w] install_venvs [of S M w] show ?thesis by auto
qed

text \<open>The owner registry is a faithful set. Claiming adds exactly the plugin's own name and
  releasing removes exactly it; no other plugin's claim is lost by either.\<close>

theorem owner_registry_correct:
  assumes "codec_law S" "inputs_ok S M"
  shows "(\<forall>w'. register_owner S M w = (Inr (), w') \<longrightarrow>
      set (load_owners S w' (owners_path (layout M)))
        = insert (class_name M) (set (load_owners S w (owners_path (layout M))))) \<and>
    (\<forall>w'. release_owner S M w = (Inr (), w') \<longrightarrow>
      set (load_owners S w' (owners_path (layout M)))
        = set (load_owners S w (owners_path (layout M))) - {class_name M})"
  using register_load [OF assms] release_load [OF assms] by blast

section \<open>What a verdict does not see\<close>

definition set_file :: "string \<Rightarrow> string \<Rightarrow> 'v world \<Rightarrow> 'v world" where
  "set_file p t w = w\<lparr> files := (files w)(p := Some t) \<rparr>"

lemma verdict_agree:
  assumes "files w' (metadata_path (layout M)) = files w (metadata_path (layout M))"
    "files w' (manifest_path (layout M)) = files w (manifest_path (layout M))"
    "\<And>p. requirements_file M = Some p \<Longrightarrow> files w' p = files w p"
    "cache_verdict S M w = Valid" "exists w' (venv_path (layout M))"
  shows "cache_verdict S M w' = Valid"
proof -
  have eq: "hash_file_or_empty S w' (requirements_file M) = hash_file_or_empty S w (requirements_file M)"
    "hash_file_or_empty S w' (Some (manifest_path (layout M))) = hash_file_or_empty S w (Some (manifest_path (layout M)))"
    "read_to_string S w' (metadata_path (layout M)) = read_to_string S w (metadata_path (layout M))"
    using assms(1-3) by (auto intro!: hash_same simp: read_to_string_def read_file_def)
  from assms(4) have "read_to_string S w (metadata_path (layout M)) \<noteq> None"
    by (auto simp: cache_verdict_def evaluate_cache_def split: if_splits option.splits)
  then have "files w' (metadata_path (layout M)) \<noteq> None"
    by (auto simp: read_to_string_def read_file_def assms(1) bind_eq_Some_conv split: if_splits)
  then have "exists w' (metadata_path (layout M))" by (simp add: exists_def)
  with assms(4,5) show ?thesis by (simp add: cache_verdict_def evaluate_cache_def eq split: if_splits)
qed

lemma write_file_error: "write_file S err p t w = (Inl e, w') \<Longrightarrow> \<exists>m. e = err m"
  by (auto simp: write_file_def split: option.splits)

lemma register_error: "register_owner S M w = (Inl e, w') \<Longrightarrow> \<exists>m. e = VenvBuild m"
  by (auto simp: register_owner_def create_dir_all_def write_owners_def then_do_def Let_def
      dest!: write_file_error split: option.splits sum.splits if_splits)

lemma save_error: "save_metadata S M w = (Inl e, w') \<Longrightarrow> \<exists>m. e = VenvBuild m"
  by (auto simp: save_metadata_def dest!: write_file_error split: sum.splits)

lemma then_do_Inl:
  "then_do r f = (Inl e, w') \<longleftrightarrow> r = (Inl e, w') \<or> (\<exists>x w. r = (Inr x, w) \<and> f x w = (Inl e, w'))"
  by (cases r; cases "fst r") (auto simp: then_do_def)

lemma failed_command_files:
  assumes "ensure S M w = (Inl (VenvCommand step ctx out), w')"
  shows "files w' = files w"
proof (cases "is_valid (cache_verdict S M w)")
  case True
  with assms show ?thesis by (auto simp: ensure_def then_do_Inl dest!: register_error)
next
  case False
  then obtain u where b: "build_venv S M u w = (Inl (VenvCommand step ctx out), w')"
    using assms by (auto simp: ensure_def Let_def)
  from b show ?thesis
    unfolding build_venv_def then_do_Inl
    by (auto dest!: register_error save_error files_keptD split: if_splits)
qed

text \<open>A failed rebuild is taken for a good one. When the requirements of a plugin whose cache is
  valid change, the rebuild replaces the venv and fails in pip, and the requirements are then put
  back, the metadata of the earlier build still matches: ensuring reuses the directory the failed
  install left, in which nothing of the requirements need be installed.\<close>

theorem failed_rebuild_reused_after_revert:
  assumes "requirements_file M = Some rf" "files w rf = Some old" "cache_verdict S M w = Valid"
    and "class_name M \<in> set (load_owners S w (owners_path (layout M)))"
    and "ensure S M (set_file rf new w) = (Inl (VenvCommand ''pip install'' rf out), w')"
    and "venvs w' (venv_path (layout M)) = Some dir"
  shows "ensure S M (set_file rf old w') = (Inr Reused, set_file rf old w') \<and>
    venvs (set_file rf old w') (venv_path (layout M)) = Some dir"
proof -
  let ?w = "set_file rf old w'"
  have same: "files ?w = files w"
    using failed_command_files [OF assms(5)] assms(2) by (auto simp: set_file_def)
  have "exists ?w (venv_path (layout M))" using assms(6) by (simp add: exists_def set_file_def)
  from verdict_agree [OF _ _ _ assms(3) this] same have "is_valid (cache_verdict S M ?w)"
    by (simp add: is_valid_def)
  moreover have "register_owner S M ?w = (Inr (), ?w)"
    using assms(4) same_files_owners [of ?w "owners_path (layout M)" w S] same
    by (simp add: register_owner_def)
  ultimately show ?thesis using assms(6) by (simp add: ensure_def then_do_def set_file_def)
qed

text \<open>Two plugins of one package: one venv, separate metadata.\<close>

definition neighbours :: "VenvManager \<Rightarrow> VenvManager \<Rightarrow> bool" where
  "neighbours A B \<longleftrightarrow> venv_path (layout A) = venv_path (layout B) \<and>
     (\<forall>p \<in> {metadata_path (layout A), manifest_path (layout A)} \<union> set_option (requirements_file A).
        p \<noteq> metadata_path (layout B) \<and> p \<noteq> owners_path (layout B))"


lemma solo_prepare: "prepare_directories S M False w = (Inr (), w') \<Longrightarrow> venvs w' (venv_path (layout M)) = None"
  by (auto simp: prepare_directories_def remove_stale_venv_def create_dir_all_def then_do_def exists_def Let_def
      split: option.splits if_splits)

text \<open>A rebuild by one plugin does not invalidate its neighbour. When a plugin that is alone in the
  owner registry rebuilds the venv it shares with another plugin of its package, the directory is
  recreated from nothing and holds its own requirements only; yet the neighbour's cache stays
  valid, so the neighbour reuses a venv without its requirements when it starts again.\<close>

theorem solo_rebuild_keeps_neighbour_valid:
  assumes "tools_law S" "neighbours A B" "cache_verdict S A w = Valid"
    and "ensure S B w = (Inr (Built b), w')"
  shows "cache_verdict S A w' = Valid \<and>
    (\<exists>w1 w2. venvs w1 (venv_path (layout B)) = None \<and> create_venv S B w1 = (Inr (), w2) \<and>
       venvs w' (venv_path (layout B))
         = venvs (snd (install_requirements S B w2)) (venv_path (layout B)))"
proof -
  from ensure_built [OF assms(4)] obtain u w1 w2 w3 w4 b' where
    s: "prepare_directories S B u w = (Inr (), w1)"
    "(if u then (Inr (), w1) else create_venv S B w1) = (Inr (), w2)"
    "install_requirements S B w2 = (Inr b', w3)" "register_owner S B w3 = (Inr (), w4)"
    "save_metadata S B w4 = (Inr (), w')" "Built b = (if u then SharedUpdate b' else Built b')"
    by (metis EnsureOutcome.distinct(1))
  then have u: "\<not> u" by (auto split: if_splits)
  have venv: "venvs w' = venvs w3"
    using register_venvs [of S B w3] save_venvs [of S B w4] s(4,5) by simp
  have "exists w2 (venv_path (layout B))" using create_makes_venv [OF assms(1)] s(2) u by auto
  from install_keeps_venv [OF assms(1) this s(3)] have "exists w4 (venv_path (layout B))"
    using register_keeps_exists [of w3 _ S B] s(4) by simp
  then have "exists w' (venv_path (layout B))"
    using s(5) by (auto simp: save_metadata_def write_file_def exists_def split: sum.splits option.splits)
  moreover have "touches B w w'" using ensure_touches [of B w S] assms(4) by simp
  ultimately have "cache_verdict S A w' = Valid"
    using assms(2) by (intro verdict_agree [OF _ _ _ assms(3)]) (auto simp: neighbours_def touches_def)
  moreover have "venvs w1 (venv_path (layout B)) = None" using solo_prepare s(1) u by simp
  ultimately show ?thesis using s(2,3) u venv by (metis snd_conv)
qed

section \<open>A concrete operating system\<close>

text \<open>Every operation succeeds; a text stands for the JSON value numbered by its length; pip appends
  the content of the requirements to what is installed, and fails on the content \<open>bad\<close>.\<close>

instance jnum :: countable
  by countable_datatype

instance json :: countable
  by countable_datatype

definition number_text :: "json \<Rightarrow> string" where
  "number_text j = replicate (to_nat j) CHR 0x61"

definition sample_os :: "string list os" where
  "sample_os = \<lparr> io_error = (\<lambda>_ _. None), sha256_hex = (\<lambda>s. s),
     parse_json = (\<lambda>t. Some (from_nat (length t))), pretty_json = (\<lambda>j. Inr (number_text j)),
     unicode_alphanumeric = (\<lambda>_. False),
     python_venv = (\<lambda>_ _. (Inr (Some 0, []), Some [])),
     pip_install = (\<lambda>_ fs d rf.
       if fs rf = Some ''bad'' then (PipExit (Some 1) ''no matching distribution'', d)
       else (PipExit (Some 0) [], Some ((case d of None \<Rightarrow> [] | Some xs \<Rightarrow> xs) @ [the (fs rf)]))) \<rparr>"

lemma number_text_valid: "utf8_valid (number_text j)"
proof -
  have "utf8_char [CHR 0x61]"
    by (simp add: utf8_char_def utf8_step.simps utf8_width_def byte_in_def Let_def)
  from utf8_valid_char_append [OF this] have "utf8_valid (replicate n CHR 0x61)" for n
    by (induction n) simp_all
  then show ?thesis by (simp add: number_text_def)
qed

lemma number_text_length: "length (number_text j) = to_nat j"
  by (simp add: number_text_def)

lemma sample_os_laws: "codec_law sample_os" "tools_law sample_os"
  by (auto simp: codec_law_def tools_law_def sample_os_def number_text_valid number_text_length split: if_splits)

definition sample_layout :: "string \<Rightarrow> VenvLayout" where
  "sample_layout n = \<lparr> plugin_path = ''p'', venv_path = ''p/.venv'', cache_dir = ''p/c'',
     metadata_path = n @ ''_metadata.json'', manifest_path = n @ ''.plugin-manifest.yaml'',
     owners_path = ''owners.json'' \<rparr>"

definition sample_manager :: "string \<Rightarrow> VenvManager" where
  "sample_manager n = \<lparr> layout = sample_layout n, requirements_file = Some (n @ ''.txt''),
     manifest_version = Some ''1'', class_name = n, pip_timeout_secs = 600 \<rparr>"

definition sample_world :: "string list world" where
  "sample_world = \<lparr> files = [''a.txt'' \<mapsto> ''good'', ''b.txt'' \<mapsto> ''other''], venvs = Map.empty \<rparr>"

lemma sample_inputs: "inputs_ok sample_os (sample_manager ''a'')" "inputs_ok sample_os (sample_manager ''b'')"
  by (simp_all add: inputs_ok_def layout_ok_def sample_manager_def sample_layout_def sample_os_def)

lemmas venv_run =
  ensure_def build_venv_def cache_verdict_def evaluate_cache_def is_valid_def then_do_def
  prepare_directories_def create_dir_all_def remove_stale_venv_def create_venv_def
  install_requirements_def register_owner_def write_owners_def write_file_def save_metadata_def
  load_owners_def read_to_string_def read_file_def exists_def has_other_owner_def
  sample_os_def sample_manager_def sample_layout_def

definition built_metadata :: CacheMetadata where
  "built_metadata = \<lparr> md_venv_path = ''p/.venv'', md_requirements_file = Some ''a.txt'',
     md_requirements_hash = ''good'', md_manifest_version = Some ''1'', md_manifest_hash = Some [],
     md_python_version = None \<rparr>"

definition built_world :: "string list world" where
  "built_world = \<lparr> files = (files sample_world)
       (''owners.json'' \<mapsto> number_text (ser_owners [''a'']),
        ''a_metadata.json'' \<mapsto> number_text (ser_metadata built_metadata)),
     venvs = [''p/.venv'' \<mapsto> [''good'']] \<rparr>"

lemma sample_build:
  "ensure sample_os (sample_manager ''a'') sample_world = (Inr (Built True), built_world)"
proof -
  let ?w = "sample_world\<lparr> venvs := [''p/.venv'' \<mapsto> [''good'']],
      files := (files sample_world)(''owners.json'' \<mapsto> number_text (ser_owners [''a''])) \<rparr>"
  have "metadata_of sample_os (sample_manager ''a'') ?w = built_metadata"
    by (simp add: metadata_of_def built_metadata_def hash_file_or_empty_def venv_run sample_world_def)
  then show ?thesis
    by (simp add: venv_run sample_world_def built_world_def Let_def)
qed

theorem ensure_idempotent_witness:
  "ensure sample_os (sample_manager ''a'') built_world = (Inr Reused, built_world)"
  by (rule ensure_idempotent [OF sample_os_laws sample_inputs(1) sample_build])

lemma built_facts:
  "cache_verdict sample_os (sample_manager ''a'') built_world = Valid"
  "''a'' \<in> set (load_owners sample_os built_world ''owners.json'')"
  using built_is_valid [OF sample_os_laws sample_inputs(1) sample_build]
    owner_after_ensure [OF sample_os_laws(1) sample_inputs(1) sample_build]
  by (simp_all add: sample_manager_def sample_layout_def)

definition failed_world :: "string list world" where
  "failed_world = (set_file ''a.txt'' ''bad'' built_world)\<lparr> venvs := [''p/.venv'' \<mapsto> []] \<rparr>"

lemma sample_failure:
  "ensure sample_os (sample_manager ''a'') (set_file ''a.txt'' ''bad'' built_world)
     = (Inl (VenvCommand ''pip install'' ''a.txt'' (from_output (Some 1) ''no matching distribution'')), failed_world)"
  by (simp add: venv_run set_file_def failed_world_def built_world_def sample_world_def Let_def
      number_text_valid number_text_length metadata_codec owners_codec hash_file_or_empty_def
      built_metadata_def)

theorem failed_rebuild_reused_after_revert_witness:
  "ensure sample_os (sample_manager ''a'') (set_file ''a.txt'' ''good'' failed_world)
     = (Inr Reused, set_file ''a.txt'' ''good'' failed_world) \<and>
   venvs (set_file ''a.txt'' ''good'' failed_world) ''p/.venv'' = Some []"
  using failed_rebuild_reused_after_revert [OF _ _ built_facts(1) _ sample_failure, of "''good''" "[]"]
    built_facts(2)
  by (simp add: sample_manager_def sample_layout_def built_world_def sample_world_def failed_world_def)

text \<open>The neighbour's turn after the first plugin released its claim.\<close>

definition released_world :: "string list world" where
  "released_world = built_world\<lparr> files := (files built_world)(''owners.json'' := None) \<rparr>"

lemma built_owners: "load_owners sample_os built_world ''owners.json'' = [''a'']"
  by (simp add: load_owners_def read_to_string_def read_file_def sample_os_def built_world_def
      number_text_valid number_text_length owners_codec)

theorem owner_registry_correct_witness:
  "release_owner sample_os (sample_manager ''a'') built_world = (Inr (), released_world) \<and>
   set (load_owners sample_os released_world ''owners.json'') = {}"
proof -
  have r: "release_owner sample_os (sample_manager ''a'') built_world = (Inr (), released_world)"
    using built_owners
    by (simp add: release_owner_def sample_manager_def sample_layout_def released_world_def exists_def Let_def)
       (simp add: sample_os_def built_world_def)
  with owner_registry_correct [OF sample_os_laws(1) sample_inputs(1), of built_world] built_owners
  show ?thesis by (auto simp: sample_manager_def sample_layout_def)
qed

theorem shared_venv_updated_in_place_witness:
  "venvs (snd (ensure sample_os (sample_manager ''b'') built_world)) = venvs built_world \<or>
   (\<exists>rf. venvs (snd (ensure sample_os (sample_manager ''b'') built_world)) = (venvs built_world)(''p/.venv'' :=
      snd (pip_install sample_os ''p/.venv/bin/python'' (files built_world) (Some [''good'']) rf)))"
  using shared_venv_updated_in_place [of "''a''" sample_os built_world "sample_manager ''b''"] built_owners
  by (auto simp: sample_manager_def sample_layout_def python_executable_def path_join_def built_world_def)

lemma released_valid: "cache_verdict sample_os (sample_manager ''a'') released_world = Valid"
  by (rule verdict_agree [OF _ _ _ built_facts(1)])
     (simp_all add: released_world_def sample_manager_def sample_layout_def exists_def built_world_def)

lemma neighbour_build:
  "\<exists>w'. ensure sample_os (sample_manager ''b'') released_world = (Inr (Built True), w') \<and>
     venvs w' ''p/.venv'' = Some [''other'']"
  by (simp add: venv_run released_world_def built_world_def sample_world_def Let_def hash_file_or_empty_def)

theorem solo_rebuild_keeps_neighbour_valid_witness:
  "\<exists>w'. ensure sample_os (sample_manager ''b'') released_world = (Inr (Built True), w') \<and>
     cache_verdict sample_os (sample_manager ''a'') w' = Valid \<and> venvs w' ''p/.venv'' = Some [''other'']"
proof -
  from neighbour_build obtain w' where w': "ensure sample_os (sample_manager ''b'') released_world
    = (Inr (Built True), w')" "venvs w' ''p/.venv'' = Some [''other'']" by blast
  have "neighbours (sample_manager ''a'') (sample_manager ''b'')"
    by (simp add: neighbours_def sample_manager_def sample_layout_def)
  from solo_rebuild_keeps_neighbour_valid [OF sample_os_laws(2) this released_valid w'(1)] w' show ?thesis by blast
qed

end
