(* ===== verification/Plugin_Factory.thy ===== *)
theory Plugin_Factory
  imports Plugin_Lifecycle Venv
begin

text \<open>
  From a configuration entry to a running worker and back: the \<^verbatim>\<open>isolated_venv\<close>
  factory (\<^verbatim>\<open>factory.rs\<close>), the venv settings of an entry and the plugin it becomes
  (\<^verbatim>\<open>plugin.rs\<close>), the launch of a worker from its venv, its script and its process
  (\<^verbatim>\<open>worker.rs\<close>), and \<^verbatim>\<open>initialize\<close> and
  \<^verbatim>\<open>shutdown\<close> with their effects on the shared venv's registry. The operating system
  is the record \<open>launch_env\<close>, over the one of the venv theory.
\<close>

section \<open>Configuration\<close>

record plugin_entry = plugin_config +
  pc_version :: "string option"

record VenvConfig =
  vc_class_name :: string
  vc_requirements_file :: "string option"
  vc_script_path :: string
  vc_max_content_size :: "64 word"
  vc_timeout_secs :: "64 word"

definition default_script_path :: string where
  "default_script_path = ''cpex/framework/isolated/worker.py''"

definition default_max_content_size :: "64 word" where
  "default_max_content_size = 10000000"

definition default_timeout_secs :: "64 word" where
  "default_timeout_secs = 30"

definition DEFAULT_PLUGIN_DIR :: string where
  "DEFAULT_PLUGIN_DIR = ''plugins''"

definition de_venv_config :: "json \<Rightarrow> VenvConfig option" where
  "de_venv_config v =
     Option.bind (struct_fields [''class_name'', ''requirements_file'', ''script_path'', ''max_content_size'',
       ''timeout_secs''] v) (\<lambda>m.
     Option.bind (req as_str m ''class_name'') (\<lambda>c.
     Option.bind (opt as_str m ''requirements_file'') (\<lambda>r.
     Option.bind (dflt as_str default_script_path m ''script_path'') (\<lambda>s.
     Option.bind (dflt as_u64 default_max_content_size m ''max_content_size'') (\<lambda>x.
     Option.bind (dflt as_u64 default_timeout_secs m ''timeout_secs'') (\<lambda>t.
     Some \<lparr> vc_class_name = c, vc_requirements_file = r, vc_script_path = s, vc_max_content_size = x,
       vc_timeout_secs = t \<rparr>))))))"

section \<open>The environment\<close>

record child_pipes =
  stdin_piped :: bool
  stdout_piped :: bool
  stderr_piped :: bool

text \<open>\<open>config_error\<close> renders the deserializer's error, \<open>dir_names\<close> lists a directory that
  can be read, \<open>command_v\<close> is the outcome of the shell's \<^verbatim>\<open>command -v python3\<close>,
  and \<open>spawn_child\<close> starts an interpreter on a script in a working directory.\<close>

record 'v launch_env =
  he_os :: "'v os"
  current_dir :: "string option"
  config_error :: "json \<Rightarrow> string"
  path_exists :: "'v world \<Rightarrow> string \<Rightarrow> bool"
  dir_names :: "'v world \<Rightarrow> string \<Rightarrow> string list option"
  command_v :: "string + string"
  spawn_child :: "string \<Rightarrow> string \<Rightarrow> string option \<Rightarrow> string + child_pipes"
  task_line :: "json \<Rightarrow> string + string"
  hook_family :: "string \<Rightarrow> string option"

definition project_root :: "'v launch_env \<Rightarrow> string" where
  "project_root E = (case current_dir E of Some d \<Rightarrow> d | None \<Rightarrow> ''.'')"

definition default_plugin_dirs :: "'v launch_env \<Rightarrow> string list" where
  "default_plugin_dirs E = [path_join (project_root E) DEFAULT_PLUGIN_DIR]"

definition from_plugin_config :: "'v launch_env \<Rightarrow> plugin_entry \<Rightarrow> PluginError + VenvConfig" where
  "from_plugin_config E c =
     (let raw = (case pc_config c of None \<Rightarrow> JObject [] | Some v \<Rightarrow> v) in
      ok_or (PConfig (''plugin '' @ sq (pc_name c) @ '' (isolated_venv): invalid '' @ bq ''config:'' @ '' block ''
          @ dash @ '' '' @ config_error E raw @ ''. '' @ bq ''class_name''
          @ '' is required (the fully-qualified Python class, e.g. my_pkg.filters.PiiFilter)''))
        (de_venv_config raw))"

section \<open>Workers\<close>

definition SHUTDOWN_GRACE_SECS :: nat where
  "SHUTDOWN_GRACE_SECS = 5"

record worker_launch =
  wl_python :: string
  wl_script :: string
  wl_cwd :: "string option"
  wl_max_content_size :: "64 word"
  wl_timeout_secs :: "64 word"
  wl_client :: client
  wl_child :: bool
  wl_reported :: "WorkerCapabilities option"
  wl_probe_retry_spent :: bool

definition spawn_worker ::
  "'v launch_env \<Rightarrow> 'v world \<Rightarrow> string \<Rightarrow> string \<Rightarrow> string option \<Rightarrow> 64 word \<Rightarrow> 64 word \<Rightarrow> HostError + worker_launch" where
  "spawn_worker E w python script_path cwd max_size timeout =
     (if \<not> path_exists E w python
      then Inl (WorkerStart (''venv interpreter not found at '' @ python))
      else case spawn_child E python script_path cwd of
        Inl e \<Rightarrow> Inl (WorkerStart (''could not spawn '' @ python @ '' '' @ script_path @ '': '' @ e))
      | Inr child \<Rightarrow>
          if \<not> stdin_piped child then Inl (WorkerStart ''worker stdin was not piped'')
          else if \<not> stdout_piped child then Inl (WorkerStart ''worker stdout was not piped'')
          else if \<not> stderr_piped child then Inl (WorkerStart ''worker stderr was not piped'')
          else Inr \<lparr> wl_python = python, wl_script = script_path, wl_cwd = cwd,
            wl_max_content_size = max_size, wl_timeout_secs = timeout, wl_client = spawned,
            wl_child = True, wl_reported = None, wl_probe_retry_spent = False \<rparr>)"

definition claim_probe_retry :: "worker_launch \<Rightarrow> bool \<times> worker_launch" where
  "claim_probe_retry wk = (\<not> wl_probe_retry_spent wk, wk\<lparr> wl_probe_retry_spent := True \<rparr>)"

definition is_absolute :: "string \<Rightarrow> bool" where
  "is_absolute p \<longleftrightarrow> p \<noteq> [] \<and> hd p = CHR 0x2F"

definition script_candidates :: "'v launch_env \<Rightarrow> 'v world \<Rightarrow> string \<Rightarrow> string \<Rightarrow> string list" where
  "script_candidates E w venv relative =
     (let unix_lib = path_join venv ''lib'' in
      (case dir_names E w unix_lib of None \<Rightarrow> []
       | Some names \<Rightarrow> map (\<lambda>n. path_join (path_join (path_join unix_lib n) ''site-packages'') relative) names)
      @ [path_join (path_join (path_join venv ''Lib'') ''site-packages'') relative]
      @ [path_join venv relative])"

definition resolve_worker_script :: "'v launch_env \<Rightarrow> 'v world \<Rightarrow> string \<Rightarrow> string \<Rightarrow> HostError + string" where
  "resolve_worker_script E w venv relative =
     (if is_absolute relative then Inr relative
      else ok_or (WorkerStart (''could not find '' @ sq relative @ '' in the venv at '' @ venv @ '' '' @ dash
             @ '' is '' @ bq ''cpex'' @ '' installed in it? (a plugin's requirements file must pull in ''
             @ ''the framework that ships worker.py)''))
          (find (path_exists E w) (script_candidates E w venv relative)))"

text \<open>How the wait for the child ended: its exit, a failed wait, or the end of the grace window and
  the outcome of the kill.\<close>

datatype child_wait = ChildExited | WaitFailed string | GraceElapsed "string option"

definition worker_shutdown ::
  "'v launch_env \<Rightarrow> child_wait \<Rightarrow> worker_launch \<Rightarrow> (HostError + unit) \<times> worker_launch" where
  "worker_shutdown E wait wk =
     (if \<not> wl_child wk then (Inr (), wk)
      else
        let task = JObject [(''task_type'', JString ''shutdown''), (''request_id'', JString ''shutdown'')];
            cl = wl_client wk;
            cl = (case task_line E task of Inl _ \<Rightarrow> cl
                  | Inr line \<Rightarrow> cl\<lparr> outbound := outbound cl @ [line @ [newline]] \<rparr>)
        in ((case wait of
               ChildExited \<Rightarrow> Inr ()
             | WaitFailed e \<Rightarrow> Inl (WorkerDied (''could not wait on the worker process: '' @ e))
             | GraceElapsed None \<Rightarrow> Inr ()
             | GraceElapsed (Some e) \<Rightarrow> Inl (WorkerDied (''could not kill the unresponsive worker: '' @ e))),
            wk\<lparr> wl_child := False, wl_client := cl \<rparr>))"

text \<open>The writer task: for each queued line, how many bytes reached the pipe if the write failed, and
  whether the flush succeeded.\<close>

fun writer_loop :: "(string \<times> nat option \<times> bool) list \<Rightarrow> string" where
  "writer_loop [] = []"
| "writer_loop ((line, failed_after, flushed) # rest) =
     (case failed_after of
        Some n \<Rightarrow> take n line
      | None \<Rightarrow> if flushed then line @ writer_loop rest else line)"

section \<open>The plugin\<close>

record IsolatedPythonPlugin =
  ip_config :: plugin_entry
  ip_venv_config :: VenvConfig
  ip_plugin_dirs :: "string list"
  ip_venv :: "VenvManager option"
  ip_worker :: "worker_launch option"
  ip_worker_override :: "string option"
  ip_worker_cwd :: "string option"
  ip_respawn :: RespawnState
  ip_shut_down :: bool

definition plugin_from_config :: "'v launch_env \<Rightarrow> plugin_entry \<Rightarrow> PluginError + IsolatedPythonPlugin" where
  "plugin_from_config E c =
     rbind (from_plugin_config E c) (\<lambda>venv_config.
       let plugin_dirs = default_plugin_dirs E in
       Inr \<lparr> ip_config = c, ip_venv_config = venv_config, ip_plugin_dirs = plugin_dirs,
         ip_venv = result_ok (new_manager (he_os E) plugin_dirs (vc_class_name venv_config)
                      (vc_requirements_file venv_config) (pc_version c)),
         ip_worker = None, ip_worker_override = None, ip_worker_cwd = None,
         ip_respawn = new_respawn_state, ip_shut_down = False \<rparr>)"

text \<open>The overrides of the testing feature.\<close>

definition with_plugin_dirs :: "'v launch_env \<Rightarrow> string list \<Rightarrow> IsolatedPythonPlugin \<Rightarrow> IsolatedPythonPlugin" where
  "with_plugin_dirs E dirs P =
     P\<lparr> ip_venv := result_ok (new_manager (he_os E) dirs (vc_class_name (ip_venv_config P))
           (vc_requirements_file (ip_venv_config P)) (pc_version (ip_config P))),
        ip_plugin_dirs := dirs \<rparr>"

definition with_worker_override :: "string \<Rightarrow> IsolatedPythonPlugin \<Rightarrow> IsolatedPythonPlugin" where
  "with_worker_override script P = P\<lparr> ip_worker_override := Some script \<rparr>"

definition with_worker_cwd :: "string \<Rightarrow> IsolatedPythonPlugin \<Rightarrow> IsolatedPythonPlugin" where
  "with_worker_cwd cwd P = P\<lparr> ip_worker_cwd := Some cwd \<rparr>"

definition which_python3 :: "'v launch_env \<Rightarrow> 'v world \<Rightarrow> HostError + string" where
  "which_python3 E w =
     (case find (path_exists E w) [''/usr/bin/python3'', ''/usr/local/bin/python3'', ''/opt/homebrew/bin/python3''] of
        Some p \<Rightarrow> Inr p
      | None \<Rightarrow>
          rbind (map_err (\<lambda>e. WorkerStart (''could not look up python3: '' @ e)) (command_v E)) (\<lambda>out.
          let path = trim (from_utf8_lossy out) in
          if path = [] then Inl (WorkerStart ''python3 was not found on PATH'') else Inr path))"

definition launch_worker ::
  "'v launch_env \<Rightarrow> IsolatedPythonPlugin \<Rightarrow> 'v world \<Rightarrow> (HostError + worker_launch) \<times> 'v world" where
  "launch_worker E P w =
     then_do
       (case ip_worker_override P of
          Some script \<Rightarrow> (rbind (which_python3 E w) (\<lambda>python. Inr (python, script)), w)
        | None \<Rightarrow>
            (case ip_venv P of
               None \<Rightarrow> (Inl (Config (''could not resolve a venv layout under '' @ join '', '' (ip_plugin_dirs P)
                   @ '' '' @ dash @ '' check that '' @ bq ''class_name'' @ '' ('' @ sq (vc_class_name (ip_venv_config P))
                   @ '') begins with a package segment'')), w)
             | Some venv \<Rightarrow>
                 then_do (ensure (he_os E) venv w) (\<lambda>_ w.
                 (rbind (resolve_worker_script E w (venv_path (layout venv)) (vc_script_path (ip_venv_config P)))
                    (\<lambda>script. Inr (python_executable (layout venv), script)), w))))
       (\<lambda>(python, script) w.
          (spawn_worker E w python script (ip_worker_cwd P) (vc_max_content_size (ip_venv_config P))
             (vc_timeout_secs (ip_venv_config P)), w))"

definition plugin_initialize ::
  "'v launch_env \<Rightarrow> HostError + json \<Rightarrow> IsolatedPythonPlugin \<Rightarrow> 'v world
     \<Rightarrow> (PluginError + unit) \<times> IsolatedPythonPlugin \<times> 'v world" where
  "plugin_initialize E probe P w =
     (let P = P\<lparr> ip_shut_down := False \<rparr>; c = plugin_config.truncate (ip_config P) in
      case launch_worker E P w of
        (Inl e, w) \<Rightarrow> (Inl (into_plugin_error e (pc_name c)), P, w)
      | (Inr wk, w) \<Rightarrow>
          (case verify_worker_understands c (wl_reported wk) probe of
             (Inl e, _) \<Rightarrow> (Inl (into_plugin_error e (pc_name c)), P, w)
           | (Inr _, report) \<Rightarrow> (Inr (), P\<lparr> ip_worker := Some (wk\<lparr> wl_reported := report \<rparr>) \<rparr>, w)))"

definition plugin_shutdown ::
  "'v launch_env \<Rightarrow> child_wait \<Rightarrow> IsolatedPythonPlugin \<Rightarrow> 'v world
     \<Rightarrow> (PluginError + unit) \<times> IsolatedPythonPlugin \<times> 'v world" where
  "plugin_shutdown E wait P w =
     ((case ip_worker P of
         None \<Rightarrow> Inr ()
       | Some wk \<Rightarrow> map_err (\<lambda>e. into_plugin_error e (pc_name (ip_config P))) (fst (worker_shutdown E wait wk))),
      P\<lparr> ip_shut_down := True, ip_worker := None \<rparr>,
      (case ip_venv P of None \<Rightarrow> w | Some venv \<Rightarrow> snd (release_owner (he_os E) venv w)))"

section \<open>The factory\<close>

definition KIND :: string where
  "KIND = ''isolated_venv''"

definition declares_ignored_plugin_dirs :: "plugin_entry \<Rightarrow> bool" where
  "declares_ignored_plugin_dirs c =
     (case Option.bind (pc_config c) as_object of None \<Rightarrow> False | Some m \<Rightarrow> obj_get m ''plugin_dirs'' \<noteq> None)"

record PythonHookAdapter =
  pa_plugin :: IsolatedPythonPlugin
  pa_hook_name :: string

definition hook_type_name :: "'v launch_env \<Rightarrow> PythonHookAdapter \<Rightarrow> string" where
  "hook_type_name E a = (case hook_family E (pa_hook_name a) of Some f \<Rightarrow> f | None \<Rightarrow> pa_hook_name a)"

record PluginInstance =
  pi_plugin :: IsolatedPythonPlugin
  pi_handlers :: "(string \<times> PythonHookAdapter) list"

text \<open>The instance, and whether the warning about \<^verbatim>\<open>plugin_dirs\<close> was given.\<close>

definition create :: "'v launch_env \<Rightarrow> plugin_entry \<Rightarrow> (PluginError + PluginInstance) \<times> bool" where
  "create E c =
     (if pc_hooks c = [] then
        (Inl (PConfig (''plugin '' @ sq (pc_name c) @ '' (isolated_venv): '' @ bq ''hooks:''
           @ '' must list at least one hook for the Python plugin to handle (e.g. cmf.tool_pre_invoke)'')), False)
      else
        (rbind (plugin_from_config E c) (\<lambda>plugin.
           Inr \<lparr> pi_plugin = plugin,
             pi_handlers = map (\<lambda>hook. (hook, \<lparr> pa_plugin = plugin, pa_hook_name = hook \<rparr>)) (pc_hooks c) \<rparr>),
         declares_ignored_plugin_dirs c))"

text \<open>What an invocation builds its task from.\<close>

definition task_plugin :: "(json \<Rightarrow> string + string) \<Rightarrow> IsolatedPythonPlugin \<Rightarrow> plugin" where
  "task_plugin to_str P =
     \<lparr> pl_config = plugin_config.truncate (ip_config P), pl_dirs = ip_plugin_dirs P,
       pl_class_name = vc_class_name (ip_venv_config P), pl_to_string = to_str \<rparr>"

section \<open>Lemmas\<close>

lemma create_Inr:
  "create E c = (Inr I, warned) \<longleftrightarrow>
     pc_hooks c \<noteq> [] \<and> warned = declares_ignored_plugin_dirs c \<and>
     plugin_from_config E c = Inr (pi_plugin I) \<and>
     pi_handlers I = map (\<lambda>h. (h, \<lparr> pa_plugin = pi_plugin I, pa_hook_name = h \<rparr>)) (pc_hooks c)"
  by (cases I) (auto simp: create_def)

lemma plugin_from_config_Inr:
  assumes "plugin_from_config E c = Inr P"
  shows "ip_config P = c" "ip_plugin_dirs P = default_plugin_dirs E" "ip_worker P = None"
    "ip_worker_override P = None" "from_plugin_config E c = Inr (ip_venv_config P)"
    "ip_venv P = Some M \<Longrightarrow> new_manager (he_os E) (default_plugin_dirs E) (vc_class_name (ip_venv_config P))
       (vc_requirements_file (ip_venv_config P)) (pc_version c) = Inr M"
  using assms by (auto simp: plugin_from_config_def Let_def)

lemma de_venv_config_ignores:
  "k \<notin> {''class_name'', ''requirements_file'', ''script_path'', ''max_content_size'', ''timeout_secs''} \<Longrightarrow>
     obj_ok m \<Longrightarrow> de_venv_config (JObject (obj_remove k m)) = de_venv_config (JObject m)"
  by (auto simp: de_venv_config_def struct_fields_def req_def opt_def dflt_def)

text \<open>The segments of a path; a path without a \<^verbatim>\<open>..\<close> segment stays below the directory
  it is joined to.\<close>

fun segments :: "string \<Rightarrow> string list" where
  "segments [] = [[]]"
| "segments (c # p) =
     (if c = CHR 0x2F then [] # segments p
      else case segments p of [] \<Rightarrow> [[c]] | seg # rest \<Rightarrow> (c # seg) # rest)"

definition no_parent :: "string \<Rightarrow> bool" where
  "no_parent p \<longleftrightarrow> ''..'' \<notin> set (segments p)"

definition below :: "string \<Rightarrow> string \<Rightarrow> bool" where
  "below dir p \<longleftrightarrow> (\<exists>rest. p = dir @ ''/'' @ rest \<and> no_parent rest)"

lemma segments_nonempty: "segments p \<noteq> []"
  by (cases p) (auto split: list.split)

lemma segments_join: "segments (a @ CHR 0x2F # b) = segments a @ segments b"
  by (induction a) (auto simp: segments_nonempty split: list.split)

lemma no_parent_join: "no_parent (a @ CHR 0x2F # b) \<longleftrightarrow> no_parent a \<and> no_parent b"
  by (simp add: no_parent_def segments_join)

lemma no_parent_slash: "no_parent (a @ [CHR 0x2F]) \<longleftrightarrow> no_parent a"
  using no_parent_join [of a "[]"] by (simp add: no_parent_def)

lemma below_start:
  "venv \<noteq> [] \<Longrightarrow> last venv \<noteq> CHR 0x2F \<Longrightarrow> \<not> is_absolute b \<Longrightarrow> no_parent b \<Longrightarrow> below venv (path_join venv b)"
  by (auto simp: below_def path_join_def is_absolute_def)

lemma below_join:
  assumes "below venv p" "\<not> is_absolute b" "no_parent b"
  shows "below venv (path_join p b)"
proof -
  from assms(1) obtain rest where p: "p = venv @ ''/'' @ rest" "no_parent rest" by (auto simp: below_def)
  show ?thesis
  proof (cases "rest = [] \<or> last rest = CHR 0x2F")
    case True
    then have "last p = CHR 0x2F" using p(1) by auto
    then have "path_join p b = venv @ ''/'' @ rest @ b"
      using assms(2) p(1) by (auto simp: path_join_def is_absolute_def)
    moreover have "no_parent (rest @ b)"
    proof (cases "rest = []")
      case False
      with True obtain r where "rest = r @ [CHR 0x2F]" by (metis append_butlast_last_id)
      with p(2) assms(3) show ?thesis by (simp add: no_parent_join no_parent_slash)
    qed (use assms(3) in simp)
    ultimately show ?thesis by (auto simp: below_def)
  next
    case False
    then have "path_join p b = venv @ ''/'' @ (rest @ CHR 0x2F # b)"
      using assms(2) p(1) by (auto simp: path_join_def is_absolute_def)
    then show ?thesis using p(2) assms(3) by (auto simp: below_def no_parent_join)
  qed
qed

lemma candidates_below:
  assumes "\<not> is_absolute relative" "no_parent relative" "venv \<noteq> []" "last venv \<noteq> CHR 0x2F"
    and "\<And>names n. dir_names E w (path_join venv ''lib'') = Some names \<Longrightarrow> n \<in> set names \<Longrightarrow>
      \<not> is_absolute n \<and> no_parent n"
    and "p \<in> set (script_candidates E w venv relative)"
  shows "below venv p"
proof -
  note start = below_start [OF assms(3,4)]
  have names: "\<not> is_absolute ''lib''" "\<not> is_absolute ''Lib''" "\<not> is_absolute ''site-packages''"
    "no_parent ''lib''" "no_parent ''Lib''" "no_parent ''site-packages''"
    by (simp_all add: is_absolute_def no_parent_def)
  have direct: "below venv (path_join venv ''lib'')" "below venv (path_join venv ''Lib'')"
    "below venv (path_join venv relative)"
    using start names assms(1,2) by blast+
  have site: "below venv (path_join (path_join d ''site-packages'') relative)" if "below venv d" for d
    using that names assms(1,2) by (blast intro: below_join)
  have lib: "below venv (path_join (path_join venv ''lib'') n)"
    if "dir_names E w (path_join venv ''lib'') = Some ns" "n \<in> set ns" for ns n
    using assms(5) [OF that] direct(1) by (blast intro: below_join)
  show ?thesis
  proof (cases "dir_names E w (path_join venv ''lib'')")
    case None
    with assms(6) direct site show ?thesis by (auto simp: script_candidates_def Let_def)
  next
    case (Some ns)
    with assms(6) direct site lib [OF Some] show ?thesis by (auto simp: script_candidates_def Let_def)
  qed
qed

lemma resolved_script:
  "resolve_worker_script E w venv relative = Inr p \<longleftrightarrow>
    (if is_absolute relative then p = relative
     else find (path_exists E w) (script_candidates E w venv relative) = Some p)"
  by (auto simp: resolve_worker_script_def)

lemma found_script:
  "find (path_exists E w) cs = Some p \<Longrightarrow> path_exists E w p \<and> p \<in> set cs"
  by (auto simp: find_Some_iff)

text \<open>The search does not keep a relative script inside the venv: a setting with
  \<^verbatim>\<open>..\<close> segments is followed to wherever it leads.\<close>

theorem script_path_leaves_venv:
  assumes "\<And>p. path_exists E w p \<longleftrightarrow> p = venv @ ''/../evil.py''" "venv \<noteq> []" "last venv \<noteq> CHR 0x2F"
  shows "resolve_worker_script E w venv ''../evil.py'' = Inr (venv @ ''/../evil.py'')"
proof -
  have "venv @ ''/../evil.py'' \<in> set (script_candidates E w venv ''../evil.py'')"
    using assms(2,3) by (simp add: script_candidates_def path_join_def Let_def)
  moreover have "path_exists E w (venv @ ''/../evil.py'')" by (simp add: assms(1))
  ultimately have "find (path_exists E w) (script_candidates E w venv ''../evil.py'') \<noteq> None"
    by (auto simp only: find_None_iff)
  then obtain q where q: "find (path_exists E w) (script_candidates E w venv ''../evil.py'') = Some q" by auto
  with found_script [OF q] assms(1) have "q = venv @ ''/../evil.py''" by simp
  with q show ?thesis by (simp add: resolved_script is_absolute_def)
qed

lemma spawn_worker_Inr:
  assumes "spawn_worker E w python script cwd max_size timeout = Inr wk"
  shows "path_exists E w python \<and> wl_python wk = python \<and> wl_script wk = script \<and> wl_cwd wk = cwd \<and>
    wl_max_content_size wk = max_size \<and> wl_timeout_secs wk = timeout \<and> wl_client wk = spawned \<and>
    wl_child wk \<and> wl_reported wk = None"
  using assms by (auto simp: spawn_worker_def split: if_splits sum.splits)

lemma launch_worker_Inr:
  assumes "launch_worker E P w = (Inr wk, w')" "ip_worker_override P = None"
  shows "\<exists>M out. ip_venv P = Some M \<and> ensure (he_os E) M w = (Inr out, w') \<and>
    resolve_worker_script E w' (venv_path (layout M)) (vc_script_path (ip_venv_config P)) = Inr (wl_script wk) \<and>
    spawn_worker E w' (python_executable (layout M)) (wl_script wk) (ip_worker_cwd P)
      (vc_max_content_size (ip_venv_config P)) (vc_timeout_secs (ip_venv_config P)) = Inr wk"
proof -
  from assms obtain M out script where "ip_venv P = Some M" "ensure (he_os E) M w = (Inr out, w')"
    "resolve_worker_script E w' (venv_path (layout M)) (vc_script_path (ip_venv_config P)) = Inr script"
    and wk: "spawn_worker E w' (python_executable (layout M)) script (ip_worker_cwd P)
      (vc_max_content_size (ip_venv_config P)) (vc_timeout_secs (ip_venv_config P)) = Inr wk"
    by (auto simp: launch_worker_def then_do_Inr split: option.splits)
  moreover from spawn_worker_Inr [OF wk] have "script = wl_script wk" by simp
  ultimately show ?thesis by blast
qed

lemma path_join_last: "b \<noteq> [] \<Longrightarrow> path_join a b \<noteq> [] \<and> last (path_join a b) = last b"
  by (simp add: path_join_def)

lemma venv_path_last:
  assumes "resolve_layout S dirs cls = Inr l"
  shows "venv_path l \<noteq> [] \<and> last (venv_path l) \<noteq> CHR 0x2F"
  using assms path_join_last [of "''.venv''"] by (auto simp: resolve_layout_def Let_def split: list.splits if_splits)

lemma new_manager_layout: "new_manager S dirs cls requirements ver = Inr M \<Longrightarrow> resolve_layout S dirs cls = Inr (layout M)"
  by (auto simp: new_manager_def)

lemma initialize_Inr:
  assumes "plugin_initialize E probe P w = (Inr (), P', w')"
  obtains wk report where "launch_worker E (P\<lparr> ip_shut_down := False \<rparr>) w = (Inr wk, w')"
    "verify_worker_understands (plugin_config.truncate (ip_config P)) (wl_reported wk) probe = (Inr (), report)"
    "P' = P\<lparr> ip_shut_down := False, ip_worker := Some (wk\<lparr> wl_reported := report \<rparr>) \<rparr>"
  using assms by (auto simp: plugin_initialize_def Let_def split: prod.splits sum.splits)

lemma release_venvs: "venvs (snd (release_owner S M w)) = venvs w"
  by (simp add: release_owner_def write_owners_def write_file_def Let_def split: option.split sum.split)

section \<open>Properties\<close>

text \<open>The names of a directory's entries are no absolute paths, and none of them is
  \<^verbatim>\<open>..\<close> (\<^verbatim>\<open>read_dir\<close> skips it).\<close>

definition entry_law :: "'v launch_env \<Rightarrow> bool" where
  "entry_law E \<longleftrightarrow> (\<forall>w d names n. dir_names E w d = Some names \<longrightarrow> n \<in> set names \<longrightarrow>
     \<not> is_absolute n \<and> no_parent n)"

text \<open>C19: A plugin that initialized runs what its configuration commits to. The worker installed was
  launched with the interpreter of the plugin's own venv, after that venv was ensured, under the
  configured frame and time limits, and it has itself reported every wire feature the declaration
  requires. Its script is the configured one when that is absolute, and otherwise the first of the
  venv's candidate locations that exists; it lies below the venv when the setting has no
  \<^verbatim>\<open>..\<close> segment.\<close>

theorem initialized_worker_is_checked:
  assumes "entry_law E" "create E c = (Inr I, warned)"
    and "plugin_initialize E probe (pi_plugin I) w = (Inr (), P', w')"
  shows "\<exists>M out wk. new_manager (he_os E) (default_plugin_dirs E) (vc_class_name (ip_venv_config P'))
        (vc_requirements_file (ip_venv_config P')) (pc_version c) = Inr M \<and>
      ensure (he_os E) M w = (Inr out, w') \<and> ip_worker P' = Some wk \<and>
      wl_python wk = python_executable (layout M) \<and> path_exists E w' (wl_python wk) \<and>
      (let setting = vc_script_path (ip_venv_config P') in
       if is_absolute setting then wl_script wk = setting
       else find (path_exists E w') (script_candidates E w' (venv_path (layout M)) setting) = Some (wl_script wk) \<and>
         (no_parent setting \<longrightarrow> below (venv_path (layout M)) (wl_script wk))) \<and>
      wl_max_content_size wk = vc_max_content_size (ip_venv_config P') \<and>
      wl_timeout_secs wk = vc_timeout_secs (ip_venv_config P') \<and>
      passed (plugin_config.truncate c) (wl_reported wk)"
proof -
  from assms(2) have "plugin_from_config E c = Inr (pi_plugin I)" by (simp add: create_Inr)
  note P = plugin_from_config_Inr [OF this]
  from initialize_Inr [OF assms(3)] obtain wk report where
    l: "launch_worker E ((pi_plugin I)\<lparr> ip_shut_down := False \<rparr>) w = (Inr wk, w')" and
    v: "verify_worker_understands (plugin_config.truncate (ip_config (pi_plugin I))) (wl_reported wk) probe = (Inr (), report)" and
    P': "P' = (pi_plugin I)\<lparr> ip_shut_down := False, ip_worker := Some (wk\<lparr> wl_reported := report \<rparr>) \<rparr>" by blast
  from launch_worker_Inr [OF l] P(4) obtain M out where M: "ip_venv (pi_plugin I) = Some M"
    and e: "ensure (he_os E) M w = (Inr out, w')"
    and s: "resolve_worker_script E w' (venv_path (layout M)) (vc_script_path (ip_venv_config (pi_plugin I))) = Inr (wl_script wk)"
    and wk: "spawn_worker E w' (python_executable (layout M)) (wl_script wk) (ip_worker_cwd (pi_plugin I))
      (vc_max_content_size (ip_venv_config (pi_plugin I))) (vc_timeout_secs (ip_venv_config (pi_plugin I))) = Inr wk"
    by auto
  note spawn = spawn_worker_Inr [OF wk]
  note m = P(6) [OF M]
  have inside: "below (venv_path (layout M)) p"
    if "\<not> is_absolute (vc_script_path (ip_venv_config (pi_plugin I)))"
      "no_parent (vc_script_path (ip_venv_config (pi_plugin I)))"
      "find (path_exists E w') (script_candidates E w' (venv_path (layout M)) (vc_script_path (ip_venv_config (pi_plugin I)))) = Some p" for p
    by (rule candidates_below [OF that(1,2) _ _ _ conjunct2 [OF found_script [OF that(3)]]])
      (use venv_path_last [OF new_manager_layout [OF m]] assms(1) in \<open>auto simp: entry_law_def\<close>)
  have "passed (plugin_config.truncate c) report"
    using v P(1) spawn verify_decision [of "plugin_config.truncate c" probe "Inr ()" report] by (simp add: passed_def)
  with m e P' spawn s [unfolded resolved_script] inside show ?thesis
    by (intro exI [of _ M] exI [of _ out] exI [of _ "wk\<lparr> wl_reported := report \<rparr>"]) (auto simp: Let_def)
qed

definition instance_view ::
  "PluginInstance \<Rightarrow> VenvConfig \<times> VenvManager option \<times> string list \<times> string list" where
  "instance_view I = (ip_venv_config (pi_plugin I), ip_venv (pi_plugin I), ip_plugin_dirs (pi_plugin I),
     map fst (pi_handlers I))"

text \<open>The plugin directory is the host's alone. Setting \<^verbatim>\<open>plugin_dirs\<close> in an entry's
  block, to any value, changes neither whether the plugin is created nor its settings, venv,
  handlers and directories, and the tasks sent to its worker name the directory under the project
  root; the only effect is a warning.\<close>

theorem plugin_dirs_key_ignored:
  assumes "obj_ok m" "pc_hooks c \<noteq> []"
    and "create E (c\<lparr> pc_config := Some (JObject (obj_insert ''plugin_dirs'' v m)) \<rparr>) = (r, warned)"
    and "create E (c\<lparr> pc_config := Some (JObject (obj_remove ''plugin_dirs'' m)) \<rparr>) = (r', warned')"
  shows "warned \<and> \<not> warned' \<and>
    map_option instance_view (result_ok r) =
    map_option instance_view (result_ok r') \<and>
    (\<forall>I fresh_id hook legacy payload ctx task to_str. r = Inr I \<longrightarrow>
       build_task (task_plugin to_str (pi_plugin I)) fresh_id hook legacy payload ctx = Inr task \<longrightarrow>
       jget task ''plugin_dirs'' = Some (JArray [JString (path_join (project_root E) ''plugins'')]))"
proof -
  let ?m = "obj_insert ''plugin_dirs'' v m" and ?m' = "obj_remove ''plugin_dirs'' m"
  have same: "de_venv_config (JObject ?m) = de_venv_config (JObject m)"
    by (simp add: de_venv_config_def struct_fields_def req_def opt_def dflt_def)
  also have "\<dots> = de_venv_config (JObject ?m')"
    by (rule de_venv_config_ignores [symmetric]) (simp_all add: assms(1))
  finally have "de_venv_config (JObject ?m) = de_venv_config (JObject ?m')" .
  then have views: "map_option instance_view (result_ok r) =
      map_option instance_view (result_ok r')"
    using assms(2-4)
    by (cases "de_venv_config (JObject ?m')")
       (auto simp: create_def plugin_from_config_def from_plugin_config_def result_ok_def comp_def Let_def
          instance_view_def)
  have "warned" "\<not> warned'"
    using assms by (auto simp: create_def declares_ignored_plugin_dirs_def)
  moreover have "jget task ''plugin_dirs'' = Some (JArray [JString (path_join (project_root E) ''plugins'')])"
    if "r = Inr I" "build_task (task_plugin to_str (pi_plugin I)) fresh_id hook legacy payload ctx = Inr task"
    for I fresh_id hook legacy payload ctx task to_str
  proof -
    from assms(3) that(1) have "create E (c\<lparr> pc_config := Some (JObject ?m) \<rparr>) = (Inr I, warned)" by simp
    then have "plugin_from_config E (c\<lparr> pc_config := Some (JObject ?m) \<rparr>) = Inr (pi_plugin I)"
      unfolding create_Inr by blast
    note dirs = plugin_from_config_Inr(2) [OF this]
    from that(2) dirs show ?thesis
      by (auto simp: build_task_def task_plugin_def Let_def default_plugin_dirs_def DEFAULT_PLUGIN_DIR_def
          split: sum.splits)
  qed
  ultimately show ?thesis using views by blast
qed

text \<open>A shutdown gives up the plugin's claim and nothing else. After an initialize that ensured the venv
  and a shutdown whose registry write succeeds, the worker slot is empty, the plugin is no owner of
  the shared venv, every other owner still is, and no venv was touched; the outcome reported is
  that of stopping the worker alone.\<close>

theorem shutdown_releases_claim:
  assumes "codec_law (he_os E)" "ip_venv P = Some M" "inputs_ok (he_os E) M"
    and "plugin_shutdown E wait P w = (r, P', w')" "fst (release_owner (he_os E) M w) = Inr ()"
  shows "ip_worker P' = None \<and> ip_shut_down P' \<and>
    set (load_owners (he_os E) w' (owners_path (layout M))) =
      set (load_owners (he_os E) w (owners_path (layout M))) - {class_name M} \<and> venvs w' = venvs w \<and>
    r = (case ip_worker P of None \<Rightarrow> Inr ()
         | Some wk \<Rightarrow> map_err (\<lambda>e. into_plugin_error e (pc_name (ip_config P))) (fst (worker_shutdown E wait wk)))"
proof -
  from assms(5) obtain w2 where rel: "release_owner (he_os E) M w = (Inr (), w2)"
    by (cases "release_owner (he_os E) M w") simp
  from rel release_venvs [of "he_os E" M w] have "venvs w2 = venvs w" by simp
  moreover from assms(2,4) rel have "P' = P\<lparr> ip_shut_down := True, ip_worker := None \<rparr>" "w' = w2"
    "r = (case ip_worker P of None \<Rightarrow> Inr ()
       | Some wk \<Rightarrow> map_err (\<lambda>e. into_plugin_error e (pc_name (ip_config P))) (fst (worker_shutdown E wait wk)))"
    by (simp_all add: plugin_shutdown_def)
  ultimately show ?thesis using release_load [OF assms(1,3) rel] by simp
qed

text \<open>A plugin that fails to initialize keeps its claim. When the venv was ensured but the worker then
  could not be launched or was refused by the handshake, no worker is installed and the error is
  the plugin's, but the plugin stays registered as an owner of the venv.\<close>

theorem failed_initialize_keeps_claim:
  assumes "codec_law (he_os E)" "ip_venv P = Some M" "inputs_ok (he_os E) M" "ip_worker_override P = None"
    and "plugin_initialize E probe P w = (Inl e, P', w')" "ensure (he_os E) M w = (Inr out, w'')"
  shows "ip_worker P' = ip_worker P \<and> class_name M \<in> set (load_owners (he_os E) w' (owners_path (layout M))) \<and>
    (\<exists>h. e = into_plugin_error h (pc_name (ip_config P)))"
proof -
  have "snd (launch_worker E (P\<lparr> ip_shut_down := False \<rparr>) w) = w''"
    using assms(2,4,6) by (auto simp: launch_worker_def then_do_def split: sum.split)
  then have "w' = w''"
    using assms(5) by (auto simp: plugin_initialize_def Let_def split: prod.splits sum.splits)
  with owner_after_ensure [OF assms(1,3,6)]
  have "class_name M \<in> set (load_owners (he_os E) w' (owners_path (layout M)))" by simp
  moreover have "ip_worker P' = ip_worker P \<and> (\<exists>h. e = into_plugin_error h (pc_name (ip_config P)))"
    using assms(5) by (auto simp: plugin_initialize_def Let_def plugin_config.truncate_def split: prod.splits sum.splits)
  ultimately show ?thesis by blast
qed

text \<open>Stopping a worker twice is stopping it once, and what its stdin receives is always a prefix of
  the queued lines.\<close>

lemma worker_shutdown_twice:
  "worker_shutdown E wait wk = (r, wk') \<Longrightarrow> worker_shutdown E wait' wk' = (Inr (), wk')"
  by (auto simp: worker_shutdown_def Let_def split: if_splits)

lemma writer_loop_prefix: "prefix (writer_loop xs) (concat (map fst xs))"
  by (induction xs rule: writer_loop.induct) (auto simp: take_is_prefix prefix_append split: option.split intro: prefix_order.trans [OF take_is_prefix])

section \<open>A run\<close>

definition sample_host :: "string list launch_env" where
  "sample_host = \<lparr> he_os = sample_os, current_dir = Some ''/srv'', config_error = (\<lambda>_. []),
     path_exists = (\<lambda>_ _. True), dir_names = (\<lambda>_ _. Some [''python3.12'']), command_v = Inr [],
     spawn_child = (\<lambda>_ _ _. Inr \<lparr> stdin_piped = True, stdout_piped = True, stderr_piped = True \<rparr>),
     task_line = (\<lambda>_. Inr ''{}''), hook_family = (\<lambda>_. None) \<rparr>"

definition sample_block :: "json obj" where
  "sample_block = [(''class_name'', JString ''pkg.Filter'')]"

definition sample_entry :: plugin_entry where
  "sample_entry = \<lparr> pc_name = ''idp'', pc_kind = KIND, pc_hooks = [''identity.resolve''],
     pc_capabilities = [''read_inbound_credentials''], pc_config = Some (JObject sample_block), pc_version = None \<rparr>"

definition no_files :: "string list world" where
  "no_files = \<lparr> files = Map.empty, venvs = Map.empty \<rparr>"

lemma sample_settings:
  "from_plugin_config sample_host sample_entry = Inr \<lparr> vc_class_name = ''pkg.Filter'', vc_requirements_file = None,
     vc_script_path = default_script_path, vc_max_content_size = default_max_content_size,
     vc_timeout_secs = default_timeout_secs \<rparr>"
  by (simp add: from_plugin_config_def sample_entry_def sample_block_def de_venv_config_def struct_fields_def
      req_def opt_def opt_of_def dflt_def)

lemma sample_instance:
  obtains I M where "create sample_host sample_entry = (Inr I, False)" "ip_venv (pi_plugin I) = Some M"
    "ip_config (pi_plugin I) = sample_entry" "ip_worker (pi_plugin I) = None"
    "ip_worker_override (pi_plugin I) = None" "requirements_file M = None" "class_name M = ''pkg.Filter''"
    "inputs_ok sample_os M"
    "vc_script_path (ip_venv_config (pi_plugin I)) = default_script_path"
proof -
  obtain M where M: "new_manager sample_os (default_plugin_dirs sample_host) ''pkg.Filter'' None None = Inr M"
    by (simp add: new_manager_def resolve_layout_def default_plugin_dirs_def Let_def)
  note l = resolve_layout_ok [OF new_manager_layout [OF M]]
  from M have m: "requirements_file M = None" "class_name M = ''pkg.Filter''" by (auto simp: new_manager_def)
  have os: "he_os sample_host = sample_os" by (simp add: sample_host_def)
  obtain P where P: "plugin_from_config sample_host sample_entry = Inr P" "ip_venv P = Some M"
    "ip_config P = sample_entry" "ip_worker P = None" "ip_worker_override P = None"
    "vc_script_path (ip_venv_config P) = default_script_path"
  proof -
    have version: "pc_version sample_entry = None" by (simp add: sample_entry_def)
    have "\<exists>P. plugin_from_config sample_host sample_entry = Inr P \<and> ip_venv P = Some M \<and>
        vc_script_path (ip_venv_config P) = default_script_path"
      using M by (simp add: plugin_from_config_def sample_settings Let_def os result_ok_def version)
    then show thesis using that plugin_from_config_Inr(1,3,4) by blast
  qed
  have "create sample_host sample_entry = (Inr \<lparr> pi_plugin = P, pi_handlers =
      map (\<lambda>h. (h, \<lparr> pa_plugin = P, pa_hook_name = h \<rparr>)) (pc_hooks sample_entry) \<rparr>, False)"
    using P(1) by (simp add: create_Inr declares_ignored_plugin_dirs_def) (simp add: sample_entry_def sample_block_def)
  then show thesis using that P m l by (auto simp: inputs_ok_def sample_os_def)
qed

lemma fresh_ensure:
  assumes "requirements_file M = None"
  shows "\<exists>out w'. ensure sample_os M no_files = (Inr out, w')"
  using assms
  by (simp add: no_files_def ensure_def build_venv_def cache_verdict_def evaluate_cache_def is_valid_def then_do_def
      prepare_directories_def create_dir_all_def remove_stale_venv_def create_venv_def
      install_requirements_def register_owner_def write_owners_def write_file_def save_metadata_def
      load_owners_def read_to_string_def read_file_def exists_def has_other_owner_def sample_os_def Let_def)

lemma sample_handshake:
  "\<exists>r. verify_worker_understands (plugin_config.truncate sample_entry) None good_probe = (Inr (), r)"
  by (simp add: verify_worker_understands_def required_worker_features_def sample_entry_def good_probe_def
      plugin_config.truncate_def capabilities_of_def report_of_def has_feature_def CAP_READ_INBOUND_def
      CAP_READ_DELEGATED_def WORKER_KNOWN_CAPABILITIES_def FEATURE_CREDENTIAL_def FEATURE_CMF_HOOKS_def
      FEATURE_EXTENSIONS_def Let_def obj_get_def)

lemma sample_launch:
  assumes "ip_venv P = Some M" "ip_worker_override P = None" "ensure sample_os M w = (Inr out, w')"
    and "vc_script_path (ip_venv_config P) = default_script_path"
  shows "\<exists>wk. launch_worker sample_host P w = (Inr wk, w') \<and> wl_reported wk = None"
  using assms
  by (simp add: launch_worker_def then_do_def sample_host_def resolve_worker_script_def script_candidates_def
      default_script_path_def is_absolute_def spawn_worker_def)

theorem initialized_worker_is_checked_witness:
  "\<exists>I P' w' wk. create sample_host sample_entry = (Inr I, False) \<and>
     plugin_initialize sample_host good_probe (pi_plugin I) no_files = (Inr (), P', w') \<and>
     ip_worker P' = Some wk \<and> passed (plugin_config.truncate sample_entry) (wl_reported wk)"
proof -
  obtain I M where I: "create sample_host sample_entry = (Inr I, False)" "ip_venv (pi_plugin I) = Some M"
    "ip_config (pi_plugin I) = sample_entry" "ip_worker_override (pi_plugin I) = None"
    "requirements_file M = None" "vc_script_path (ip_venv_config (pi_plugin I)) = default_script_path"
    by (rule sample_instance)
  from fresh_ensure [OF I(5)] obtain out w' where e: "ensure sample_os M no_files = (Inr out, w')" by blast
  obtain wk where wk: "launch_worker sample_host ((pi_plugin I)\<lparr> ip_shut_down := False \<rparr>) no_files = (Inr wk, w')"
    "wl_reported wk = None"
  proof -
    have "\<exists>wk. launch_worker sample_host ((pi_plugin I)\<lparr> ip_shut_down := False \<rparr>) no_files = (Inr wk, w') \<and>
        wl_reported wk = None"
      by (rule sample_launch [OF _ _ e]) (simp_all add: I)
    then show thesis using that by blast
  qed
  from sample_handshake obtain r where
    r: "verify_worker_understands (plugin_config.truncate sample_entry) None good_probe = (Inr (), r)" by blast
  have init: "plugin_initialize sample_host good_probe (pi_plugin I) no_files = (Inr (),
      (pi_plugin I)\<lparr> ip_shut_down := False, ip_worker := Some (wk\<lparr> wl_reported := r \<rparr>) \<rparr>, w')"
    using wk r I(3) by (simp add: plugin_initialize_def Let_def)
  have "entry_law sample_host" by (simp add: entry_law_def sample_host_def is_absolute_def no_parent_def)
  from initialized_worker_is_checked [OF this I(1) init] I(1) init show ?thesis by blast
qed

theorem plugin_dirs_key_ignored_witness:
  "snd (create sample_host (sample_entry\<lparr> pc_config := Some (JObject (obj_insert ''plugin_dirs'' JNull sample_block)) \<rparr>))"
proof -
  obtain r warned where r: "create sample_host (sample_entry\<lparr> pc_config := Some (JObject (obj_insert ''plugin_dirs'' JNull sample_block)) \<rparr>)
      = (r, warned)" by fastforce
  obtain r' warned' where r': "create sample_host (sample_entry\<lparr> pc_config := Some (JObject (obj_remove ''plugin_dirs'' sample_block)) \<rparr>)
      = (r', warned')" by fastforce
  have "obj_ok sample_block" "pc_hooks sample_entry \<noteq> []" by (simp_all add: sample_block_def sample_entry_def obj_ok_def)
  from plugin_dirs_key_ignored [OF this r r'] r show ?thesis by simp
qed

definition sample_isolated :: "VenvManager \<Rightarrow> IsolatedPythonPlugin" where
  "sample_isolated M = \<lparr> ip_config = sample_entry, ip_venv_config = \<lparr> vc_class_name = ''a'', vc_requirements_file = None,
     vc_script_path = default_script_path, vc_max_content_size = 1, vc_timeout_secs = 1 \<rparr>,
     ip_plugin_dirs = [], ip_venv = Some M, ip_worker = None, ip_worker_override = None, ip_worker_cwd = None,
     ip_respawn = new_respawn_state, ip_shut_down = False \<rparr>"

theorem shutdown_releases_claim_witness:
  "set (load_owners sample_os (snd (snd (plugin_shutdown sample_host ChildExited (sample_isolated (sample_manager ''a'')) built_world)))
     ''owners.json'') = {}"
proof -
  let ?P = "sample_isolated (sample_manager ''a'')"
  have os: "he_os sample_host = sample_os" by (simp add: sample_host_def)
  have rel: "fst (release_owner sample_os (sample_manager ''a'') built_world) = Inr ()"
    using built_owners
    by (simp add: release_owner_def sample_manager_def sample_layout_def exists_def Let_def)
       (simp add: sample_os_def built_world_def)
  obtain r P' w' where s: "plugin_shutdown sample_host ChildExited ?P built_world = (r, P', w')"
    by (cases "plugin_shutdown sample_host ChildExited ?P built_world") simp
  have "ip_venv ?P = Some (sample_manager ''a'')" by (simp add: sample_isolated_def)
  from shutdown_releases_claim [OF _ this _ s, unfolded os, OF sample_os_laws(1) sample_inputs(1) rel] s built_owners
  show ?thesis by (simp add: sample_manager_def sample_layout_def)
qed

theorem failed_initialize_keeps_claim_witness:
  "\<exists>e P' w'. plugin_initialize sample_host (Inl (WorkerError ''unknown task type'')) (sample_isolated (sample_manager ''a'')) sample_world
      = (Inl e, P', w') \<and> ''a'' \<in> set (load_owners sample_os w' ''owners.json'')"
proof -
  let ?P = "sample_isolated (sample_manager ''a'')"
  let ?probe = "Inl (WorkerError ''unknown task type'') :: HostError + json"
  have os: "he_os sample_host = sample_os" by (simp add: sample_host_def)
  obtain wk where wk: "launch_worker sample_host (?P\<lparr> ip_shut_down := False \<rparr>) sample_world = (Inr wk, built_world)"
    "wl_reported wk = None"
  proof -
    have "\<exists>wk. launch_worker sample_host (?P\<lparr> ip_shut_down := False \<rparr>) sample_world = (Inr wk, built_world) \<and>
        wl_reported wk = None"
      by (rule sample_launch [OF _ _ sample_build]) (simp_all add: sample_isolated_def)
    then show thesis using that by blast
  qed
  obtain h rep where v: "verify_worker_understands (plugin_config.truncate sample_entry) None ?probe = (Inl h, rep)"
    by (simp add: verify_worker_understands_def required_worker_features_def sample_entry_def
        plugin_config.truncate_def capabilities_of_def CAP_READ_INBOUND_def CAP_READ_DELEGATED_def
        WORKER_KNOWN_CAPABILITIES_def FEATURE_CREDENTIAL_def FEATURE_CMF_HOOKS_def FEATURE_EXTENSIONS_def Let_def
        has_feature_def no_capabilities_def)
  obtain e P' w' where init: "plugin_initialize sample_host ?probe ?P sample_world = (Inl e, P', w')"
    using wk v by (simp add: plugin_initialize_def Let_def sample_isolated_def)
  have P: "ip_venv ?P = Some (sample_manager ''a'')" "ip_worker_override ?P = None" by (simp_all add: sample_isolated_def)
  from failed_initialize_keeps_claim [OF _ P(1) _ P(2) init, unfolded os, OF sample_os_laws(1) sample_inputs(1) sample_build] init
  show ?thesis by (auto simp: sample_manager_def sample_layout_def)
qed

end
