(* ===== verification/Task_Types.thy ===== *)
theory Task_Types
  imports Plugin_Host
begin

text \<open>
  The type of the JSON task a worker is sent. The worker reads the fields of a task by name and
  expects of each a JSON type; \<open>TASK_TYPE\<close> is that contract, and every task
  \<^verbatim>\<open>invoke\<close> builds (\<^verbatim>\<open>plugin.rs\<close>,
  \<^verbatim>\<open>credentials.rs\<close>, \<^verbatim>\<open>extensions.rs\<close>) has it.
\<close>

section \<open>Types of JSON values\<close>

datatype wire_type =
    WAny
  | WText
  | WMap
  | WList wire_type
  | WRecord "wire_field list"
and wire_field = Req string wire_type | Opt string wire_type

text \<open>A record has distinct keys, its required fields, and its optional fields absent or well
  typed; further fields are the business of the receiver.\<close>

fun has_type :: "wire_type \<Rightarrow> json \<Rightarrow> bool" and has_field :: "json obj \<Rightarrow> wire_field \<Rightarrow> bool" where
  "has_type WAny v = True"
| "has_type WText v = (as_str v \<noteq> None)"
| "has_type WMap v = is_object v"
| "has_type (WList t) v = (case v of JArray xs \<Rightarrow> list_all (has_type t) xs | _ \<Rightarrow> False)"
| "has_type (WRecord fs) v = (case v of JObject m \<Rightarrow> obj_ok m \<and> list_all (has_field m) fs | _ \<Rightarrow> False)"
| "has_field m (Req k t) = (case obj_get m k of None \<Rightarrow> False | Some v \<Rightarrow> has_type t v)"
| "has_field m (Opt k t) = (case obj_get m k of None \<Rightarrow> True | Some v \<Rightarrow> has_type t v)"

definition INBOUND_TYPE :: wire_type where
  "INBOUND_TYPE = WRecord [Req ''token'' WText, Req ''source_header'' WText, Req ''kind'' WText,
     Opt ''headers'' WMap]"

definition DELEGATED_TYPE :: wire_type where
  "DELEGATED_TYPE = WRecord [Req ''token'' WText, Req ''outbound_header'' WText,
     Req ''audience'' WText, Req ''scopes'' (WList WText)]"

definition CREDENTIAL_TYPE :: wire_type where
  "CREDENTIAL_TYPE = WRecord [Opt ''inbound'' INBOUND_TYPE, Opt ''delegated'' DELEGATED_TYPE]"

definition CONTEXT_TYPE :: wire_type where
  "CONTEXT_TYPE = WRecord [Req ''state'' WMap,
     Req ''global_context'' (WRecord [Req ''request_id'' WText, Req ''state'' WMap]),
     Req ''metadata'' WMap]"

definition task_fields :: "wire_field list" where
  "task_fields = [Req ''task_type'' WText, Req ''plugin_dirs'' (WList WText), Req ''class_name'' WText,
     Req ''config'' WText, Req ''hook_type'' WText, Req ''plugin_name'' WText, Req ''payload'' WAny,
     Req ''context'' CONTEXT_TYPE]"

definition TASK_TYPE :: wire_type where
  "TASK_TYPE = WRecord (task_fields @ [Opt CREDENTIAL_FIELD CREDENTIAL_TYPE, Opt EXTENSIONS_FIELD WMap])"

lemmas wire_type_defs = INBOUND_TYPE_def DELEGATED_TYPE_def CREDENTIAL_TYPE_def CONTEXT_TYPE_def

section \<open>Subject reduction of the steps\<close>

fun field_name :: "wire_field \<Rightarrow> string" where
  "field_name (Req k _) = k"
| "field_name (Opt k _) = k"

lemma has_field_cong:
  "obj_get m (field_name f) = obj_get n (field_name f) \<Longrightarrow> has_field m f = has_field n f"
  by (cases f) simp_all

text \<open>Inserting a well-typed field keeps the type of a record.\<close>

lemma has_type_insert:
  assumes "has_type (WRecord fs) (JObject m)" "list_all (\<lambda>f. field_name f = k \<longrightarrow> has_field [(k, v)] f) fs"
  shows "has_type (WRecord fs) (JObject (obj_insert k v m))"
proof -
  have "has_field (obj_insert k v m) f" if "f \<in> set fs" for f
  proof (cases "field_name f = k")
    case True
    with assms(2) that have "has_field [(k, v)] f" by (simp add: list_all_iff)
    with True show ?thesis by (subst has_field_cong [where n = "[(k, v)]"]) simp_all
  next
    case False
    with assms(1) that show ?thesis
      by (subst has_field_cong [where n = m]) (simp_all add: list_all_iff)
  qed
  with assms(1) show ?thesis by (simp add: list_all_iff)
qed

lemma dto_well_typed: "has_type CREDENTIAL_TYPE (dto_to_value d)"
  by (auto simp: dto_to_value_def inbound_to_value_def delegated_to_value_def str_obj_def wire_type_defs
      obj_ok_def is_object_def list_all_iff split: option.splits)

lemma credential_inserted:
  assumes "attach_credential_for_payload (JObject t) h p x caps = Inr r"
  shows "r = JObject t \<or> (\<exists>d. r = JObject (obj_insert CREDENTIAL_FIELD (dto_to_value d) t))"
  using assms
  by (auto simp: attach_credential_for_payload_def attach_credential_def insert_dto_Inr
      split: PayloadKind.splits payload_view.splits if_splits)

lemma extensions_inserted:
  assumes "attach_extensions E (JObject t) x = Inr r"
  shows "r = JObject t \<or> (\<exists>w. r = JObject (obj_insert EXTENSIONS_FIELD (JObject w) t))"
  using assms by (auto simp: attach_extensions_def to_wire_def split: option.splits if_splits)

lemma credential_keeps_type:
  assumes "has_type TASK_TYPE (JObject t)" "attach_credential_for_payload (JObject t) h p x caps = Inr r"
  shows "has_type TASK_TYPE r"
proof -
  have "has_type TASK_TYPE (JObject (obj_insert CREDENTIAL_FIELD (dto_to_value d) t))" for d
    using assms(1) dto_well_typed [of d] unfolding TASK_TYPE_def
    by (intro has_type_insert) (simp_all add: task_fields_def CREDENTIAL_FIELD_def EXTENSIONS_FIELD_def)
  with credential_inserted [OF assms(2)] assms(1) show ?thesis by auto
qed

lemma extensions_keep_type:
  assumes "has_type TASK_TYPE (JObject t)" "attach_extensions E (JObject t) x = Inr r"
  shows "has_type TASK_TYPE r"
proof -
  have "has_type TASK_TYPE (JObject (obj_insert EXTENSIONS_FIELD (JObject w) t))" for w
    using assms(1) unfolding TASK_TYPE_def
    by (intro has_type_insert)
       (simp_all add: task_fields_def CREDENTIAL_FIELD_def EXTENSIONS_FIELD_def is_object_def)
  with extensions_inserted [OF assms(2)] assms(1) show ?thesis by auto
qed

lemma built_task_typed: "build_task P i h l j ctx = Inr t \<Longrightarrow> has_type TASK_TYPE t"
  by (auto simp: build_task_def Let_def TASK_TYPE_def task_fields_def CONTEXT_TYPE_def obj_ok_def is_object_def
      CREDENTIAL_FIELD_def EXTENSIONS_FIELD_def list_all_iff split: sum.splits)

lemma has_type_record: "has_type (WRecord fs) v \<Longrightarrow> \<exists>m. v = JObject m"
  by (cases v) simp_all

section \<open>Properties\<close>

text \<open>C27: Every task an invocation sends is well typed: a JSON object without duplicate keys that has
  every field the worker reads at the type it expects, the two context maps with the request
  id as text among them, and whose credential, when it was attached, holds a token with its header and
  scopes in the declared form.\<close>

theorem tasks_are_well_typed:
  assumes "invoke_task H P i h l shim payload x ctx = Inr task"
  shows "has_type TASK_TYPE task"
proof -
  from assms obtain j t r where t: "build_task P i h l j ctx = Inr t"
    and r: "attach_credential_for_payload t h (payload_view payload) x (set (pc_capabilities (pl_config P))) = Inr r"
    and task: "attach_extensions (env_engine H) r x = Inr task" unfolding invoke_task_def by auto
  note typed = built_task_typed [OF t]
  then obtain m where m: "t = JObject m" using has_type_record by (auto simp: TASK_TYPE_def)
  from credential_keeps_type typed r have typed: "has_type TASK_TYPE r" unfolding m by blast
  then obtain n where n: "r = JObject n" using has_type_record by (auto simp: TASK_TYPE_def)
  from extensions_keep_type typed task show ?thesis unfolding n by blast
qed

theorem tasks_are_well_typed_witness:
  "\<exists>t. invoke_task sample_env sample_plugin ''id'' ''cmf.tool_pre_invoke'' False None
     (PGeneric (JBool True)) no_extensions empty_context = Inr t \<and> has_type TASK_TYPE t"
  using sample_task tasks_are_well_typed by blast

end
