(* ===== verification/Biscuit.thy ===== *)
theory Biscuit
  imports Credential_Payloads Legacy_Payloads
begin

text \<open>
  The biscuit delegator (\<^verbatim>\<open>builtins/plugins/delegator-biscuit\<close>): its configuration with
  the sources of the root key, and the hook handler that verifies an inbound biscuit, appends a
  delegation block written as Datalog source and mints the attenuated token. The biscuit and hex
  libraries are the record \<open>biscuit_lib\<close>, an argument of the definitions that call them. A
  reader of Datalog text, in which a string literal ends at the first quote that no backslash
  escapes, is the reference against which the escaping is shown correct.
\<close>

section \<open>The libraries\<close>

record ('k, 'b, 'd, 'o) biscuit_lib =
  read_path :: "string \<Rightarrow> string + string"
  hex_decode :: "string \<Rightarrow> string + string"
  key_from_bytes :: "string \<Rightarrow> string + 'k"
  from_base64 :: "string \<Rightarrow> 'k \<Rightarrow> string + 'b"
  block_code :: "string \<Rightarrow> string + 'd"
  append_block :: "'b \<Rightarrow> 'd \<Rightarrow> string + 'b"
  to_base64 :: "'b \<Rightarrow> string + string"
  config_error :: "json \<Rightarrow> string"
  attenuation_ttl :: "'o \<Rightarrow> 64 word option"
  attenuation_capabilities :: "'o \<Rightarrow> string list"
  mode_value :: "DelegationMode \<Rightarrow> 'o"

section \<open>Strict decoding\<close>

text \<open>\<^verbatim>\<open>str::from_utf8\<close> with the text of its error: how much of the input is valid,
  and whether the sequence found there is ill-formed or only cut off.\<close>

function utf8_error :: "nat \<Rightarrow> string \<Rightarrow> string option" where
  "utf8_error i [] = None"
| "utf8_error i (c # s) =
     (let n = snd (utf8_step (c # s)) in
      if fst (utf8_step (c # s)) then utf8_error (i + n) (drop n (c # s))
      else if n = length (c # s) \<and> utf8_width c \<noteq> 0
      then Some (''incomplete utf-8 byte sequence from index '' @ show_nat i)
      else Some (''invalid utf-8 sequence of '' @ show_nat n @ '' bytes from index '' @ show_nat i))"
  by pat_completeness auto
termination
  by (relation "measure (\<lambda>(i, s). length s)") (auto simp del: utf8_step.simps)

definition from_utf8 :: "string \<Rightarrow> string + string" where
  "from_utf8 s = (case utf8_error 0 s of None \<Rightarrow> Inr s | Some e \<Rightarrow> Inl e)"

section \<open>Configuration\<close>

datatype PublicKeySource = Hex string | File string | Bytes string

record BiscuitDelegatorConfig =
  root_public_key_source :: PublicKeySource
  default_outbound_header :: string
  default_ttl_seconds :: "64 word"

definition default_outbound_header_value :: string where
  "default_outbound_header_value = ''Authorization''"

definition default_ttl_seconds_value :: "64 word" where
  "default_ttl_seconds_value = 300"

definition de_byte :: "json \<Rightarrow> char option" where
  "de_byte v = Option.bind (as_u64 v) (\<lambda>n. if unat n < 256 then Some (char_of (unat n)) else None)"

text \<open>The variant of an internally tagged enum, from the object without its tag or from the rest of
  an array that starts with it.\<close>

definition de_key_variant :: "string \<Rightarrow> json \<Rightarrow> PublicKeySource option" where
  "de_key_variant tag v =
     (if tag = ''hex'' then
        Option.bind (struct_fields [''hex''] v) (\<lambda>m. map_option Hex (req as_str m ''hex''))
      else if tag = ''file'' then
        Option.bind (struct_fields [''path''] v) (\<lambda>m. map_option File (req as_str m ''path''))
      else if tag = ''bytes'' then
        Option.bind (struct_fields [''bytes''] v) (\<lambda>m.
          map_option Bytes (req (\<lambda>b. Option.bind (as_array b) (all_items de_byte)) m ''bytes''))
      else None)"

definition de_key_source :: "json \<Rightarrow> PublicKeySource option" where
  "de_key_source v =
     (case v of
        JObject m \<Rightarrow> Option.bind (req as_str m ''kind'') (\<lambda>tag.
          de_key_variant tag (JObject (filter (\<lambda>(k, _). k \<noteq> ''kind'') m)))
      | JArray (JString tag # xs) \<Rightarrow> de_key_variant tag (JArray xs)
      | _ \<Rightarrow> None)"

definition de_biscuit_config :: "json \<Rightarrow> BiscuitDelegatorConfig option" where
  "de_biscuit_config v =
     Option.bind (struct_fields [''root_public_key'', ''default_outbound_header'', ''default_ttl_seconds''] v) (\<lambda>m.
     Option.bind (req de_key_source m ''root_public_key'') (\<lambda>k.
     Option.bind (dflt as_str default_outbound_header_value m ''default_outbound_header'') (\<lambda>h.
     Option.bind (dflt as_u64 default_ttl_seconds_value m ''default_ttl_seconds'') (\<lambda>t.
     Some \<lparr> root_public_key_source = k, default_outbound_header = h, default_ttl_seconds = t \<rparr>))))"

definition bytes_to_public_key :: "('k, 'b, 'd, 'o) biscuit_lib \<Rightarrow> string \<Rightarrow> string + 'k" where
  "bytes_to_public_key B bytes =
     (if length bytes \<noteq> 32
      then Inl (''Ed25519 public key must be 32 bytes; got '' @ show_nat (length bytes))
      else map_err (\<lambda>e. ''public key bytes not a valid Ed25519 key: '' @ e) (key_from_bytes B bytes))"

definition resolve_key :: "('k, 'b, 'd, 'o) biscuit_lib \<Rightarrow> PublicKeySource \<Rightarrow> string + 'k" where
  "resolve_key B source =
     (case source of
        Hex hex \<Rightarrow>
          rbind (map_err (\<lambda>e. ''public_key.hex isn'' @ [CHR 0x27] @ ''t valid hex: '' @ e)
                   (hex_decode B (trim hex)))
            (bytes_to_public_key B)
      | Bytes bytes \<Rightarrow> bytes_to_public_key B bytes
      | File path \<Rightarrow>
          rbind (map_err (\<lambda>e. ''public_key file '' @ sq path @ '' unreadable: '' @ e) (read_path B path))
            (\<lambda>raw.
             if length raw = 32 then bytes_to_public_key B raw
             else
               rbind (map_err (\<lambda>e. ''public_key file '' @ sq path @ '' isn'' @ [CHR 0x27]
                                 @ ''t 32 raw bytes or valid UTF-8 hex: '' @ e) (from_utf8 raw)) (\<lambda>as_str.
               rbind (map_err (\<lambda>e. ''public_key file '' @ sq path @ '' isn'' @ [CHR 0x27]
                                 @ ''t valid hex: '' @ e) (hex_decode B (trim as_str)))
                 (bytes_to_public_key B))))"

record 'k BiscuitDelegator =
  bd_name :: string
  bd_typed :: BiscuitDelegatorConfig
  bd_root_public_key :: 'k

definition new_delegator ::
  "('k, 'b, 'd, 'o) biscuit_lib \<Rightarrow> string \<Rightarrow> json option \<Rightarrow> PluginError + 'k BiscuitDelegator" where
  "new_delegator B name config =
     (let plugin = ''plugin '' @ sq name @ '' (cpex-plugin-delegator-biscuit) '' in
      rbind (ok_or (PConfig (plugin @ ''requires a '' @ bq ''config:'' @ '' block'')) config) (\<lambda>raw.
      rbind (ok_or (PConfig (plugin @ ''config parse failed: '' @ config_error B raw))
               (de_biscuit_config raw)) (\<lambda>typed.
      rbind (map_err (\<lambda>e. PConfig (plugin @ ''root_public_key: '' @ e))
               (resolve_key B (root_public_key_source typed))) (\<lambda>key.
      Inr \<lparr> bd_name = name, bd_typed = typed, bd_root_public_key = key \<rparr>))))"

section \<open>The delegation block\<close>

abbreviation dquote :: char where "dquote \<equiv> CHR 0x22"
abbreviation backslash :: char where "backslash \<equiv> CHR 0x5C"

text \<open>\<^verbatim>\<open>str::replace\<close> with a character pattern.\<close>

definition str_replace :: "char \<Rightarrow> string \<Rightarrow> string \<Rightarrow> string" where
  "str_replace c by s = concat (map (\<lambda>x. if x = c then by else [x]) s)"

definition escape_datalog_string :: "string \<Rightarrow> string" where
  "escape_datalog_string s =
     str_replace dquote [backslash, dquote] (str_replace backslash [backslash, backslash] s)"

definition quoted :: "string \<Rightarrow> string" where
  "quoted s = dquote # escape_datalog_string s @ [dquote]"

definition block_source :: "'o DelegationPayload \<Rightarrow> string \<Rightarrow> int \<Rightarrow> string" where
  "block_source payload audience expires_at_unix =
     ''delegated_to('' @ quoted (dp_target_name payload) @ '');''
     @ ''audience('' @ quoted audience @ '');''
     @ concat (map (\<lambda>perm. ''check if operation('' @ quoted perm @ '');'') (dp_required_permissions payload))
     @ ''check if time($t), $t <= '' @ show_int expires_at_unix @ '';''"

section \<open>The handler\<close>

record 'o FullDelegationPayload = "'o DelegationPayload" +
  dp_metadata :: "json obj"

text \<open>A time sum out of range panics.\<close>

datatype 'o handled = Panicked | Denied PluginViolation | Modified "'o FullDelegationPayload"

definition effective_ttl_seconds ::
  "('k, 'b, 'd, 'o) biscuit_lib \<Rightarrow> 'k BiscuitDelegator \<Rightarrow> ('o, 'z) DelegationPayload_scheme \<Rightarrow> 64 word" where
  "effective_ttl_seconds B D payload =
     (case Option.bind (dp_route_attenuation payload) (attenuation_ttl B) of
        Some hint \<Rightarrow> min hint (default_ttl_seconds (bd_typed D))
      | None \<Rightarrow> default_ttl_seconds (bd_typed D))"

fun push_missing :: "string list \<Rightarrow> string list \<Rightarrow> string list" where
  "push_missing s [] = s"
| "push_missing s (cap # caps) = push_missing (if cap \<in> set s then s else s @ [cap]) caps"

definition token_scopes ::
  "('k, 'b, 'd, 'o) biscuit_lib \<Rightarrow> ('o, 'z) DelegationPayload_scheme \<Rightarrow> string list" where
  "token_scopes B payload =
     (case dp_route_attenuation payload of
        Some att \<Rightarrow> push_missing (dp_required_permissions payload) (attenuation_capabilities B att)
      | None \<Rightarrow> dp_required_permissions payload)"

definition deny_with :: "string \<Rightarrow> string \<Rightarrow> 'o handled" where
  "deny_with c reason = Denied (new_violation c reason)"

text \<open>The clock is read three times: for the block, for the token and for the mint time.\<close>

definition handle ::
  "'o engine \<Rightarrow> ('k, 'b, 'd, 'o) biscuit_lib \<Rightarrow> 'k BiscuitDelegator \<Rightarrow> int \<Rightarrow> int \<Rightarrow> int
     \<Rightarrow> 'o FullDelegationPayload \<Rightarrow> 'o handled" where
  "handle E B D now1 now2 now3 payload =
     (let bearer = dp_bearer_token payload;
          audience = (case dp_target_audience payload of Some a \<Rightarrow> a | None \<Rightarrow> []) in
      if bearer = [] then
        deny_with ''delegation.bad_request'' ''DelegationPayload carried an empty bearer_token''
      else if audience = [] then
        deny_with ''delegation.bad_request'' (''target_audience missing '' @ dash
          @ '' biscuit attenuation requires an audience to scope the delegation block'')
      else case from_base64 B bearer (bd_root_public_key D) of
        Inl e \<Rightarrow> deny_with ''delegation.token_invalid''
          (''inbound biscuit verification failed against configured root public key: '' @ e)
      | Inr biscuit \<Rightarrow>
          (let ttl_secs = sint (effective_ttl_seconds B D payload) in
           case add_secs E now1 ttl_secs of
             None \<Rightarrow> Panicked
           | Some expires_at_block \<Rightarrow>
               (case block_code B (block_source (DelegationPayload.truncate payload) audience
                        (expires_at_block div 10 ^ 9)) of
                  Inl e \<Rightarrow> deny_with ''delegation.attenuation_failed''
                    (''delegation block Datalog parse failed: '' @ e)
                | Inr builder \<Rightarrow>
                    (case append_block B biscuit builder of
                       Inl e \<Rightarrow> deny_with ''delegation.attenuation_failed'' (''biscuit append failed: '' @ e)
                     | Inr attenuated \<Rightarrow>
                         (case to_base64 B attenuated of
                            Inl e \<Rightarrow> deny_with ''delegation.attenuation_failed''
                              (''could not serialize attenuated biscuit: '' @ e)
                          | Inr new_bytes \<Rightarrow>
                              (case add_secs E now2 ttl_secs of
                                 None \<Rightarrow> Panicked
                               | Some expires_at \<Rightarrow> Modified (payload
                                   \<lparr> dp_delegated_token := Some
                                       \<lparr> rdt_token = new_bytes,
                                         rdt_outbound_header = default_outbound_header (bd_typed D),
                                         rdt_audience = audience, rdt_scopes = token_scopes B payload,
                                         rdt_expires_at = expires_at \<rparr>,
                                     dp_delegation_mode := Some (mode_value B OnBehalfOfUser),
                                     dp_minted_at := Some now3,
                                     dp_metadata := obj_insert ''delegator'' (JString ''biscuit'')
                                       (dp_metadata payload) \<rparr>)))))))"

section \<open>Reading the block back\<close>

text \<open>The reference reader: code and string literals in turn. In a literal a backslash makes the
  next character stand for itself and a quote without one ends it.\<close>

fun read_literal :: "string \<Rightarrow> (string \<times> string) option" where
  "read_literal [] = None"
| "read_literal [c] = (if c = dquote then Some ([], []) else None)"
| "read_literal (c # d # s) =
     (if c = dquote then Some ([], d # s)
      else if c = backslash then map_option (\<lambda>(l, r). (d # l, r)) (read_literal s)
      else map_option (\<lambda>(l, r). (c # l, r)) (read_literal (d # s)))"

lemma read_literal_shorter: "read_literal s = Some (l, r) \<Longrightarrow> length r < length s"
  by (induction s arbitrary: l rule: read_literal.induct) (fastforce split: if_splits)+

datatype piece = Code string | Literal string | Unclosed

function pieces :: "string \<Rightarrow> piece list" where
  "pieces s =
     (let src = takeWhile (\<lambda>c. c \<noteq> dquote) s; rest = dropWhile (\<lambda>c. c \<noteq> dquote) s in
      case rest of
        [] \<Rightarrow> [Code src]
      | _ # t \<Rightarrow>
          (case read_literal t of
             None \<Rightarrow> [Code src, Unclosed]
           | Some (l, r) \<Rightarrow> Code src # Literal l # pieces r))"
  by pat_completeness auto
termination
proof (relation "measure length", goal_cases)
  case 1
  show ?case by simp
next
  case (2 s src rest c t p l r)
  then have "length r < length t" by (auto dest: read_literal_shorter)
  also have "length t < length s"
    using 2 length_dropWhile_le [of "\<lambda>c. c \<noteq> dquote" s] by (metis Suc_le_eq length_Cons)
  finally show ?case by simp
qed

declare pieces.simps [simp del]

lemma escape_Nil: "escape_datalog_string [] = []"
  by (simp add: escape_datalog_string_def str_replace_def)

lemma escape_Cons:
  "escape_datalog_string (c # s) =
     (if c = backslash then [backslash, backslash] else if c = dquote then [backslash, dquote] else [c])
     @ escape_datalog_string s"
  by (simp add: escape_datalog_string_def str_replace_def)

lemma read_literal_plain:
  "c \<noteq> dquote \<Longrightarrow> c \<noteq> backslash \<Longrightarrow>
     read_literal (c # s) = map_option (\<lambda>(l, r). (c # l, r)) (read_literal s)"
  by (cases s) auto

lemma read_escaped: "read_literal (escape_datalog_string s @ dquote # r) = Some (s, r)"
proof (induction s)
  case Nil
  show ?case by (cases r) (simp_all add: escape_Nil)
next
  case (Cons c s)
  then show ?case by (simp add: escape_Cons read_literal_plain)
qed

lemma pieces_quoted:
  assumes "dquote \<notin> set src"
  shows "pieces (src @ quoted s @ rest) = Code src # Literal s # pieces rest"
proof -
  have "takeWhile (\<lambda>c. c \<noteq> dquote) (src @ dquote # t) = src"
    and "dropWhile (\<lambda>c. c \<noteq> dquote) (src @ dquote # t) = dquote # t" for t
    using assms by (auto simp: takeWhile_append dropWhile_append)
  then show ?thesis
    by (subst pieces.simps) (simp add: quoted_def read_escaped)
qed

lemma pieces_code:
  assumes "dquote \<notin> set src"
  shows "pieces src = [Code src]"
proof -
  have src: "takeWhile (\<lambda>c. c \<noteq> dquote) src = src" "dropWhile (\<lambda>c. c \<noteq> dquote) src = []"
    using assms by (auto simp: takeWhile_eq_all_conv dropWhile_eq_Nil_conv)
  show ?thesis by (subst pieces.simps) (simp only: src Let_def list.case)
qed

lemma digit_unquoted: "k < 10 \<Longrightarrow> char_of (48 + k :: nat) \<noteq> dquote"
proof
  assume "k < 10" "char_of (48 + k) = dquote"
  then have "of_char (char_of (48 + k) :: char) = (of_char dquote :: nat)" by simp
  with \<open>k < 10\<close> show False by simp
qed

lemma show_nat_unquoted: "dquote \<notin> set (show_nat n)"
proof (induction n rule: show_nat.induct)
  case (1 n)
  then show ?case
    using digit_unquoted [of n, THEN not_sym] digit_unquoted [of "n mod 10", THEN not_sym]
    by (subst show_nat.simps) simp
qed

lemma show_int_unquoted: "dquote \<notin> set (show_int i)"
  by (simp add: show_int_def show_nat_unquoted)

lemma pieces_checks:
  assumes "dquote \<notin> set end_src"
  shows "pieces ('');'' @ concat (map (\<lambda>p. ''check if operation('' @ quoted p @ '');'') ps) @ end_src)
    = concat (map (\<lambda>p. [Code '');check if operation('', Literal p]) ps) @ [Code ('');'' @ end_src)]"
proof (induction ps)
  case Nil
  with assms show ?case by (simp add: pieces_code)
next
  case (Cons p ps)
  have "pieces ('');check if operation('' @ quoted p @ rest) = Code '');check if operation('' # Literal p # pieces rest" for rest
    by (rule pieces_quoted) simp
  from this [of "'');'' @ concat (map (\<lambda>p. ''check if operation('' @ quoted p @ '');'') ps) @ end_src"] Cons
  show ?case by simp
qed

text \<open>C23: No value of a request can break out of its literal. Read back, the Datalog source of a
  delegation block is its fixed code with the target name, the audience and each permission as one
  literal each, character for character, and the expiry as a plain number; so whatever characters
  those values hold, the block states exactly the two facts, one check per permission and the time
  check.\<close>

theorem block_source_reads_back:
  "pieces (block_source payload audience t) =
     [Code ''delegated_to('', Literal (dp_target_name payload), Code '');audience('', Literal audience]
     @ concat (map (\<lambda>perm. [Code '');check if operation('', Literal perm]) (dp_required_permissions payload))
     @ [Code ('');check if time($t), $t <= '' @ show_int t @ '';'')]"
proof -
  let ?tail = "''check if time($t), $t <= '' @ show_int t @ '';''"
  let ?checks = "concat (map (\<lambda>p. ''check if operation('' @ quoted p @ '');'') (dp_required_permissions payload))"
  have end_ok: "dquote \<notin> set ?tail" by (simp add: show_int_unquoted)
  have "pieces (block_source payload audience t) =
      Code ''delegated_to('' # Literal (dp_target_name payload) #
        pieces ('');audience('' @ quoted audience @ '');'' @ ?checks @ ?tail)"
    using pieces_quoted [of "''delegated_to(''" "dp_target_name payload"
        "'');audience('' @ quoted audience @ '');'' @ ?checks @ ?tail"]
    by (simp add: block_source_def)
  also have "pieces ('');audience('' @ quoted audience @ '');'' @ ?checks @ ?tail) =
      Code '');audience('' # Literal audience # pieces ('');'' @ ?checks @ ?tail)"
    by (rule pieces_quoted) simp
  finally show ?thesis by (simp only: pieces_checks [OF end_ok]) simp
qed

section \<open>The root key\<close>

lemma utf8_error_None: "utf8_error i s = None \<longleftrightarrow> utf8_valid s"
  by (induction i s rule: utf8_error.induct) (simp_all add: Let_def)

lemma from_utf8_Inr [simp]: "from_utf8 s = Inr t \<longleftrightarrow> utf8_valid s \<and> t = s"
  using utf8_error_None [of 0 s] by (auto simp: from_utf8_def split: option.splits)

lemma resolved_key:
  assumes "resolve_key B source = Inr k"
  shows "\<exists>bytes. length bytes = 32 \<and> key_from_bytes B bytes = Inr k \<and>
    (case source of
       Hex h \<Rightarrow> hex_decode B (trim h) = Inr bytes
     | Bytes b \<Rightarrow> b = bytes
     | File path \<Rightarrow> (\<exists>raw. read_path B path = Inr raw \<and>
         (if length raw = 32 then bytes = raw else utf8_valid raw \<and> hex_decode B (trim raw) = Inr bytes)))"
  using assms by (cases source) (auto simp: resolve_key_def bytes_to_public_key_def split: if_splits)

text \<open>A delegator that was built verifies against a key of exactly 32 bytes: the bytes given inline,
  those the hex text denotes, or those of the file, taken raw when it holds 32 bytes and otherwise
  decoded as hex from valid UTF-8.\<close>

theorem root_key_of_32_bytes:
  assumes "new_delegator B name config = Inr D"
  shows "\<exists>bytes. length bytes = 32 \<and> key_from_bytes B bytes = Inr (bd_root_public_key D) \<and>
    (case root_public_key_source (bd_typed D) of
       Hex h \<Rightarrow> hex_decode B (trim h) = Inr bytes
     | Bytes b \<Rightarrow> b = bytes
     | File path \<Rightarrow> (\<exists>raw. read_path B path = Inr raw \<and>
         (if length raw = 32 then bytes = raw else utf8_valid raw \<and> hex_decode B (trim raw) = Inr bytes)))"
proof -
  from assms have "resolve_key B (root_public_key_source (bd_typed D)) = Inr (bd_root_public_key D)"
    by (auto simp: new_delegator_def Let_def)
  then show ?thesis by (rule resolved_key)
qed

section \<open>What a delegation grants\<close>

lemma push_missing_set: "set (push_missing s caps) = set s \<union> set caps"
  by (induction s caps rule: push_missing.induct) auto

lemma push_missing_prefix: "prefix s (push_missing s caps)"
  by (induction s caps rule: push_missing.induct) (auto dest: append_prefixD)

lemma effective_ttl_le:
  "effective_ttl_seconds B D payload \<le> default_ttl_seconds (bd_typed D)"
  "Option.bind (dp_route_attenuation payload) (attenuation_ttl B) = Some hint \<Longrightarrow>
     effective_ttl_seconds B D payload \<le> hint"
  by (auto simp: effective_ttl_seconds_def split: option.splits)

lemma sint_le_uint: "sint (w :: 64 word) \<le> uint w"
proof -
  have "- (2 ^ 63) \<le> uint w" by (rule order.trans [OF _ uint_ge_0]) simp
  then show ?thesis by (simp add: sint_uint signed_take_bit_int_less_eq_self_iff)
qed

text \<open>How long a delegation may last: the configured default, or the route's hint when that is
  shorter.\<close>

definition ttl_bound ::
  "('k, 'b, 'd, 'o) biscuit_lib \<Rightarrow> 'k BiscuitDelegator \<Rightarrow> ('o, 'z) DelegationPayload_scheme \<Rightarrow> int" where
  "ttl_bound B D payload =
     (case Option.bind (dp_route_attenuation payload) (attenuation_ttl B) of
        Some hint \<Rightarrow> min (uint hint) (uint (default_ttl_seconds (bd_typed D)))
      | None \<Rightarrow> uint (default_ttl_seconds (bd_typed D)))"

lemma ttl_within: "sint (effective_ttl_seconds B D payload) \<le> ttl_bound B D payload"
proof -
  have "uint (effective_ttl_seconds B D payload) = ttl_bound B D payload"
    by (auto simp: effective_ttl_seconds_def ttl_bound_def min_def word_le_def split: option.splits)
  with sint_le_uint show ?thesis by metis
qed

lemma token_scopes_set:
  "set (token_scopes B payload) = set (dp_required_permissions payload) \<union>
     (case dp_route_attenuation payload of None \<Rightarrow> {} | Some att \<Rightarrow> set (attenuation_capabilities B att))"
  by (auto simp: token_scopes_def push_missing_set split: option.splits)

definition request_denied ::
  "('k, 'b, 'd, 'o) biscuit_lib \<Rightarrow> 'k BiscuitDelegator \<Rightarrow> 'o FullDelegationPayload \<Rightarrow> string option" where
  "request_denied B D payload =
     (if dp_bearer_token payload = [] \<or> dp_target_audience payload \<in> {None, Some []}
      then Some ''delegation.bad_request''
      else case from_base64 B (dp_bearer_token payload) (bd_root_public_key D) of
             Inl _ \<Rightarrow> Some ''delegation.token_invalid'' | Inr _ \<Rightarrow> None)"

text \<open>C24: The handler delegates only from a verified biscuit and never widens it. A request without
  bearer token or audience, or whose biscuit does not verify under the root key, is denied with the
  code of that case; any later failure is denied as a failed attenuation, unless a sum of times is
  out of range. Otherwise the payload keeps every input, and its token is the verified biscuit with
  one appended block for exactly this target, audience and permissions; it names the requested
  audience and the permissions together with the route's capabilities, and neither the block nor the
  token outlasts the route's hint or the configured default.\<close>

theorem delegation_attenuates:
  assumes "time_law E" "now1 \<le> now2"
  shows "case handle E B D now1 now2 now3 payload of
      Panicked \<Rightarrow> request_denied B D payload = None \<and>
        (\<exists>now \<in> {now1, now2}. add_secs E now (sint (effective_ttl_seconds B D payload)) = None)
    | Denied v \<Rightarrow> pv_code v = (case request_denied B D payload of Some c \<Rightarrow> c
                                  | None \<Rightarrow> ''delegation.attenuation_failed'')
    | Modified q \<Rightarrow> request_denied B D payload = None \<and>
        q\<lparr> dp_delegated_token := dp_delegated_token payload, dp_delegation_mode := dp_delegation_mode payload,
           dp_minted_at := dp_minted_at payload, dp_metadata := dp_metadata payload \<rparr> = payload \<and>
        (\<exists>t biscuit block attenuated until.
           dp_delegated_token q = Some t \<and>
           from_base64 B (dp_bearer_token payload) (bd_root_public_key D) = Inr biscuit \<and>
           block_code B (block_source (DelegationPayload.truncate payload) (rdt_audience t) until) = Inr block \<and>
           append_block B biscuit block = Inr attenuated \<and> to_base64 B attenuated = Inr (rdt_token t) \<and>
           dp_target_audience payload = Some (rdt_audience t) \<and>
           set (rdt_scopes t) = set (dp_required_permissions payload) \<union>
             (case dp_route_attenuation payload of None \<Rightarrow> {} | Some a \<Rightarrow> set (attenuation_capabilities B a)) \<and>
           until * 10 ^ 9 \<le> rdt_expires_at t \<and>
           rdt_expires_at t \<le> now2 + ttl_bound B D payload * 10 ^ 9)"
proof -
  let ?ttl = "sint (effective_ttl_seconds B D payload)"
  have bound: "t' \<le> now2 + ttl_bound B D payload * 10 ^ 9" if "add_secs E now2 ?ttl = Some t'" for t'
  proof -
    from that assms(1) have "t' = now2 + ?ttl * 10 ^ 9" by (simp add: time_law_def)
    with ttl_within [of B D payload] show ?thesis by simp
  qed
  have block: "t div 10 ^ 9 * 10 ^ 9 \<le> t'"
    if "add_secs E now1 ?ttl = Some t" "add_secs E now2 ?ttl = Some t'" for t t'
  proof -
    from that assms(1) have "t = now1 + ?ttl * 10 ^ 9" "t' = now2 + ?ttl * 10 ^ 9"
      by (simp_all add: time_law_def)
    with assms(2) have "t \<le> t'" by simp
    moreover have "t div 10 ^ 9 * 10 ^ 9 \<le> t" by (simp add: minus_mod_eq_div_mult [symmetric])
    ultimately show ?thesis by simp
  qed
  show ?thesis
    unfolding handle_def Let_def request_denied_def deny_with_def
    by (auto simp: new_violation_def token_scopes_set split: sum.splits option.splits
        intro!: bound [simplified] block [simplified] exI)
qed

lemma sint_of_big:
  assumes "2 ^ 63 \<le> (w :: 64 word)"
  shows "sint w < 0"
proof -
  from assms have "2 ^ 63 \<le> uint w" by (simp add: word_le_def)
  moreover have "uint w < 2 ^ 64" using uint_lt2p [of w] by simp
  ultimately have "uint w = 2 ^ 63 + (uint w - 2 ^ 63)" "0 \<le> uint w - 2 ^ 63" "uint w - 2 ^ 63 < 2 ^ 63"
    by simp_all
  then have "uint w div 2 ^ 63 = 1" by (metis div_add_self1 div_pos_pos_trivial add_0 power_not_zero zero_neq_numeral)
  then show ?thesis by (simp add: sint_uint signed_take_bit_negative_iff bit_iff_odd)
qed

text \<open>A configured lifetime that does not fit a signed 64-bit integer wraps to a negative one: when a
  token is minted at all it has expired before it was minted.\<close>

theorem huge_ttl_mints_expired_token:
  assumes "time_law E" "2 ^ 63 \<le> default_ttl_seconds (bd_typed D)"
    and "Option.bind (dp_route_attenuation payload) (attenuation_ttl B) = None"
    and "handle E B D now1 now2 now3 payload = Modified q"
  shows "\<exists>t. dp_delegated_token q = Some t \<and> rdt_expires_at t < now2"
proof -
  from assms(3) have ttl: "effective_ttl_seconds B D payload = default_ttl_seconds (bd_typed D)"
    by (simp add: effective_ttl_seconds_def)
  have "sint (default_ttl_seconds (bd_typed D)) < 0"
    using assms(2) by (rule sint_of_big)
  then have "now2 + sint (effective_ttl_seconds B D payload) * 10 ^ 9 < now2"
    by (simp add: ttl)
  moreover have "\<exists>t. dp_delegated_token q = Some t \<and>
      add_secs E now2 (sint (effective_ttl_seconds B D payload)) = Some (rdt_expires_at t)"
    using assms(4)
    by (auto simp: handle_def Let_def deny_with_def split: if_splits option.splits sum.splits)
  ultimately show ?thesis using assms(1) by (metis time_law_def)
qed

section \<open>Witnesses\<close>

definition sample_biscuit :: "(string, string list, string, json) biscuit_lib" where
  "sample_biscuit =
     \<lparr> read_path = (\<lambda>p. Inl ''absent''), hex_decode = Inr, key_from_bytes = Inr,
       from_base64 = (\<lambda>t k. if prefix k t then Inr [t] else Inl ''bad signature''),
       block_code = Inr, append_block = (\<lambda>b d. Inr (b @ [d])), to_base64 = (\<lambda>b. Inr (concat b)),
       config_error = (\<lambda>_. ''bad config''), attenuation_ttl = (\<lambda>_. Some 60),
       attenuation_capabilities = (\<lambda>_. [''write'']), mode_value = (\<lambda>_. JString ''on_behalf_of_user'') \<rparr>"

definition sample_delegator :: "64 word \<Rightarrow> string BiscuitDelegator" where
  "sample_delegator ttl =
     \<lparr> bd_name = ''d'', bd_typed = \<lparr> root_public_key_source = Bytes ''k'',
         default_outbound_header = ''Authorization'', default_ttl_seconds = ttl \<rparr>,
       bd_root_public_key = ''k'' \<rparr>"

definition sample_delegation :: "json option \<Rightarrow> json FullDelegationPayload" where
  "sample_delegation att =
     \<lparr> dp_target_name = ''a'' @ [dquote] @ '');'', dp_target_type = JNull,
       dp_target_audience = Some ''api'', dp_required_permissions = [''read''],
       dp_trust_domain = None, dp_auth_enforced_by = JNull, dp_route_attenuation = att,
       dp_actor_role = None, dp_actor_token = [], dp_subject = JNull, dp_bearer_token = ''key'',
       dp_delegated_token = None, dp_delegation_mode = None, dp_minted_at = None,
       dp_delegation_update = None, dp_metadata = [] \<rparr>"

lemmas sample_simps = sample_biscuit_def sample_delegator_def sample_delegation_def sample_engine_def

theorem root_key_of_32_bytes_witness:
  "let config = JObject [(''root_public_key'', JObject [(''kind'', JString ''hex''),
         (''hex'', JString (replicate 32 CHR ''k''))])] in
   \<exists>D. new_delegator sample_biscuit ''d'' (Some config) = Inr D \<and>
     (\<exists>bytes. length bytes = 32 \<and> key_from_bytes sample_biscuit bytes = Inr (bd_root_public_key D))"
proof -
  have "trim (replicate 32 CHR ''k'') = replicate 32 CHR ''k''"
    by (rule trim_visible) (simp_all add: visible_def)
  then have "\<exists>D. new_delegator sample_biscuit ''d'' (Some (JObject [(''root_public_key'',
      JObject [(''kind'', JString ''hex''), (''hex'', JString (replicate 32 CHR ''k''))])])) = Inr D"
    by (simp add: new_delegator_def de_biscuit_config_def de_key_source_def de_key_variant_def
        struct_fields_def req_def dflt_def resolve_key_def bytes_to_public_key_def sample_biscuit_def
        map_err_def numeral_eq_Suc)
  then show ?thesis unfolding Let_def using root_key_of_32_bytes by blast
qed

theorem delegation_attenuates_witness:
  "\<exists>q t. handle sample_engine sample_biscuit (sample_delegator 300) 0 5 6 (sample_delegation (Some JNull))
       = Modified q \<and> dp_delegated_token q = Some t \<and> rdt_audience t = ''api'' \<and>
     set (rdt_scopes t) = {''read'', ''write''} \<and> rdt_expires_at t \<le> 5 + 60 * 10 ^ 9"
proof -
  have "\<exists>q. handle sample_engine sample_biscuit (sample_delegator 300) 0 5 6
      (sample_delegation (Some JNull)) = Modified q"
    by (simp add: handle_def Let_def sample_simps effective_ttl_seconds_def min_def)
  then obtain q where q: "handle sample_engine sample_biscuit (sample_delegator 300) 0 5 6
      (sample_delegation (Some JNull)) = Modified q" ..
  have "ttl_bound sample_biscuit (sample_delegator 300) (sample_delegation (Some JNull)) = 60"
    by (simp add: ttl_bound_def sample_simps)
  with delegation_attenuates [of sample_engine 0 5 sample_biscuit "sample_delegator 300"
      "sample_delegation (Some JNull)" 6] q show ?thesis
    by (auto simp: sample_engine_laws) (auto simp: sample_simps)
qed

theorem huge_ttl_mints_expired_token_witness:
  "\<exists>q t. handle sample_engine sample_biscuit (sample_delegator (2 ^ 64 - 1)) 0 5 6 (sample_delegation None)
       = Modified q \<and> dp_delegated_token q = Some t \<and> rdt_expires_at t < 5"
proof -
  have "\<exists>q. handle sample_engine sample_biscuit (sample_delegator (2 ^ 64 - 1)) 0 5 6
      (sample_delegation None) = Modified q"
    by (simp add: handle_def Let_def sample_simps effective_ttl_seconds_def)
  then obtain q where q: "handle sample_engine sample_biscuit (sample_delegator (2 ^ 64 - 1)) 0 5 6
      (sample_delegation None) = Modified q" ..
  from huge_ttl_mints_expired_token [OF sample_engine_laws(4) _ _ q] show ?thesis
    using q by (simp add: sample_delegator_def sample_delegation_def)
qed

end
