(* ===== verification/Ffi.thy ===== *)
theory Ffi
  imports Credential_Payloads "HOL-Library.Char_ord" "HOL-Library.List_Lexorder"
    "HOL-Library.Product_Lexorder"
begin

text \<open>
  The C interface (\<^verbatim>\<open>crates/cpex-ffi/src\<close>: \<^verbatim>\<open>lib.rs\<close>,
  \<^verbatim>\<open>apl.rs\<close>, \<^verbatim>\<open>secrets.rs\<close>, with the parts of
  \<^verbatim>\<open>cpex/src/host.rs\<close> they call): return codes, the shared runtime, the heap of boxes
  and byte buffers behind the handles, and every exported function. A call is a function of the
  process state; its value is absent when the call is undefined behaviour (a dangling or mistyped
  pointer, a buffer released with the wrong length) or aborts the process (a panic nothing
  catches). The policy engine and the MessagePack codec are the record \<open>ffi_env\<close>.
\<close>

unbundle bit_operations_syntax

section \<open>Return codes\<close>

type_synonym c_int = "32 word"

definition RC_OK :: c_int where "RC_OK = 0"
definition RC_INVALID_HANDLE :: c_int where "RC_INVALID_HANDLE = - 1"
definition RC_INVALID_INPUT :: c_int where "RC_INVALID_INPUT = - 2"
definition RC_PARSE_ERROR :: c_int where "RC_PARSE_ERROR = - 3"
definition RC_PIPELINE_ERROR :: c_int where "RC_PIPELINE_ERROR = - 4"
definition RC_SERIALIZE_ERROR :: c_int where "RC_SERIALIZE_ERROR = - 5"
definition RC_TIMEOUT :: c_int where "RC_TIMEOUT = - 6"
definition RC_PANIC :: c_int where "RC_PANIC = - 7"

lemmas rc_defs = RC_OK_def RC_INVALID_HANDLE_def RC_INVALID_INPUT_def RC_PARSE_ERROR_def
  RC_PIPELINE_ERROR_def RC_SERIALIZE_ERROR_def RC_TIMEOUT_def RC_PANIC_def

definition cpex_ffi_abi_version :: "32 word" where
  "cpex_ffi_abi_version = 3"

section \<open>Payloads and results\<close>

text \<open>The erased payloads the boundary tells apart; \<open>'o\<close> is an engine value it only passes
  along.\<close>

datatype 'o ffi_payload =
    GenericPayload json
  | CmfMessage 'o
  | Identity "'o IdentityPayload"
  | OtherPayload 'o

record PluginErrorRecord =
  er_plugin_name :: string
  er_message :: string
  er_code :: "string option"
  er_details :: "json obj"
  er_proto_error_code :: "int option"

record 'o PipelineResult =
  pr_continue_processing :: bool
  pr_violation :: "PluginViolation option"
  pr_errors :: "PluginErrorRecord list"
  pr_metadata :: "json option"
  pr_modified_payload :: "'o ffi_payload option"
  pr_payload_modified :: bool
  pr_modified_extensions :: "'o option"
  pr_context_table :: 'o

record TokenKey = DelegationKey +
  dk_delegator_name :: string

record MintedToken = RawDelegatedToken +
  rdt_outbound_prefix :: string

record FfiDelegatedCredential =
  fc_header :: string
  fc_value :: string
  fc_delegator :: string
  fc_target :: string
  fc_audience :: string
  fc_scopes :: "string list"
  fc_expires_at :: string

record FfiPipelineResult =
  fr_continue_processing :: bool
  fr_violation :: "PluginViolation option"
  fr_errors :: "PluginErrorRecord list"
  fr_metadata :: "json option"
  fr_payload_type :: "8 word"
  fr_modified_payload :: "string option"
  fr_payload_modified :: bool
  fr_modified_extensions :: "string option"
  fr_delegated_credentials :: "FfiDelegatedCredential list"

section \<open>Secret refresh reports\<close>

datatype SecretError =
  SecretConfig string | SecretReference string | SecretNotFound string | SecretMalformed string
  | SecretBackend string | SecretOther string

fun secret_error_kind :: "SecretError \<Rightarrow> string" where
  "secret_error_kind (SecretConfig _) = ''config''"
| "secret_error_kind (SecretReference _) = ''reference''"
| "secret_error_kind (SecretNotFound _) = ''not_found''"
| "secret_error_kind (SecretMalformed _) = ''malformed''"
| "secret_error_kind (SecretBackend _) = ''backend''"
| "secret_error_kind (SecretOther _) = ''other''"

text \<open>The argument of an error is its rendered text.\<close>

fun secret_error_text :: "SecretError \<Rightarrow> string" where
  "secret_error_text (SecretConfig m) = m"
| "secret_error_text (SecretReference m) = m"
| "secret_error_text (SecretNotFound m) = m"
| "secret_error_text (SecretMalformed m) = m"
| "secret_error_text (SecretBackend m) = m"
| "secret_error_text (SecretOther m) = m"

record EngineRefreshFailure =
  ef_secret :: string
  ef_provider :: string
  ef_source :: SecretError

record RefreshReport =
  rep_updated :: "string list"
  rep_unchanged :: nat
  rep_failed :: "EngineRefreshFailure list"

record RefreshFailure =
  rf_secret :: string
  rf_provider :: string
  rf_kind :: string
  rf_message :: string

record RefreshSummary =
  rs_updated :: "string list"
  rs_unchanged :: "64 word"
  rs_failed :: "RefreshFailure list"

definition refresh_summary :: "RefreshReport \<Rightarrow> RefreshSummary" where
  "refresh_summary report =
     \<lparr> rs_updated = rep_updated report, rs_unchanged = of_nat (rep_unchanged report),
       rs_failed = map (\<lambda>failure. \<lparr> rf_secret = ef_secret failure, rf_provider = ef_provider failure,
          rf_kind = secret_error_kind (ef_source failure),
          rf_message = secret_error_text (ef_source failure) \<rparr>) (rep_failed report) \<rparr>"

section \<open>The environment\<close>

text \<open>A call that may panic, and one that runs under the wall clock.\<close>

datatype 'a unwinding = Returns 'a | Unwinds
datatype 'a timed = InTime 'a | TimedOut

record ('e, 'o) ffi_env =
  worker_threads_var :: "string option"
  runtime_builds :: "nat option \<Rightarrow> bool unwinding"
  alloc_gives :: "nat \<Rightarrow> nat \<Rightarrow> bool"
  new_engine :: 'e
  parse_config :: "string \<Rightarrow> (string + unit) unwinding"
  load_config_yaml :: "string \<Rightarrow> 'e \<Rightarrow> (string + unit) unwinding \<times> 'e"
  initialize_engine :: "'e \<Rightarrow> (string + unit) timed unwinding \<times> 'e"
  shutdown_engine :: "'e \<Rightarrow> unit timed unwinding \<times> 'e"
  has_hooks_for :: "'e \<Rightarrow> string \<Rightarrow> bool"
  plugin_count :: "'e \<Rightarrow> nat"
  is_initialized :: "'e \<Rightarrow> bool"
  plugin_names :: "'e \<Rightarrow> string list"
  invoke_by_name :: "string \<Rightarrow> 'o ffi_payload \<Rightarrow> 'o \<Rightarrow> 'o option \<Rightarrow> 'e
    \<Rightarrow> ('o PipelineResult \<times> 'o) timed unwinding \<times> 'e"
  wait_for_background_tasks :: "'o \<Rightarrow> PluginErrorRecord list timed unwinding"
  install_builtins :: "'e \<Rightarrow> unit unwinding \<times> 'e"
  set_http_transport :: "bool \<Rightarrow> 'e \<Rightarrow> 'e"
  set_secret_providers :: "bool \<Rightarrow> 'e \<Rightarrow> 'e"
  refresh_secrets :: "'e \<Rightarrow> RefreshReport timed unwinding \<times> 'e"
  secrets_last_success :: "'e \<Rightarrow> string \<Rightarrow> int option"
  default_extensions :: 'o
  identity_of_result :: "'o PipelineResult \<Rightarrow> 'o option"
  apply_to_extensions :: "'o \<Rightarrow> 'o \<Rightarrow> 'o"
  raw_delegated_tokens :: "'o \<Rightarrow> (TokenKey \<times> MintedToken) list option"
  to_rfc3339 :: "int \<Rightarrow> string"
  mp_de_json :: "string \<Rightarrow> string + json"
  mp_de_message :: "string \<Rightarrow> string + 'o"
  mp_de_identity :: "string \<Rightarrow> string + 'o IdentityPayload"
  mp_de_extensions :: "string \<Rightarrow> string + 'o"
  identity_to_value :: "'o IdentityPayload \<Rightarrow> string + json"
  mp_json :: "json \<Rightarrow> string + string"
  mp_message :: "'o \<Rightarrow> string + string"
  mp_extensions :: "'o \<Rightarrow> string + string"
  mp_result :: "FfiPipelineResult \<Rightarrow> string + string"
  mp_names :: "string list \<Rightarrow> string + string"
  mp_records :: "PluginErrorRecord list \<Rightarrow> string + string"
  mp_report :: "RefreshSummary \<Rightarrow> string + string"

section \<open>The process\<close>

datatype InstallState = NotInstalled | Installed | InstallFailed

record 'e CpexEngineInner =
  engine_value :: 'e
  install_state :: InstallState
  expose_delegated_credentials :: bool

datatype ('e, 'o) block =
    EngineBox "'e CpexEngineInner"
  | TableBox 'o
  | TasksBox 'o
  | ByteBuffer string

text \<open>The runtime is set once, with the number of its worker threads or the default; the heap maps
  the addresses of live allocations, and addresses are never reused.\<close>

record ('e, 'o) process =
  runtime :: "nat option option"
  heap :: "nat \<Rightarrow> ('e, 'o) block option"
  next_addr :: nat

type_synonym ptr = "nat option"

definition into_raw :: "('e, 'o) block \<Rightarrow> ('e, 'o) process \<Rightarrow> ptr \<times> ('e, 'o) process" where
  "into_raw b s = (Some (next_addr s), s\<lparr> heap := (heap s)(next_addr s \<mapsto> b), next_addr := Suc (next_addr s) \<rparr>)"

definition release :: "nat \<Rightarrow> ('e, 'o) process \<Rightarrow> ('e, 'o) process" where
  "release a s = s\<lparr> heap := (heap s)(a := None) \<rparr>"

definition new_inner :: "'e \<Rightarrow> 'e CpexEngineInner" where
  "new_inner e = \<lparr> engine_value = e, install_state = NotInstalled, expose_delegated_credentials = False \<rparr>"

text \<open>\<^verbatim>\<open>handle.as_ref()\<close>: absent for NULL, undefined for a pointer that is no live
  engine.\<close>

definition engine_ref :: "ptr \<Rightarrow> ('e, 'o) process \<Rightarrow> 'e CpexEngineInner option option" where
  "engine_ref h s =
     (case h of None \<Rightarrow> Some None
      | Some a \<Rightarrow> (case heap s a of Some (EngineBox i) \<Rightarrow> Some (Some i) | _ \<Rightarrow> None))"

definition take_table :: "ptr \<Rightarrow> ('e, 'o) process \<Rightarrow> ('o option \<times> ('e, 'o) process) option" where
  "take_table p s =
     (case p of None \<Rightarrow> Some (None, s)
      | Some a \<Rightarrow> (case heap s a of Some (TableBox t) \<Rightarrow> Some (Some t, release a s) | _ \<Rightarrow> None))"

definition take_tasks :: "ptr \<Rightarrow> ('e, 'o) process \<Rightarrow> ('o option \<times> ('e, 'o) process) option" where
  "take_tasks p s =
     (case p of None \<Rightarrow> Some (None, s)
      | Some a \<Rightarrow> (case heap s a of Some (TasksBox t) \<Rightarrow> Some (Some t, release a s) | _ \<Rightarrow> None))"

text \<open>The engine behind the handle works in place.\<close>

definition put_engine :: "nat \<Rightarrow> 'e CpexEngineInner \<Rightarrow> ('e, 'o) process \<Rightarrow> ('e, 'o) process" where
  "put_engine a i s = s\<lparr> heap := (heap s)(a \<mapsto> EngineBox i) \<rparr>"

definition on_engine ::
  "ptr \<Rightarrow> ('e \<Rightarrow> 'r \<times> 'e) \<Rightarrow> ('e, 'o) process \<Rightarrow> 'r \<Rightarrow> 'r \<times> ('e, 'o) process" where
  "on_engine h f s d =
     (case h of None \<Rightarrow> (d, s)
      | Some a \<Rightarrow> (case heap s a of
          Some (EngineBox i) \<Rightarrow> (case f (engine_value i) of (r, e) \<Rightarrow>
            (r, put_engine a (i\<lparr> engine_value := e \<rparr>) s))
        | _ \<Rightarrow> (d, s)))"

section \<open>The shared runtime\<close>

text \<open>\<^verbatim>\<open>str::parse::<usize>\<close> on a 64-bit target.\<close>

definition digit_value :: "char \<Rightarrow> nat option" where
  "digit_value c = (let n = of_char c in if 48 \<le> n \<and> n \<le> 57 then Some (n - 48) else None)"

fun parse_digits :: "nat \<Rightarrow> string \<Rightarrow> nat option" where
  "parse_digits acc [] = Some acc"
| "parse_digits acc (c # s) =
     (case digit_value c of None \<Rightarrow> None
      | Some d \<Rightarrow> if acc * 10 + d < 2 ^ 64 then parse_digits (acc * 10 + d) s else None)"

definition parse_usize :: "string \<Rightarrow> nat option" where
  "parse_usize s =
     (let digits = (case s of c # r \<Rightarrow> if c = CHR ''+'' then r else s | [] \<Rightarrow> []) in
      if digits = [] then None else parse_digits 0 digits)"

definition parse_worker_threads :: "string \<Rightarrow> nat option" where
  "parse_worker_threads raw =
     (case parse_usize raw of Some n \<Rightarrow> if n > 0 then Some n else None | None \<Rightarrow> None)"

definition worker_threads_from_env :: "('e, 'o) ffi_env \<Rightarrow> nat option" where
  "worker_threads_from_env E = Option.bind (worker_threads_var E) parse_worker_threads"

text \<open>Absent: building the runtime panicked.\<close>

definition shared_runtime :: "('e, 'o) ffi_env \<Rightarrow> ('e, 'o) process \<Rightarrow> ('e, 'o) process option" where
  "shared_runtime E s =
     (case runtime s of
        Some _ \<Rightarrow> Some s
      | None \<Rightarrow> if runtime_builds E (worker_threads_from_env E) = Returns True
                then Some (s\<lparr> runtime := Some (worker_threads_from_env E) \<rparr>) else None)"

text \<open>A build that fails is an error code; one that panics, a worker thread that cannot be spawned, is not
  caught and aborts the process.\<close>

definition cpex_configure_runtime ::
  "('e, 'o) ffi_env \<Rightarrow> c_int \<Rightarrow> ('e, 'o) process \<Rightarrow> (c_int \<times> ('e, 'o) process) option" where
  "cpex_configure_runtime E worker_threads s =
     (if sint worker_threads \<le> 0 then Some (RC_INVALID_INPUT, s)
      else case runtime_builds E (Some (unat worker_threads)) of
        Unwinds \<Rightarrow> None
      | Returns False \<Rightarrow> Some (RC_PIPELINE_ERROR, s)
      | Returns True \<Rightarrow> Some (case runtime s of
            None \<Rightarrow> (RC_OK, s\<lparr> runtime := Some (Some (unat worker_threads)) \<rparr>)
          | Some _ \<Rightarrow> (RC_INVALID_INPUT, s)))"

datatype 'a SafeRun = SafeOk 'a | Timeout | Panicked

fun safe_rc :: "'a SafeRun \<Rightarrow> c_int" where
  "safe_rc (SafeOk _) = RC_OK"
| "safe_rc Timeout = RC_TIMEOUT"
| "safe_rc Panicked = RC_PANIC"

definition run_safely ::
  "('e, 'o) ffi_env \<Rightarrow> (('e, 'o) process \<Rightarrow> 'a timed unwinding \<times> ('e, 'o) process)
     \<Rightarrow> ('e, 'o) process \<Rightarrow> 'a SafeRun \<times> ('e, 'o) process" where
  "run_safely E fut s =
     (case shared_runtime E s of
        None \<Rightarrow> (Panicked, s)
      | Some s \<Rightarrow>
          (case fut s of (outcome, s) \<Rightarrow>
             (case outcome of
                Returns (InTime v) \<Rightarrow> (SafeOk v, s)
              | Returns TimedOut \<Rightarrow> (Timeout, s)
              | Unwinds \<Rightarrow> (Panicked, s))))"

section \<open>Buffers\<close>

text \<open>An input buffer is a pointer, NULL or the readable bytes behind it, with its length.\<close>

type_synonym c_buf = "string option \<times> c_int"

definition c_bytes_to_slice :: "c_buf \<Rightarrow> string option" where
  "c_bytes_to_slice b =
     (case b of (p, len) \<Rightarrow>
        if p = None \<or> sint len \<le> 0 then None else map_option (take (unat len)) p)"

definition c_str_to_slice :: "c_buf \<Rightarrow> string option" where
  "c_str_to_slice b =
     (case c_bytes_to_slice b of None \<Rightarrow> None
      | Some bytes \<Rightarrow> if utf8_valid bytes then Some bytes else None)"

definition alloc_bytes ::
  "('e, 'o) ffi_env \<Rightarrow> string \<Rightarrow> ('e, 'o) process \<Rightarrow> (ptr \<times> c_int) \<times> ('e, 'o) process" where
  "alloc_bytes E data s =
     (if length data = 0 then ((None, 0), s)
      else if length data > 2 ^ 31 - 1 then ((None, 0), s)
      else if \<not> alloc_gives E (next_addr s) (length data) then ((None, 0), s)
      else case into_raw (ByteBuffer data) s of (p, s) \<Rightarrow> ((p, of_nat (length data)), s))"

definition cpex_free_bytes :: "ptr \<Rightarrow> c_int \<Rightarrow> ('e, 'o) process \<Rightarrow> ('e, 'o) process option" where
  "cpex_free_bytes p len s =
     (case p of None \<Rightarrow> Some s
      | Some a \<Rightarrow>
          if sint len \<le> 0 then Some s
          else case heap s a of
            Some (ByteBuffer d) \<Rightarrow> if length d = unat len then Some (release a s) else None
          | _ \<Rightarrow> None)"

definition cpex_free_background :: "ptr \<Rightarrow> ('e, 'o) process \<Rightarrow> ('e, 'o) process option" where
  "cpex_free_background bg_handle s = map_option snd (take_tasks bg_handle s)"

definition cpex_free_context_table :: "ptr \<Rightarrow> ('e, 'o) process \<Rightarrow> ('e, 'o) process option" where
  "cpex_free_context_table ct s = map_option snd (take_table ct s)"

section \<open>Engines\<close>

text \<open>The new handle, or NULL. A panic while the configuration loads is not caught here.\<close>

definition cpex_engine_new ::
  "('e, 'o) ffi_env \<Rightarrow> c_buf \<Rightarrow> ('e, 'o) process \<Rightarrow> (ptr \<times> ('e, 'o) process) option" where
  "cpex_engine_new E config_yaml s =
     (case c_str_to_slice config_yaml of
        None \<Rightarrow> Some (None, s)
      | Some yaml \<Rightarrow>
          Option.bind (shared_runtime E s) (\<lambda>s.
            case load_config_yaml E yaml (new_engine E) of
              (Returns (Inl _), _) \<Rightarrow> Some (None, s)
            | (Returns (Inr _), e) \<Rightarrow> Some (into_raw (EngineBox (new_inner e)) s)
            | (Unwinds, _) \<Rightarrow> None))"

definition cpex_engine_new_default ::
  "('e, 'o) ffi_env \<Rightarrow> ('e, 'o) process \<Rightarrow> (ptr \<times> ('e, 'o) process) option" where
  "cpex_engine_new_default E s =
     Option.bind (shared_runtime E s) (\<lambda>s. Some (into_raw (EngineBox (new_inner (new_engine E))) s))"

definition cpex_load_config ::
  "('e, 'o) ffi_env \<Rightarrow> ptr \<Rightarrow> c_buf \<Rightarrow> ('e, 'o) process \<Rightarrow> (c_int \<times> ('e, 'o) process) option" where
  "cpex_load_config E handle config_yaml s =
     Option.bind (engine_ref handle s) (\<lambda>inner.
       if inner = None then Some (RC_INVALID_HANDLE, s)
       else case c_str_to_slice config_yaml of
         None \<Rightarrow> Some (RC_INVALID_INPUT, s)
       | Some yaml \<Rightarrow>
           (case parse_config E yaml of
              Unwinds \<Rightarrow> None
            | Returns (Inl _) \<Rightarrow> Some (RC_PARSE_ERROR, s)
            | Returns (Inr _) \<Rightarrow>
                (case on_engine handle (load_config_yaml E yaml) s Unwinds of
                   (Returns (Inr _), s) \<Rightarrow> Some (RC_OK, s)
                 | (Returns (Inl _), s) \<Rightarrow> Some (RC_PIPELINE_ERROR, s)
                 | (Unwinds, s) \<Rightarrow> Some (RC_PANIC, s))))"

definition cpex_initialize ::
  "('e, 'o) ffi_env \<Rightarrow> ptr \<Rightarrow> ('e, 'o) process \<Rightarrow> (c_int \<times> ('e, 'o) process) option" where
  "cpex_initialize E handle s =
     Option.bind (engine_ref handle s) (\<lambda>inner.
       if inner = None then Some (RC_INVALID_HANDLE, s)
       else case run_safely E (\<lambda>s. on_engine handle (initialize_engine E) s Unwinds) s of
         (SafeOk (Inr _), s) \<Rightarrow> Some (RC_OK, s)
       | (SafeOk (Inl _), s) \<Rightarrow> Some (RC_PIPELINE_ERROR, s)
       | (other, s) \<Rightarrow> Some (safe_rc other, s))"

definition cpex_shutdown ::
  "('e, 'o) ffi_env \<Rightarrow> ptr \<Rightarrow> ('e, 'o) process \<Rightarrow> ('e, 'o) process option" where
  "cpex_shutdown E handle s =
     (case handle of None \<Rightarrow> Some s
      | Some a \<Rightarrow>
          Option.bind (engine_ref handle s) (\<lambda>_.
            Some (release a (snd (run_safely E (\<lambda>s. on_engine handle (shutdown_engine E) s Unwinds) s)))))"

definition cpex_has_hooks_for ::
  "('e, 'o) ffi_env \<Rightarrow> ptr \<Rightarrow> c_buf \<Rightarrow> ('e, 'o) process \<Rightarrow> c_int option" where
  "cpex_has_hooks_for E handle hook_name s =
     Option.bind (engine_ref handle s) (\<lambda>inner. Some
       (case (inner, c_str_to_slice hook_name) of
          (Some i, Some name) \<Rightarrow> if has_hooks_for E (engine_value i) name then 1 else 0
        | _ \<Rightarrow> 0))"

definition cpex_plugin_count :: "('e, 'o) ffi_env \<Rightarrow> ptr \<Rightarrow> ('e, 'o) process \<Rightarrow> c_int option" where
  "cpex_plugin_count E handle s =
     Option.bind (engine_ref handle s) (\<lambda>inner. Some
       (case inner of Some i \<Rightarrow> of_nat (plugin_count E (engine_value i)) | None \<Rightarrow> 0))"

definition cpex_is_initialized :: "('e, 'o) ffi_env \<Rightarrow> ptr \<Rightarrow> ('e, 'o) process \<Rightarrow> c_int option" where
  "cpex_is_initialized E handle s =
     Option.bind (engine_ref handle s) (\<lambda>inner. Some
       (case inner of Some i \<Rightarrow> if is_initialized E (engine_value i) then 1 else 0 | None \<Rightarrow> 0))"

text \<open>A buffer out parameter is the pair of pointer and length the caller reads afterwards; a path
  that does not write it returns what was there.\<close>

type_synonym out_buf = "ptr \<times> c_int"

definition cpex_plugin_names ::
  "('e, 'o) ffi_env \<Rightarrow> ptr \<Rightarrow> out_buf \<Rightarrow> ('e, 'o) process \<Rightarrow> (c_int \<times> out_buf \<times> ('e, 'o) process) option" where
  "cpex_plugin_names E handle out s =
     Option.bind (engine_ref handle s) (\<lambda>inner.
       case inner of
         None \<Rightarrow> Some (RC_INVALID_HANDLE, out, s)
       | Some i \<Rightarrow>
           (case mp_names E (plugin_names E (engine_value i)) of
              Inl _ \<Rightarrow> Some (RC_SERIALIZE_ERROR, out, s)
            | Inr bytes \<Rightarrow> (case alloc_bytes E bytes s of (b, s) \<Rightarrow> Some (RC_OK, b, s))))"

section \<open>Installing the defaults\<close>

definition CPEX_APL_ALLOW_PRIVATE_DESTINATIONS :: "32 word" where
  "CPEX_APL_ALLOW_PRIVATE_DESTINATIONS = 1"

definition CPEX_APL_EXPOSE_DELEGATED_CREDENTIALS :: "32 word" where
  "CPEX_APL_EXPOSE_DELEGATED_CREDENTIALS = 2"

definition CPEX_APL_KNOWN_FLAGS :: "32 word" where
  "CPEX_APL_KNOWN_FLAGS = CPEX_APL_ALLOW_PRIVATE_DESTINATIONS OR CPEX_APL_EXPOSE_DELEGATED_CREDENTIALS"

text \<open>The transport is told apart by whether it may reach private destinations; the secret
  providers use the same one.\<close>

definition install_host_defaults :: "('e, 'o) ffi_env \<Rightarrow> bool \<Rightarrow> 'e \<Rightarrow> unit unwinding \<times> 'e" where
  "install_host_defaults E allow_private e =
     (case install_builtins E e of
        (Unwinds, e) \<Rightarrow> (Unwinds, e)
      | (Returns _, e) \<Rightarrow>
          (Returns (), set_secret_providers E allow_private (set_http_transport E allow_private e)))"

definition cpex_apl_install ::
  "('e, 'o) ffi_env \<Rightarrow> ptr \<Rightarrow> 32 word \<Rightarrow> ('e, 'o) process \<Rightarrow> (c_int \<times> ('e, 'o) process) option" where
  "cpex_apl_install E handle flags s =
     Option.bind (engine_ref handle s) (\<lambda>inner.
       case (handle, inner) of
         (Some a, Some i) \<Rightarrow>
           if flags AND NOT CPEX_APL_KNOWN_FLAGS \<noteq> 0 then Some (RC_INVALID_INPUT, s)
           else (case install_state i of
             Installed \<Rightarrow> Some (RC_OK, s)
           | InstallFailed \<Rightarrow> Some (RC_PANIC, s)
           | NotInstalled \<Rightarrow>
               (case install_host_defaults E (flags AND CPEX_APL_ALLOW_PRIVATE_DESTINATIONS \<noteq> 0)
                       (engine_value i) of
                  (Returns _, e) \<Rightarrow> Some (RC_OK, put_engine a
                    (i\<lparr> engine_value := e, install_state := Installed,
                       expose_delegated_credentials :=
                         flags AND CPEX_APL_EXPOSE_DELEGATED_CREDENTIALS \<noteq> 0 \<rparr>) s)
                | (Unwinds, e) \<Rightarrow> Some (RC_PANIC, put_engine a
                    (i\<lparr> engine_value := e, install_state := InstallFailed \<rparr>) s)))
       | _ \<Rightarrow> Some (RC_INVALID_HANDLE, s))"

section \<open>Payloads across the boundary\<close>

definition PAYLOAD_GENERIC :: "8 word" where "PAYLOAD_GENERIC = 0"
definition PAYLOAD_CMF_MESSAGE :: "8 word" where "PAYLOAD_CMF_MESSAGE = 1"
definition PAYLOAD_IDENTITY :: "8 word" where "PAYLOAD_IDENTITY = 2"

definition with_context :: "string \<Rightarrow> string + 'a \<Rightarrow> string + 'a" where
  "with_context c r = (case r of Inl e \<Rightarrow> Inl (c @ e) | Inr x \<Rightarrow> Inr x)"

definition ffi_deserialize_payload ::
  "('e, 'o) ffi_env \<Rightarrow> 8 word \<Rightarrow> string \<Rightarrow> string + 'o ffi_payload" where
  "ffi_deserialize_payload E payload_type bytes =
     (if payload_type = PAYLOAD_GENERIC then
        rbind (with_context ''generic payload deserialize failed: '' (mp_de_json E bytes))
          (\<lambda>v. Inr (GenericPayload v))
      else if payload_type = PAYLOAD_CMF_MESSAGE then
        rbind (with_context ''CMF payload deserialize failed: '' (mp_de_message E bytes))
          (\<lambda>m. Inr (CmfMessage m))
      else if payload_type = PAYLOAD_IDENTITY then
        rbind (with_context ''identity payload deserialize failed: '' (mp_de_identity E bytes))
          (\<lambda>i. Inr (Identity i))
      else Inl (''unknown payload type: '' @ show_nat (unat payload_type)))"

definition ffi_serialize_payload ::
  "('e, 'o) ffi_env \<Rightarrow> 'o ffi_payload \<Rightarrow> string + (8 word \<times> string)" where
  "ffi_serialize_payload E payload =
     (case payload of
        CmfMessage m \<Rightarrow>
          rbind (with_context ''CMF payload serialize failed: '' (mp_message E m))
            (\<lambda>b. Inr (PAYLOAD_CMF_MESSAGE, b))
      | GenericPayload v \<Rightarrow>
          rbind (with_context ''generic payload serialize failed: '' (mp_json E v))
            (\<lambda>b. Inr (PAYLOAD_GENERIC, b))
      | Identity i \<Rightarrow>
          rbind (with_context ''identity payload serialize failed: ''
                   (identity_result_value (identity_to_value E) i)) (\<lambda>v.
          rbind (with_context ''identity payload serialize failed: '' (mp_json E v))
            (\<lambda>b. Inr (PAYLOAD_IDENTITY, b)))
      | OtherPayload _ \<Rightarrow> Inl ''unknown payload type, cannot serialize across FFI'')"

definition reject_removed_hook :: "string \<Rightarrow> c_int + unit" where
  "reject_removed_hook name =
     (case removed_hook_replacement name of Some _ \<Rightarrow> Inl RC_INVALID_INPUT | None \<Rightarrow> Inr ())"

definition reject_resolved_identity :: "'o IdentityPayload \<Rightarrow> c_int + unit" where
  "reject_resolved_identity idp =
     (if resolved_identity_fields idp = [] then Inr () else Inl RC_INVALID_INPUT)"

definition reject_resolved_identity_payload :: "string \<Rightarrow> 'o ffi_payload \<Rightarrow> c_int + unit" where
  "reject_resolved_identity_payload hook_name payload =
     (if hook_name \<noteq> HOOK_IDENTITY_RESOLVE then Inr ()
      else case payload of Identity idp \<Rightarrow> reject_resolved_identity idp | _ \<Rightarrow> Inr ())"

definition host_delegated_credentials ::
  "('e, 'o) ffi_env \<Rightarrow> bool \<Rightarrow> 'o PipelineResult \<Rightarrow> FfiDelegatedCredential list" where
  "host_delegated_credentials E exposed result =
     (if \<not> exposed \<or> \<not> pr_continue_processing result then []
      else case Option.bind (pr_modified_extensions result) (raw_delegated_tokens E) of
        None \<Rightarrow> []
      | Some tokens \<Rightarrow>
          sort_key (\<lambda>c. (fc_target c, fc_audience c, fc_header c))
            (map (\<lambda>(k, t).
               \<lparr> fc_header = rdt_outbound_header t, fc_value = rdt_outbound_prefix t @ rdt_token t,
                 fc_delegator = dk_delegator_name k, fc_target = dk_target_name k,
                 fc_audience = rdt_audience t, fc_scopes = rdt_scopes t,
                 fc_expires_at = to_rfc3339 E (rdt_expires_at t) \<rparr>)
              (filter (\<lambda>(k, t). trim (rdt_token t) \<noteq> []) tokens)))"

section \<open>Invocation\<close>

record outs =
  result_out :: out_buf
  context_table_out :: ptr
  bg_handle_out :: ptr

definition null_outs :: outs where
  "null_outs = \<lparr> result_out = (None, 0), context_table_out = None, bg_handle_out = None \<rparr>"

text \<open>The hook name, the payload and the extensions of a call, or the code it is refused with.\<close>

definition decode_request ::
  "('e, 'o) ffi_env \<Rightarrow> c_buf \<Rightarrow> 8 word \<Rightarrow> c_buf \<Rightarrow> c_buf \<Rightarrow> c_int + (string \<times> 'o ffi_payload \<times> 'o)" where
  "decode_request E hook_name payload_type payload_msgpack extensions_msgpack =
     rbind (ok_or RC_INVALID_INPUT (c_str_to_slice hook_name)) (\<lambda>name.
     rbind (reject_removed_hook name) (\<lambda>_.
     rbind (ok_or RC_INVALID_INPUT (c_bytes_to_slice payload_msgpack)) (\<lambda>payload_bytes.
     rbind (case ffi_deserialize_payload E payload_type payload_bytes of
              Inl _ \<Rightarrow> Inl RC_PARSE_ERROR | Inr p \<Rightarrow> Inr p) (\<lambda>payload.
     rbind (reject_resolved_identity_payload name payload) (\<lambda>_.
     rbind (if sint (snd extensions_msgpack) > 0 then
              rbind (ok_or RC_INVALID_INPUT (c_bytes_to_slice extensions_msgpack)) (\<lambda>ext_bytes.
                case mp_de_extensions E ext_bytes of Inl _ \<Rightarrow> Inl RC_PARSE_ERROR | Inr x \<Rightarrow> Inr x)
            else Inr (default_extensions E)) (\<lambda>extensions.
     Inr (name, payload, extensions)))))))"

text \<open>The record a failed serialization of the modified payload leaves in the result.\<close>

definition ffi_error_record :: "string \<Rightarrow> PluginErrorRecord" where
  "ffi_error_record e =
     \<lparr> er_plugin_name = ''<ffi>'',
       er_message = ''modified payload could not be serialized across FFI: '' @ e,
       er_code = Some ''ffi_serialize_error'', er_details = [], er_proto_error_code = None \<rparr>"

definition ffi_result ::
  "('e, 'o) ffi_env \<Rightarrow> bool \<Rightarrow> 8 word \<Rightarrow> 'o PipelineResult \<Rightarrow> FfiPipelineResult" where
  "ffi_result E exposed payload_type result =
     (let (payload_type', payload_bytes, errors) =
        (case pr_modified_payload result of
           None \<Rightarrow> (payload_type, None, pr_errors result)
         | Some p \<Rightarrow>
             (case ffi_serialize_payload E p of
                Inr (t, b) \<Rightarrow> (t, Some b, pr_errors result)
              | Inl e \<Rightarrow> (payload_type, None, pr_errors result @ [ffi_error_record e]))) in
      \<lparr> fr_continue_processing = pr_continue_processing result, fr_violation = pr_violation result,
        fr_errors = errors, fr_metadata = pr_metadata result, fr_payload_type = payload_type',
        fr_modified_payload = payload_bytes, fr_payload_modified = pr_payload_modified result,
        fr_modified_extensions = Option.bind (pr_modified_extensions result) (\<lambda>x.
          case mp_extensions E x of Inl _ \<Rightarrow> None | Inr b \<Rightarrow> Some b),
        fr_delegated_credentials = host_delegated_credentials E exposed result \<rparr>)"

text \<open>The buffer is allocated first, then the boxes of the context table and of the background
  tasks, if there are any.\<close>

definition finish_pipeline_result ::
  "('e, 'o) ffi_env \<Rightarrow> bool \<Rightarrow> 'o PipelineResult \<Rightarrow> 'o option \<Rightarrow> 8 word \<Rightarrow> ('e, 'o) process
     \<Rightarrow> c_int \<times> outs \<times> ('e, 'o) process" where
  "finish_pipeline_result E exposed result bg payload_type s =
     (case mp_result E (ffi_result E exposed payload_type result) of
        Inl _ \<Rightarrow> (RC_SERIALIZE_ERROR, null_outs, s)
      | Inr result_bytes \<Rightarrow>
          (case alloc_bytes E result_bytes s of (buf, s) \<Rightarrow>
          (case into_raw (TableBox (pr_context_table result)) s of (table, s) \<Rightarrow>
          (case (case bg of None \<Rightarrow> (None, s) | Some b \<Rightarrow> into_raw (TasksBox b) s) of (tasks, s) \<Rightarrow>
             (RC_OK, \<lparr> result_out = buf, context_table_out = table, bg_handle_out = tasks \<rparr>, s)))))"

definition exposes :: "ptr \<Rightarrow> ('e, 'o) process \<Rightarrow> bool" where
  "exposes h s = (case engine_ref h s of Some (Some i) \<Rightarrow> expose_delegated_credentials i | _ \<Rightarrow> False)"

definition cpex_invoke ::
  "('e, 'o) ffi_env \<Rightarrow> ptr \<Rightarrow> c_buf \<Rightarrow> 8 word \<Rightarrow> c_buf \<Rightarrow> c_buf \<Rightarrow> ptr \<Rightarrow> ('e, 'o) process
     \<Rightarrow> (c_int \<times> outs \<times> ('e, 'o) process) option" where
  "cpex_invoke E handle hook_name payload_type payload_msgpack extensions_msgpack context_table s =
     Option.bind (take_table context_table s) (\<lambda>(input_ctx_table, s).
     Option.bind (engine_ref handle s) (\<lambda>inner.
       if inner = None then Some (RC_INVALID_HANDLE, null_outs, s)
       else case decode_request E hook_name payload_type payload_msgpack extensions_msgpack of
         Inl rc \<Rightarrow> Some (rc, null_outs, s)
       | Inr (name, payload, extensions) \<Rightarrow>
           (case run_safely E (\<lambda>s. on_engine handle
                    (invoke_by_name E name payload extensions input_ctx_table) s Unwinds) s of
              (SafeOk (result, bg), s) \<Rightarrow>
                Some (finish_pipeline_result E (exposes handle s) result (Some bg) payload_type s)
            | (other, s) \<Rightarrow> Some (safe_rc other, null_outs, s))))"

text \<open>What the identity phase gives the hook: the extensions to run it with, the result that ends
  the call, or the code it is refused with.\<close>

datatype 'o resolution = Proceed 'o | Denial "'o PipelineResult" | Refuse c_int

definition resolve_identity ::
  "('e, 'o) ffi_env \<Rightarrow> ptr \<Rightarrow> c_buf \<Rightarrow> 'o \<Rightarrow> ('e, 'o) process \<Rightarrow> 'o resolution \<times> ('e, 'o) process" where
  "resolve_identity E handle identity_msgpack base_extensions s =
     (if sint (snd identity_msgpack) > 0 \<and>
         (case engine_ref handle s of
            Some (Some i) \<Rightarrow> has_hooks_for E (engine_value i) HOOK_IDENTITY_RESOLVE | _ \<Rightarrow> False)
      then case c_bytes_to_slice identity_msgpack of
          None \<Rightarrow> (Refuse RC_INVALID_INPUT, s)
        | Some id_bytes \<Rightarrow>
            (case mp_de_identity E id_bytes of
               Inl _ \<Rightarrow> (Refuse RC_PARSE_ERROR, s)
             | Inr id_payload \<Rightarrow>
                 (case reject_resolved_identity id_payload of
                    Inl rc \<Rightarrow> (Refuse rc, s)
                  | Inr _ \<Rightarrow>
                      (case run_safely E (\<lambda>s. on_engine handle
                              (invoke_by_name E HOOK_IDENTITY_RESOLVE (Identity id_payload)
                                 base_extensions None) s Unwinds) s of
                         (SafeOk (id_result, _), s) \<Rightarrow>
                           if \<not> pr_continue_processing id_result then (Denial id_result, s)
                           else (Proceed (case identity_of_result E id_result of
                                   Some resolved \<Rightarrow> apply_to_extensions E resolved base_extensions
                                 | None \<Rightarrow> base_extensions), s)
                       | (other, s) \<Rightarrow> (Refuse (safe_rc other), s))))
      else (Proceed base_extensions, s))"

definition cpex_invoke_resolved ::
  "('e, 'o) ffi_env \<Rightarrow> ptr \<Rightarrow> c_buf \<Rightarrow> c_buf \<Rightarrow> 8 word \<Rightarrow> c_buf \<Rightarrow> c_buf \<Rightarrow> ptr \<Rightarrow> ('e, 'o) process
     \<Rightarrow> (c_int \<times> outs \<times> ('e, 'o) process) option" where
  "cpex_invoke_resolved E handle identity_msgpack hook_name payload_type payload_msgpack
       extensions_msgpack context_table s =
     Option.bind (take_table context_table s) (\<lambda>(input_ctx_table, s).
     Option.bind (engine_ref handle s) (\<lambda>inner.
       if inner = None then Some (RC_INVALID_HANDLE, null_outs, s)
       else case decode_request E hook_name payload_type payload_msgpack extensions_msgpack of
         Inl rc \<Rightarrow> Some (rc, null_outs, s)
       | Inr (name, payload, base_extensions) \<Rightarrow>
           (case resolve_identity E handle identity_msgpack base_extensions s of
              (Refuse rc, s) \<Rightarrow> Some (rc, null_outs, s)
            | (Denial id_result, s) \<Rightarrow>
                Some (finish_pipeline_result E (exposes handle s) id_result None payload_type s)
            | (Proceed merged_extensions, s) \<Rightarrow>
                (case run_safely E (\<lambda>s. on_engine handle
                        (invoke_by_name E name payload merged_extensions input_ctx_table) s Unwinds) s of
                   (SafeOk (result, bg), s) \<Rightarrow>
                     Some (finish_pipeline_result E (exposes handle s) result (Some bg) payload_type s)
                 | (other, s) \<Rightarrow> Some (safe_rc other, null_outs, s)))))"

section \<open>Background tasks\<close>

definition cpex_wait_background ::
  "('e, 'o) ffi_env \<Rightarrow> ptr \<Rightarrow> ptr \<Rightarrow> out_buf \<Rightarrow> ('e, 'o) process
     \<Rightarrow> (c_int \<times> out_buf \<times> ('e, 'o) process) option" where
  "cpex_wait_background E handle bg_handle out s =
     Option.bind (engine_ref handle s) (\<lambda>inner.
     Option.bind (take_tasks bg_handle s) (\<lambda>(bg, s).
       if inner = None then Some (RC_INVALID_HANDLE, out, s)
       else case bg of
         None \<Rightarrow>
           (case mp_records E [] of
              Inl _ \<Rightarrow> Some (RC_SERIALIZE_ERROR, out, s)
            | Inr empty_bytes \<Rightarrow> (case alloc_bytes E empty_bytes s of (b, s) \<Rightarrow> Some (RC_OK, b, s)))
       | Some tasks \<Rightarrow>
           (case run_safely E (\<lambda>s. (wait_for_background_tasks E tasks, s)) s of
              (SafeOk errors, s) \<Rightarrow>
                (case mp_records E errors of
                   Inl _ \<Rightarrow> Some (RC_SERIALIZE_ERROR, out, s)
                 | Inr error_bytes \<Rightarrow> (case alloc_bytes E error_bytes s of (b, s) \<Rightarrow> Some (RC_OK, b, s)))
            | (other, s) \<Rightarrow> Some (safe_rc other, out, s))))"

section \<open>Secrets\<close>

text \<open>The out pointers of these two may be NULL, which is checked.\<close>

definition cpex_refresh_secrets ::
  "('e, 'o) ffi_env \<Rightarrow> ptr \<Rightarrow> out_buf option \<Rightarrow> ('e, 'o) process
     \<Rightarrow> (c_int \<times> out_buf option \<times> ('e, 'o) process) option" where
  "cpex_refresh_secrets E handle out s =
     (if out = None then Some (RC_INVALID_INPUT, out, s)
      else Option.bind (engine_ref handle s) (\<lambda>inner.
        if inner = None then Some (RC_INVALID_HANDLE, Some (None, 0), s)
        else case run_safely E (\<lambda>s. on_engine handle (refresh_secrets E) s Unwinds) s of
          (SafeOk report, s) \<Rightarrow>
            (case mp_report E (refresh_summary report) of
               Inl _ \<Rightarrow> Some (RC_SERIALIZE_ERROR, Some (None, 0), s)
             | Inr bytes \<Rightarrow> (case alloc_bytes E bytes s of (b, s) \<Rightarrow> Some (RC_OK, Some b, s)))
        | (other, s) \<Rightarrow> Some (safe_rc other, Some (None, 0), s)))"

definition cpex_secrets_last_success ::
  "('e, 'o) ffi_env \<Rightarrow> ptr \<Rightarrow> c_buf \<Rightarrow> int option \<Rightarrow> ('e, 'o) process \<Rightarrow> (c_int \<times> int option) option" where
  "cpex_secrets_last_success E handle provider unix_ms_out s =
     (if unix_ms_out = None then Some (RC_INVALID_INPUT, None)
      else Option.bind (engine_ref handle s) (\<lambda>inner.
        case inner of
          None \<Rightarrow> Some (RC_INVALID_HANDLE, Some 0)
        | Some i \<Rightarrow>
            (case c_str_to_slice provider of
               None \<Rightarrow> Some (RC_INVALID_INPUT, Some 0)
             | Some name \<Rightarrow>
                 (case secrets_last_success E (engine_value i) name of
                    Some at \<Rightarrow> Some (RC_OK, Some at) | None \<Rightarrow> Some (RC_OK, Some 0)))))"

end
