(* ===== verification/Ffi_Calls.thy ===== *)
theory Ffi_Calls
  imports Ffi
begin

text \<open>
  The C interface seen by its caller: the calls as a datatype, the contract the documentation puts
  on a caller (every pointer argument is NULL or a handle the caller holds, of the right kind), and
  the runs of a process whose caller keeps it. What the caller holds is tracked by its own
  knowledge alone, from the pointers it was given and the calls it made; the invariant says that
  this is exactly what the heap holds.
\<close>

section \<open>Calls\<close>

datatype kind = KEngine | KTable | KTasks | KBytes nat

fun kind_of :: "('e, 'o) block \<Rightarrow> kind" where
  "kind_of (EngineBox _) = KEngine"
| "kind_of (TableBox _) = KTable"
| "kind_of (TasksBox _) = KTasks"
| "kind_of (ByteBuffer d) = KBytes (length d)"

datatype ffi_call =
    ConfigureRuntime c_int
  | EngineNew c_buf
  | EngineNewDefault
  | LoadConfig ptr c_buf
  | Initialize ptr
  | Shutdown ptr
  | HasHooksFor ptr c_buf
  | PluginCount ptr
  | IsInitialized ptr
  | PluginNames ptr out_buf
  | AplInstall ptr "32 word"
  | Invoke ptr c_buf "8 word" c_buf c_buf ptr
  | InvokeResolved ptr c_buf c_buf "8 word" c_buf c_buf ptr
  | WaitBackground ptr ptr out_buf
  | RefreshSecrets ptr "out_buf option"
  | SecretsLastSuccess ptr c_buf "int option"
  | FreeBytes ptr c_int
  | FreeBackground ptr
  | FreeContextTable ptr

text \<open>The pointers a call hands over, with what the caller knows of them: nothing unless it
  succeeded.\<close>

type_synonym grant = "(nat \<times> kind) list"

definition given :: "kind \<Rightarrow> ptr \<Rightarrow> grant" where
  "given k p = (case p of None \<Rightarrow> [] | Some a \<Rightarrow> [(a, k)])"

definition given_buf :: "out_buf \<Rightarrow> grant" where
  "given_buf b = given (KBytes (unat (snd b))) (fst b)"

definition given_outs :: "outs \<Rightarrow> grant" where
  "given_outs r = given KTasks (bg_handle_out r) @ given KTable (context_table_out r) @ given_buf (result_out r)"

fun perform :: "('e, 'o) ffi_env \<Rightarrow> ffi_call \<Rightarrow> ('e, 'o) process \<Rightarrow> (grant \<times> ('e, 'o) process) option" where
  "perform E (ConfigureRuntime n) s = map_option (\<lambda>(_, s). ([], s)) (cpex_configure_runtime E n s)"
| "perform E (EngineNew y) s = map_option (\<lambda>(p, s). (given KEngine p, s)) (cpex_engine_new E y s)"
| "perform E EngineNewDefault s = map_option (\<lambda>(p, s). (given KEngine p, s)) (cpex_engine_new_default E s)"
| "perform E (LoadConfig h y) s = map_option (\<lambda>(rc, s). ([], s)) (cpex_load_config E h y s)"
| "perform E (Initialize h) s = map_option (\<lambda>(rc, s). ([], s)) (cpex_initialize E h s)"
| "perform E (Shutdown h) s = map_option (\<lambda>s. ([], s)) (cpex_shutdown E h s)"
| "perform E (HasHooksFor h n) s = map_option (\<lambda>rc. ([], s)) (cpex_has_hooks_for E h n s)"
| "perform E (PluginCount h) s = map_option (\<lambda>rc. ([], s)) (cpex_plugin_count E h s)"
| "perform E (IsInitialized h) s = map_option (\<lambda>rc. ([], s)) (cpex_is_initialized E h s)"
| "perform E (PluginNames h b) s =
     map_option (\<lambda>(rc, b, s). (if rc = RC_OK then given_buf b else [], s)) (cpex_plugin_names E h b s)"
| "perform E (AplInstall h f) s = map_option (\<lambda>(rc, s). ([], s)) (cpex_apl_install E h f s)"
| "perform E (Invoke h n t p x c) s =
     map_option (\<lambda>(rc, r, s). (given_outs r, s)) (cpex_invoke E h n t p x c s)"
| "perform E (InvokeResolved h i n t p x c) s =
     map_option (\<lambda>(rc, r, s). (given_outs r, s)) (cpex_invoke_resolved E h i n t p x c s)"
| "perform E (WaitBackground h g b) s =
     map_option (\<lambda>(rc, b, s). (if rc = RC_OK then given_buf b else [], s)) (cpex_wait_background E h g b s)"
| "perform E (RefreshSecrets h b) s =
     map_option (\<lambda>(rc, b, s). (if rc = RC_OK then (case b of None \<Rightarrow> [] | Some b \<Rightarrow> given_buf b) else [], s))
       (cpex_refresh_secrets E h b s)"
| "perform E (SecretsLastSuccess h n m) s = map_option (\<lambda>r. ([], s)) (cpex_secrets_last_success E h n m s)"
| "perform E (FreeBytes p n) s = map_option (\<lambda>s. ([], s)) (cpex_free_bytes p n s)"
| "perform E (FreeBackground p) s = map_option (\<lambda>s. ([], s)) (cpex_free_background p s)"
| "perform E (FreeContextTable p) s = map_option (\<lambda>s. ([], s)) (cpex_free_context_table p s)"

text \<open>The documented contract: which handles a call takes away from the caller, whatever it
  returns, and which it may be made with.\<close>

fun consumed :: "ffi_call \<Rightarrow> nat set" where
  "consumed (Shutdown h) = set_option h"
| "consumed (Invoke h n t p x c) = set_option c"
| "consumed (InvokeResolved h i n t p x c) = set_option c"
| "consumed (WaitBackground h g b) = set_option g"
| "consumed (FreeBytes p n) = (if sint n \<le> 0 then {} else set_option p)"
| "consumed (FreeBackground p) = set_option p"
| "consumed (FreeContextTable p) = set_option p"
| "consumed _ = {}"

definition holds_kind :: "(nat \<rightharpoonup> kind) \<Rightarrow> kind \<Rightarrow> ptr \<Rightarrow> bool" where
  "holds_kind held k p = (case p of None \<Rightarrow> True | Some a \<Rightarrow> held a = Some k)"

fun obeys :: "(nat \<rightharpoonup> kind) \<Rightarrow> ffi_call \<Rightarrow> bool" where
  "obeys held (ConfigureRuntime n) = True"
| "obeys held (EngineNew y) = True"
| "obeys held EngineNewDefault = True"
| "obeys held (LoadConfig h y) = holds_kind held KEngine h"
| "obeys held (Initialize h) = holds_kind held KEngine h"
| "obeys held (Shutdown h) = holds_kind held KEngine h"
| "obeys held (HasHooksFor h n) = holds_kind held KEngine h"
| "obeys held (PluginCount h) = holds_kind held KEngine h"
| "obeys held (IsInitialized h) = holds_kind held KEngine h"
| "obeys held (PluginNames h b) = holds_kind held KEngine h"
| "obeys held (AplInstall h f) = holds_kind held KEngine h"
| "obeys held (Invoke h n t p x c) = (holds_kind held KEngine h \<and> holds_kind held KTable c)"
| "obeys held (InvokeResolved h i n t p x c) = (holds_kind held KEngine h \<and> holds_kind held KTable c)"
| "obeys held (WaitBackground h g b) = (holds_kind held KEngine h \<and> holds_kind held KTasks g)"
| "obeys held (RefreshSecrets h b) = holds_kind held KEngine h"
| "obeys held (SecretsLastSuccess h n m) = holds_kind held KEngine h"
| "obeys held (FreeBytes p n) = holds_kind held (KBytes (unat n)) p"
| "obeys held (FreeBackground p) = holds_kind held KTasks p"
| "obeys held (FreeContextTable p) = holds_kind held KTable p"

text \<open>The engines on which the caller asked for delegated credentials.\<close>

fun opts_in :: "ffi_call \<Rightarrow> nat set" where
  "opts_in (AplInstall (Some a) f) = (if f AND CPEX_APL_EXPOSE_DELEGATED_CREDENTIALS \<noteq> 0 then {a} else {})"
| "opts_in _ = {}"

record ('e, 'o) session =
  held :: "nat \<rightharpoonup> kind"
  opted :: "nat set"
  proc :: "('e, 'o) process"

inductive session_step :: "('e, 'o) ffi_env \<Rightarrow> ('e, 'o) session \<Rightarrow> ('e, 'o) session \<Rightarrow> bool" for E where
  call: "obeys (held st) c \<Longrightarrow> perform E c (proc st) = Some (g, s) \<Longrightarrow>
    session_step E st \<lparr> held = (held st |` (- consumed c)) ++ map_of g,
      opted = opted st \<union> opts_in c, proc = s \<rparr>"

definition started :: "('e, 'o) session \<Rightarrow> bool" where
  "started st \<longleftrightarrow> st = \<lparr> held = Map.empty, opted = {},
     proc = \<lparr> runtime = None, heap = Map.empty, next_addr = 0 \<rparr> \<rparr>"

section \<open>What an operation does to the heap\<close>

definition holdings :: "('e, 'o) process \<Rightarrow> nat \<rightharpoonup> kind" where
  "holdings s a = map_option kind_of (heap s a)"

definition fresh :: "('e, 'o) process \<Rightarrow> bool" where
  "fresh s \<longleftrightarrow> (\<forall>a \<ge> next_addr s. heap s a = None)"

definition same_shape :: "('e, 'o) process \<Rightarrow> ('e, 'o) process \<Rightarrow> bool" where
  "same_shape s s' \<longleftrightarrow> holdings s' = holdings s \<and> next_addr s' = next_addr s"

lemma same_shape_refl [simp]: "same_shape s s"
  by (simp add: same_shape_def)

lemma same_shape_trans: "same_shape s s' \<Longrightarrow> same_shape s' s'' \<Longrightarrow> same_shape s s''"
  by (simp add: same_shape_def)

lemma fresh_holdings: "fresh s \<longleftrightarrow> (\<forall>a \<ge> next_addr s. holdings s a = None)"
  by (simp add: fresh_def holdings_def)

lemma fresh_same_shape: "same_shape s s' \<Longrightarrow> fresh s' \<longleftrightarrow> fresh s"
  by (simp add: fresh_holdings same_shape_def)

lemma same_shape_runtime: "same_shape s (s\<lparr> runtime := r \<rparr>)"
  by (simp add: same_shape_def holdings_def fun_eq_iff)

lemma same_shape_engine: "heap s a = Some (EngineBox i) \<Longrightarrow> same_shape s (put_engine a j s)"
  by (simp add: same_shape_def holdings_def put_engine_def fun_eq_iff)

lemma same_shape_on_engine: "same_shape s (snd (on_engine h f s d))"
  by (auto simp: on_engine_def same_shape_engine split: option.splits block.splits prod.splits)

lemma on_engine_shape: "on_engine h f s d = (r, s') \<Longrightarrow> same_shape s s'"
  using same_shape_on_engine [of s h f d] by simp

lemma shared_runtime_shape: "shared_runtime E s = Some s' \<Longrightarrow> same_shape s s'"
  by (auto simp: shared_runtime_def same_shape_runtime split: option.splits if_splits)

lemma run_safely_shape:
  assumes "\<And>s. same_shape s (snd (fut s))"
  shows "same_shape s (snd (run_safely E fut s))"
proof (cases "shared_runtime E s")
  case None
  then show ?thesis by (simp add: run_safely_def)
next
  case (Some s')
  with shared_runtime_shape same_shape_trans assms [of s'] have "same_shape s (snd (fut s'))"
    by blast
  with Some show ?thesis
    by (auto simp: run_safely_def split: prod.splits unwinding.splits timed.splits)
qed

lemma run_engine_shape:
  "run_safely E (\<lambda>s. on_engine h f s d) s = (r, s') \<Longrightarrow> same_shape s s'"
  "run_safely E (\<lambda>s. (w, s)) s = (r', s') \<Longrightarrow> same_shape s s'"
  by (metis run_safely_shape same_shape_on_engine snd_conv, metis run_safely_shape same_shape_refl snd_conv)

text \<open>\<open>gives s g s'\<close>: the heap grew by exactly the granted allocations.\<close>

definition gives :: "('e, 'o) process \<Rightarrow> grant \<Rightarrow> ('e, 'o) process \<Rightarrow> bool" where
  "gives s g s' \<longleftrightarrow> holdings s' = holdings s ++ map_of g \<and> (fresh s \<longrightarrow> fresh s')"

lemma gives_nothing: "same_shape s s' \<Longrightarrow> gives s [] s'"
  by (simp add: gives_def fresh_same_shape) (simp add: same_shape_def)

lemma gives_refl [simp]: "gives s [] s"
  by (rule gives_nothing) simp

lemma gives_trans: "gives s g s' \<Longrightarrow> gives s' g' s'' \<Longrightarrow> gives s (g' @ g) s''"
  by (simp add: gives_def)

lemma gives_after: "same_shape s s' \<Longrightarrow> gives s' g s'' \<Longrightarrow> gives s g s''"
  using gives_trans [OF gives_nothing] by fastforce

lemma into_raw_gives: "into_raw b s = (p, s') \<Longrightarrow> gives s (given (kind_of b) p) s'"
  by (auto simp: into_raw_def gives_def given_def fresh_def holdings_def fun_eq_iff map_add_def)

lemma engine_box_gives: "into_raw (EngineBox i) s = (p, s') \<Longrightarrow> gives s (given KEngine p) s'"
  by (drule into_raw_gives) simp

lemma alloc_bytes_gives: "alloc_bytes E d s = (b, s') \<Longrightarrow> gives s (given_buf b) s'"
  using into_raw_gives [of "ByteBuffer d" s]
  by (auto simp: alloc_bytes_def given_buf_def given_def unat_of_nat take_bit_nat_eq_self
      split: if_splits prod.splits option.splits)

lemma given_None [simp]: "given k None = []"
  by (simp add: given_def)

lemma given_null_outs [simp]: "given_outs null_outs = []"
  by (simp add: given_outs_def given_buf_def null_outs_def)

lemma finish_gives:
  assumes "finish_pipeline_result E ex r bg t s = (rc, out, s')"
  shows "gives s (given_outs out) s'"
proof (cases "mp_result E (ffi_result E ex t r)")
  case (Inl e)
  with assms show ?thesis by (auto simp: finish_pipeline_result_def)
next
  case (Inr bytes)
  obtain buf s1 where buf: "alloc_bytes E bytes s = (buf, s1)" by (cases "alloc_bytes E bytes s")
  obtain tp s2 where tab: "into_raw (TableBox (pr_context_table r)) s1 = (tp, s2)" by (cases "into_raw (TableBox (pr_context_table r)) s1")
  obtain bp s3 where tasks: "(case bg of None \<Rightarrow> (None, s2) | Some b \<Rightarrow> into_raw (TasksBox b) s2) = (bp, s3)"
    by (cases "case bg of None \<Rightarrow> (None, s2) | Some b \<Rightarrow> into_raw (TasksBox b) s2")
  from assms Inr buf tab tasks
  have out: "out = \<lparr> result_out = buf, context_table_out = tp, bg_handle_out = bp \<rparr>" "s' = s3"
    by (simp_all add: finish_pipeline_result_def)
  have "gives s2 (given KTasks bp) s3"
    using tasks into_raw_gives [of "TasksBox _" s2 bp s3] by (auto split: option.splits)
  then have "gives s (given KTasks bp @ given KTable tp @ given_buf buf) s3"
    using gives_trans [OF gives_trans [OF alloc_bytes_gives [OF buf] into_raw_gives [OF tab]]] by simp
  then show ?thesis by (simp add: out given_outs_def)
qed

text \<open>\<open>takes s C s'\<close>: exactly the addresses of \<open>C\<close> were released.\<close>

definition takes :: "('e, 'o) process \<Rightarrow> nat set \<Rightarrow> ('e, 'o) process \<Rightarrow> bool" where
  "takes s C s' \<longleftrightarrow> holdings s' = holdings s |` (- C) \<and> (fresh s \<longrightarrow> fresh s')"

lemma restrict_UNIV [simp]: "m |` UNIV = m"
  by (simp add: restrict_map_def)

lemma takes_nothing: "same_shape s s' \<Longrightarrow> takes s {} s'"
  by (simp add: takes_def fresh_same_shape) (simp add: same_shape_def)

lemma release_takes: "takes s {a} (release a s)"
  by (auto simp: takes_def release_def holdings_def fresh_def restrict_map_def fun_eq_iff)

lemma take_table_takes: "take_table p s = Some (t, s') \<Longrightarrow> takes s (set_option p) s'"
  by (auto simp: take_table_def release_takes takes_nothing split: option.splits block.splits)

lemma take_tasks_takes: "take_tasks p s = Some (t, s') \<Longrightarrow> takes s (set_option p) s'"
  by (auto simp: take_tasks_def release_takes takes_nothing split: option.splits block.splits)

definition effect :: "('e, 'o) process \<Rightarrow> nat set \<Rightarrow> grant \<Rightarrow> ('e, 'o) process \<Rightarrow> bool" where
  "effect s C g s' \<longleftrightarrow> holdings s' = (holdings s |` (- C)) ++ map_of g \<and> (fresh s \<longrightarrow> fresh s')"

lemma effectI: "takes s C s1 \<Longrightarrow> gives s1 g s' \<Longrightarrow> effect s C g s'"
  by (simp add: effect_def takes_def gives_def)

lemma effect_gives: "gives s g s' \<Longrightarrow> effect s {} g s'"
  by (simp add: effect_def gives_def)

lemma effect_takes: "takes s C s' \<Longrightarrow> effect s C [] s'"
  by (simp add: effect_def takes_def)

lemma effect_shape: "same_shape s s' \<Longrightarrow> effect s {} [] s'"
  by (intro effect_gives gives_nothing)

lemma resolve_identity_shape:
  "resolve_identity E h i x s = (r, s') \<Longrightarrow> same_shape s s'"
  by (auto simp: resolve_identity_def dest!: run_engine_shape
      split: if_splits option.splits sum.splits prod.splits SafeRun.splits)

section \<open>Every call keeps the books\<close>

lemma invoke_effect:
  assumes "cpex_invoke E h n t p x c s = Some (rc, out, s')"
  shows "effect s (set_option c) (given_outs out) s'"
proof -
  from assms obtain tab s1 where tab: "take_table c s = Some (tab, s1)"
    by (auto simp: cpex_invoke_def bind_eq_Some_conv)
  from assms tab have "gives s1 (given_outs out) s'"
    by (auto simp: cpex_invoke_def bind_eq_Some_conv
        intro: gives_after [OF _ finish_gives] gives_nothing dest!: run_engine_shape
        split: if_splits sum.splits prod.splits SafeRun.splits)
  with take_table_takes [OF tab] show ?thesis by (rule effectI)
qed

lemma invoke_resolved_effect:
  assumes "cpex_invoke_resolved E h i n t p x c s = Some (rc, out, s')"
  shows "effect s (set_option c) (given_outs out) s'"
proof -
  from assms obtain tab s1 where tab: "take_table c s = Some (tab, s1)"
    by (auto simp: cpex_invoke_resolved_def bind_eq_Some_conv)
  from assms tab have "gives s1 (given_outs out) s'"
    by (auto simp: cpex_invoke_resolved_def bind_eq_Some_conv
        intro: gives_after [OF _ finish_gives] gives_after [OF _ gives_after [OF _ finish_gives]]
          gives_nothing gives_after [OF _ gives_nothing] dest!: run_engine_shape resolve_identity_shape
        split: if_splits sum.splits prod.splits SafeRun.splits resolution.splits)
  with take_table_takes [OF tab] show ?thesis by (rule effectI)
qed

lemma wait_background_effect:
  assumes "cpex_wait_background E h g b s = Some (rc, out, s')"
  shows "effect s (set_option g) (if rc = RC_OK then given_buf out else []) s'"
proof -
  from assms obtain tasks s1 where tasks: "take_tasks g s = Some (tasks, s1)"
    by (auto simp: cpex_wait_background_def bind_eq_Some_conv)
  from assms tasks have "gives s1 (if rc = RC_OK then given_buf out else []) s'"
    by (auto simp: cpex_wait_background_def bind_eq_Some_conv rc_defs
        intro: gives_after [OF _ alloc_bytes_gives] alloc_bytes_gives gives_nothing
        dest!: run_engine_shape
        split: if_splits sum.splits prod.splits SafeRun.splits option.splits)
  with take_tasks_takes [OF tasks] show ?thesis by (rule effectI)
qed

lemma shutdown_effect: "cpex_shutdown E h s = Some s' \<Longrightarrow> effect s (set_option h) [] s'"
proof (cases h)
  case None
  then show "cpex_shutdown E h s = Some s' \<Longrightarrow> ?thesis" by (simp add: cpex_shutdown_def effect_shape)
next
  case (Some a)
  let ?s = "snd (run_safely E (\<lambda>s. on_engine h (shutdown_engine E) s Unwinds) s)"
  assume "cpex_shutdown E h s = Some s'"
  with Some have "s' = release a ?s" by (auto simp: cpex_shutdown_def bind_eq_Some_conv)
  moreover have "same_shape s ?s" by (rule run_safely_shape) (rule same_shape_on_engine)
  ultimately show ?thesis
    using Some release_takes [of ?s a] fresh_same_shape [of s ?s]
    by (simp add: effect_def takes_def) (simp add: same_shape_def)
qed

lemma plugin_names_cases:
  assumes "cpex_plugin_names E h b s = Some (rc, out, s')"
  shows "rc \<noteq> RC_OK \<and> out = b \<and> s' = s \<or> rc = RC_OK \<and> (\<exists>d. alloc_bytes E d s = (out, s'))"
proof -
  from assms obtain inner where "engine_ref h s = Some inner"
    by (auto simp: cpex_plugin_names_def bind_eq_Some_conv)
  with assms show ?thesis
    by (cases inner) (auto simp: cpex_plugin_names_def rc_defs split: sum.split_asm prod.split_asm)
qed

lemma apl_install_cases:
  assumes "cpex_apl_install E h f s = Some (rc, s')"
  shows "s' = s \<or> (\<exists>a i j. h = Some a \<and> heap s a = Some (EngineBox i) \<and> s' = put_engine a j s \<and>
    (expose_delegated_credentials j \<longrightarrow>
       expose_delegated_credentials i \<or> f AND CPEX_APL_EXPOSE_DELEGATED_CREDENTIALS \<noteq> 0))"
proof (cases h)
  case None
  with assms show ?thesis by (simp add: cpex_apl_install_def engine_ref_def)
next
  case (Some a)
  with assms obtain i where i: "heap s a = Some (EngineBox i)"
    by (auto simp: cpex_apl_install_def engine_ref_def split: option.split_asm block.split_asm)
  obtain r e where "install_host_defaults E (f AND CPEX_APL_ALLOW_PRIVATE_DESTINATIONS \<noteq> 0) (engine_value i)
      = (r, e)" by fastforce
  with assms Some i show ?thesis
    by (auto simp: cpex_apl_install_def engine_ref_def
        split: if_split_asm InstallState.split_asm unwinding.split_asm)
qed

lemma engine_new_effect:
  assumes new: "cpex_engine_new E y s = Some (p, s')"
  shows "effect s {} (given KEngine p) s'"
proof (cases "c_str_to_slice y")
  case None
  with new show ?thesis by (simp add: cpex_engine_new_def effect_shape)
next
  case (Some yaml)
  with new obtain s1 where s1: "shared_runtime E s = Some s1"
    by (auto simp: cpex_engine_new_def bind_eq_Some_conv)
  obtain r e where load: "load_config_yaml E yaml (new_engine E) = (r, e)"
    by (cases "load_config_yaml E yaml (new_engine E)")
  have "gives s1 (given KEngine p) s'"
    using new Some s1 load into_raw_gives [of "EngineBox (new_inner e)" s1 p s']
    by (auto simp: cpex_engine_new_def split: unwinding.split_asm sum.split_asm)
  with shared_runtime_shape [OF s1] show ?thesis by (rule effect_gives [OF gives_after])
qed

lemma engine_effects:
  "cpex_engine_new_default E s = Some (p, s') \<Longrightarrow> effect s {} (given KEngine p) s'"
  "cpex_load_config E h y s = Some (rc, s') \<Longrightarrow> effect s {} [] s'"
  "cpex_initialize E h s = Some (rc, s') \<Longrightarrow> effect s {} [] s'"
  "cpex_plugin_names E h b s = Some (rc, out, s') \<Longrightarrow>
     effect s {} (if rc = RC_OK then given_buf out else []) s'"
  "cpex_apl_install E h f s = Some (rc, s') \<Longrightarrow> effect s {} [] s'"
  "cpex_refresh_secrets E h ob s = Some (rc, oo, s') \<Longrightarrow>
     effect s {} (if rc = RC_OK then (case oo of None \<Rightarrow> [] | Some b \<Rightarrow> given_buf b) else []) s'"
proof -
  show "cpex_engine_new_default E s = Some (p, s') \<Longrightarrow> effect s {} (given KEngine p) s'"
    by (auto simp: cpex_engine_new_default_def bind_eq_Some_conv
        intro!: effect_gives intro: gives_after [OF shared_runtime_shape] engine_box_gives)
next
  show "cpex_load_config E h y s = Some (rc, s') \<Longrightarrow> effect s {} [] s'"
    by (auto simp: cpex_load_config_def bind_eq_Some_conv dest!: on_engine_shape
        intro!: effect_shape split: option.split_asm prod.split_asm unwinding.split_asm sum.split_asm if_split_asm)
next
  show "cpex_initialize E h s = Some (rc, s') \<Longrightarrow> effect s {} [] s'"
    by (auto simp: cpex_initialize_def bind_eq_Some_conv intro!: effect_shape dest!: run_engine_shape
        split: prod.splits SafeRun.splits sum.splits if_splits)
next
  show "cpex_plugin_names E h b s = Some (rc, out, s') \<Longrightarrow>
     effect s {} (if rc = RC_OK then given_buf out else []) s'"
    by (auto dest!: plugin_names_cases intro!: effect_gives intro: alloc_bytes_gives)
next
  show "cpex_apl_install E h f s = Some (rc, s') \<Longrightarrow> effect s {} [] s'"
    by (auto dest!: apl_install_cases intro!: effect_shape same_shape_engine)
next
  show "cpex_refresh_secrets E h ob s = Some (rc, oo, s') \<Longrightarrow>
     effect s {} (if rc = RC_OK then (case oo of None \<Rightarrow> [] | Some b \<Rightarrow> given_buf b) else []) s'"
    by (auto simp: cpex_refresh_secrets_def bind_eq_Some_conv rc_defs intro!: effect_gives
        intro: gives_after [OF _ alloc_bytes_gives] gives_nothing dest!: run_engine_shape
        split: prod.splits sum.splits SafeRun.splits if_splits)
qed

lemma free_effects:
  "cpex_free_bytes p n s = Some s' \<Longrightarrow> effect s (if sint n \<le> 0 then {} else set_option p) [] s'"
  "cpex_free_background p s = Some s' \<Longrightarrow> effect s (set_option p) [] s'"
  "cpex_free_context_table p s = Some s' \<Longrightarrow> effect s (set_option p) [] s'"
proof -
  show "cpex_free_bytes p n s = Some s' \<Longrightarrow> effect s (if sint n \<le> 0 then {} else set_option p) [] s'"
    by (auto simp: cpex_free_bytes_def intro!: effect_takes release_takes takes_nothing
        split: option.split_asm block.split_asm if_split_asm)
qed (auto simp: cpex_free_background_def cpex_free_context_table_def
    intro: effect_takes take_tasks_takes take_table_takes)

lemma configure_shape: "cpex_configure_runtime E n s = Some (r, s') \<Longrightarrow> same_shape s s'"
  by (auto simp: cpex_configure_runtime_def same_shape_runtime
      split: option.split_asm if_split_asm unwinding.split_asm bool.split_asm)

lemma perform_effect: "perform E c s = Some (g, s') \<Longrightarrow> effect s (consumed c) g s'"
  by (cases c)
     (auto simp: effect_shape configure_shape dest: engine_new_effect engine_effects free_effects shutdown_effect
       invoke_effect invoke_resolved_effect wait_background_effect)

section \<open>The invariant\<close>

text \<open>What the caller holds is what is allocated, and credentials are exposed only by an engine the
  caller opted in on.\<close>

definition exposing :: "('e, 'o) process \<Rightarrow> nat set" where
  "exposing s = {a. \<exists>i. heap s a = Some (EngineBox i) \<and> expose_delegated_credentials i}"

definition session_inv :: "('e, 'o) session \<Rightarrow> bool" where
  "session_inv st \<longleftrightarrow> held st = holdings (proc st) \<and> fresh (proc st) \<and> exposing (proc st) \<subseteq> opted st"

text \<open>Only a successful install changes what an engine exposes; every other operation leaves the
  flags alone or releases or adds an engine that exposes nothing.\<close>

lemma exposing_simps [simp]:
  "exposing (s\<lparr> runtime := r \<rparr>) = exposing s"
  "exposing (release a s) = exposing s - {a}"
  by (auto simp: exposing_def release_def)

lemma exposing_into_raw:
  "into_raw b s = (p, s') \<Longrightarrow> (\<And>i. b = EngineBox i \<Longrightarrow> \<not> expose_delegated_credentials i) \<Longrightarrow>
     exposing s' \<subseteq> exposing s"
  by (auto simp: into_raw_def exposing_def split: if_splits)

lemma exposing_on_engine: "exposing (snd (on_engine h f s d)) = exposing s"
  by (auto simp: on_engine_def exposing_def put_engine_def split: option.splits block.splits prod.splits if_splits)

lemma exposing_on_engine': "on_engine h f s d = (r, s') \<Longrightarrow> exposing s' = exposing s"
  using exposing_on_engine [of h f s d] by simp

lemma exposing_shared_runtime: "shared_runtime E s = Some s' \<Longrightarrow> exposing s' = exposing s"
  by (auto simp: shared_runtime_def split: option.splits if_splits)

lemma exposing_run_safely:
  assumes "\<And>s. exposing (snd (fut s)) = exposing s" "run_safely E fut s = (r, s')"
  shows "exposing s' = exposing s"
proof (cases "shared_runtime E s")
  case None
  with assms(2) show ?thesis by (simp add: run_safely_def)
next
  case (Some s1)
  obtain out s2 where fut: "fut s1 = (out, s2)" by (cases "fut s1")
  with assms(2) Some have "s' = s2"
    by (simp add: run_safely_def split: unwinding.splits timed.splits)
  moreover have "exposing s2 = exposing s1" using assms(1) [of s1] fut by simp
  ultimately show ?thesis using exposing_shared_runtime [OF Some] by simp
qed

lemmas exposing_run_engine =
  exposing_run_safely [where fut = "\<lambda>s. on_engine h f s d" for h f d, OF exposing_on_engine]
  exposing_run_safely [where fut = "\<lambda>s. (w, s)" for w, simplified]

lemma exposing_alloc: "alloc_bytes E d s = (b, s') \<Longrightarrow> exposing s' \<subseteq> exposing s"
  by (auto simp: alloc_bytes_def dest: exposing_into_raw split: if_split_asm prod.split_asm)

lemma exposing_take:
  "take_table p s = Some (t, s') \<Longrightarrow> exposing s' \<subseteq> exposing s"
  "take_tasks p s = Some (t, s') \<Longrightarrow> exposing s' \<subseteq> exposing s"
  by (auto simp: take_table_def take_tasks_def split: option.split_asm block.split_asm)

lemma exposing_finish:
  assumes "finish_pipeline_result E ex r bg t s = (rc, out, s')"
  shows "exposing s' \<subseteq> exposing s"
proof (cases "mp_result E (ffi_result E ex t r)")
  case (Inl e)
  with assms show ?thesis by (auto simp: finish_pipeline_result_def)
next
  case (Inr bytes)
  obtain buf s1 where buf: "alloc_bytes E bytes s = (buf, s1)" by (cases "alloc_bytes E bytes s")
  obtain tp s2 where tab: "into_raw (TableBox (pr_context_table r)) s1 = (tp, s2)"
    by (cases "into_raw (TableBox (pr_context_table r)) s1")
  from tab have "exposing s2 \<subseteq> exposing s1" by (rule exposing_into_raw) simp
  moreover from assms Inr buf tab have "exposing s' \<subseteq> exposing s2"
    using exposing_into_raw [of "TasksBox _" s2 _ s']
    by (auto simp: finish_pipeline_result_def split: option.split_asm prod.split_asm)
  ultimately show ?thesis using exposing_alloc [OF buf] by blast
qed

lemma exposing_resolve: "resolve_identity E h i x s = (r, s') \<Longrightarrow> exposing s' = exposing s"
  by (auto simp: resolve_identity_def dest!: exposing_run_engine
      split: if_split_asm option.split_asm sum.split_asm prod.split_asm SafeRun.split_asm)

lemma exposing_invoke:
  assumes "cpex_invoke E h n t p x c s = Some (rc, out, s')"
  shows "exposing s' \<subseteq> exposing s"
proof -
  from assms obtain tab s1 where tab: "take_table c s = Some (tab, s1)"
    by (auto simp: cpex_invoke_def bind_eq_Some_conv)
  from assms tab have "exposing s' \<subseteq> exposing s1"
    by (auto simp: cpex_invoke_def bind_eq_Some_conv dest!: exposing_run_engine exposing_finish
        split: if_split_asm sum.split_asm prod.split_asm SafeRun.split_asm)
  with exposing_take(1) [OF tab] show ?thesis by blast
qed

lemma exposing_invoke_resolved:
  assumes "cpex_invoke_resolved E h i n t p x c s = Some (rc, out, s')"
  shows "exposing s' \<subseteq> exposing s"
proof -
  from assms obtain tab s1 where tab: "take_table c s = Some (tab, s1)"
    by (auto simp: cpex_invoke_resolved_def bind_eq_Some_conv)
  from assms tab have "exposing s' \<subseteq> exposing s1"
    by (auto simp: cpex_invoke_resolved_def bind_eq_Some_conv
        dest!: exposing_run_engine exposing_finish exposing_resolve
        split: if_split_asm sum.split_asm prod.split_asm SafeRun.split_asm resolution.split_asm)
  with exposing_take(1) [OF tab] show ?thesis by blast
qed

lemma exposing_wait:
  assumes "cpex_wait_background E h g b s = Some (rc, out, s')"
  shows "exposing s' \<subseteq> exposing s"
proof -
  from assms obtain tasks s1 where tasks: "take_tasks g s = Some (tasks, s1)"
    by (auto simp: cpex_wait_background_def bind_eq_Some_conv)
  from assms tasks have "exposing s' \<subseteq> exposing s1"
    by (auto simp: cpex_wait_background_def bind_eq_Some_conv dest!: exposing_run_engine exposing_alloc
        split: if_split_asm sum.split_asm prod.split_asm SafeRun.split_asm option.split_asm)
  with exposing_take(2) [OF tasks] show ?thesis by blast
qed

lemma exposing_engine_new:
  assumes "cpex_engine_new E y s = Some (p, s')"
  shows "exposing s' \<subseteq> exposing s"
proof (cases "c_str_to_slice y")
  case None
  with assms show ?thesis by (simp add: cpex_engine_new_def)
next
  case (Some yaml)
  with assms obtain s1 where s1: "shared_runtime E s = Some s1"
    by (auto simp: cpex_engine_new_def bind_eq_Some_conv)
  obtain r e where load: "load_config_yaml E yaml (new_engine E) = (r, e)"
    by (cases "load_config_yaml E yaml (new_engine E)")
  have "exposing s' \<subseteq> exposing s1"
    using assms Some s1 load exposing_into_raw [of "EngineBox (new_inner e)" s1 p s']
    by (auto simp: cpex_engine_new_def new_inner_def split: unwinding.split_asm sum.split_asm)
  with exposing_shared_runtime [OF s1] show ?thesis by simp
qed

lemma exposing_engines:
  "cpex_engine_new_default E s = Some (p, s') \<Longrightarrow> exposing s' \<subseteq> exposing s"
  "cpex_load_config E h y s = Some (rc, s') \<Longrightarrow> exposing s' \<subseteq> exposing s"
  "cpex_initialize E h s = Some (rc, s') \<Longrightarrow> exposing s' \<subseteq> exposing s"
  "cpex_plugin_names E h b s = Some (rc, out, s') \<Longrightarrow> exposing s' \<subseteq> exposing s"
  "cpex_refresh_secrets E h ob s = Some (rc, oo, s') \<Longrightarrow> exposing s' \<subseteq> exposing s"
proof -
  show "cpex_engine_new_default E s = Some (p, s') \<Longrightarrow> exposing s' \<subseteq> exposing s"
    using exposing_into_raw [of "EngineBox (new_inner (new_engine E))" _ p s']
    by (auto simp: cpex_engine_new_default_def bind_eq_Some_conv new_inner_def
        dest!: exposing_shared_runtime)
next
  show "cpex_load_config E h y s = Some (rc, s') \<Longrightarrow> exposing s' \<subseteq> exposing s"
    by (auto simp: cpex_load_config_def bind_eq_Some_conv dest!: exposing_on_engine'
        split: option.split_asm prod.split_asm unwinding.split_asm sum.split_asm if_split_asm)
qed (auto simp: cpex_initialize_def cpex_refresh_secrets_def bind_eq_Some_conv
    dest!: exposing_run_engine exposing_alloc plugin_names_cases
    split: prod.split_asm SafeRun.split_asm sum.split_asm if_split_asm option.split_asm)

lemma exposing_shutdown:
  assumes "cpex_shutdown E h s = Some s'"
  shows "exposing s' \<subseteq> exposing s"
proof (cases h)
  case None
  with assms show ?thesis by (simp add: cpex_shutdown_def)
next
  case (Some a)
  obtain r s1 where s1: "run_safely E (\<lambda>s. on_engine h (shutdown_engine E) s Unwinds) s = (r, s1)"
    by fastforce
  with assms Some have "s' = release a s1" by (auto simp: cpex_shutdown_def bind_eq_Some_conv)
  with exposing_run_engine(1) [OF s1] show ?thesis by auto
qed

lemma exposing_install:
  "cpex_apl_install E h f s = Some (rc, s') \<Longrightarrow> exposing s' \<subseteq> exposing s \<union> opts_in (AplInstall h f)"
  by (auto simp: exposing_def put_engine_def dest!: apl_install_cases split: if_split_asm)

lemma exposing_free:
  "cpex_free_bytes p n s = Some s' \<Longrightarrow> exposing s' \<subseteq> exposing s"
  "cpex_free_background p s = Some s' \<Longrightarrow> exposing s' \<subseteq> exposing s"
  "cpex_free_context_table p s = Some s' \<Longrightarrow> exposing s' \<subseteq> exposing s"
  by (auto simp: cpex_free_bytes_def split: option.split_asm block.split_asm if_split_asm)
     (auto simp: cpex_free_background_def cpex_free_context_table_def dest!: exposing_take)

lemma exposing_configure: "cpex_configure_runtime E n s = Some (r, s') \<Longrightarrow> exposing s' = exposing s"
  by (auto simp: cpex_configure_runtime_def
      split: option.split_asm if_split_asm unwinding.split_asm bool.split_asm)

lemma perform_exposing:
  "perform E c s = Some (g, s') \<Longrightarrow> exposing s' \<subseteq> exposing s \<union> opts_in c"
  by (cases c)
     (auto simp: exposing_configure dest!: exposing_engine_new exposing_engines exposing_shutdown exposing_free
       exposing_invoke exposing_invoke_resolved exposing_wait exposing_install)

lemma session_inv_step:
  assumes inv: "session_inv st" and step: "session_step E st st'"
  shows "session_inv st'"
  using step
proof cases
  case (call c g s)
  from perform_effect [OF call(3)] inv
  have "holdings s = (held st |` (- consumed c)) ++ map_of g" "fresh s"
    by (simp_all add: effect_def session_inv_def)
  moreover from perform_exposing [OF call(3)] inv have "exposing s \<subseteq> opted st \<union> opts_in c"
    by (auto simp: session_inv_def)
  ultimately show ?thesis by (simp add: session_inv_def call(1))
qed

lemma started_inv: "started st \<Longrightarrow> session_inv st"
  by (auto simp: started_def session_inv_def holdings_def fresh_def exposing_def)

interpretation ffi_session: invariant_system started "session_step E" session_inv for E
  by unfold_locales (rule started_inv, assumption, rule session_inv_step)

abbreviation session_reachable :: "('e, 'o) ffi_env \<Rightarrow> ('e, 'o) session \<Rightarrow> bool" where
  "session_reachable E \<equiv> reachable started (session_step E)"

text \<open>C3: Nothing leaks and nothing dangles. In every run of a caller that keeps the documented contract,
  whatever the calls return, error codes, timeouts and panics included, the live allocations of the
  process are exactly the handles and buffers the caller was given and has not handed back, each of
  the kind and length the caller knows; in particular the context table and the background tasks
  given to a call are gone when it returns, on every path.\<close>

theorem handles_match_heap:
  assumes "session_reachable E st"
  shows "held st a = map_option kind_of (heap (proc st) a)"
  using ffi_session.reachable_inv [OF assms] by (simp add: session_inv_def holdings_def)

section \<open>No undefined behaviour\<close>

text \<open>The three places where a panic is not caught: building the runtime, on demand or when it is
  configured, outside \<^verbatim>\<open>run_safely\<close>, parsing a configuration, and loading one while an engine is
  made.\<close>

definition never_aborts :: "('e, 'o) ffi_env \<Rightarrow> bool" where
  "never_aborts E \<longleftrightarrow> (\<forall>n. runtime_builds E n = Returns True) \<and> (\<forall>y. parse_config E y \<noteq> Unwinds) \<and>
     (\<forall>y. fst (load_config_yaml E y (new_engine E)) \<noteq> Unwinds)"

lemma engine_ref_held:
  "holds_kind (holdings s) KEngine h \<Longrightarrow> \<exists>i. engine_ref h s = Some i \<and> (i = None \<longleftrightarrow> h = None)"
  by (auto simp: holds_kind_def engine_ref_def holdings_def split: option.splits block.splits)

lemma take_table_held: "holds_kind (holdings s) KTable p \<Longrightarrow> \<exists>t s'. take_table p s = Some (t, s')"
  by (auto simp: holds_kind_def take_table_def holdings_def split: option.splits block.splits)

lemma take_tasks_held: "holds_kind (holdings s) KTasks p \<Longrightarrow> \<exists>t s'. take_tasks p s = Some (t, s')"
  by (auto simp: holds_kind_def take_tasks_def holdings_def split: option.splits block.splits)

lemma take_keeps_engine:
  "take_table p s = Some (t, s') \<Longrightarrow> engine_ref h s = Some i \<Longrightarrow> engine_ref h s' = Some i"
  "take_tasks p s = Some (t, s') \<Longrightarrow> engine_ref h s = Some i \<Longrightarrow> engine_ref h s' = Some i"
  by (auto simp: take_table_def take_tasks_def engine_ref_def release_def
      split: option.split_asm block.split_asm if_split_asm)

lemma shared_runtime_held: "never_aborts E \<Longrightarrow> \<exists>s'. shared_runtime E s = Some s'"
  by (auto simp: never_aborts_def shared_runtime_def split: option.splits)

lemma triple_exists [simp]: "\<exists>a b c. x = (a, b, c)" "\<exists>a b c. y = ((a, b), c)"
  by (cases x, simp) (cases y, auto)

lemma engine_new_defined: "never_aborts E \<Longrightarrow> cpex_engine_new E y s \<noteq> None"
proof (cases "c_str_to_slice y")
  case (Some yaml)
  assume E: "never_aborts E"
  from E have "fst (load_config_yaml E yaml (new_engine E)) \<noteq> Unwinds" by (simp add: never_aborts_def)
  with Some shared_runtime_held [OF E, of s] show ?thesis
    by (auto simp: cpex_engine_new_def split: prod.splits unwinding.splits sum.splits)
qed (simp add: cpex_engine_new_def)

lemma engine_new_default_defined: "never_aborts E \<Longrightarrow> cpex_engine_new_default E s \<noteq> None"
  using shared_runtime_held [of E s] by (auto simp: cpex_engine_new_default_def)

lemma configure_defined: "never_aborts E \<Longrightarrow> cpex_configure_runtime E n s \<noteq> None"
  by (simp add: never_aborts_def cpex_configure_runtime_def)

lemma invoke_defined:
  assumes "holds_kind (holdings s) KEngine h" "holds_kind (holdings s) KTable c"
  shows "cpex_invoke E h n t p x c s \<noteq> None" "cpex_invoke_resolved E h i n t p x c s \<noteq> None"
proof -
  from take_table_held [OF assms(2)] obtain tab s1 where tab: "take_table c s = Some (tab, s1)" by blast
  from engine_ref_held [OF assms(1)] take_keeps_engine(1) [OF tab]
  obtain j where j: "engine_ref h s1 = Some j" by blast
  with tab show "cpex_invoke E h n t p x c s \<noteq> None" "cpex_invoke_resolved E h i n t p x c s \<noteq> None"
    by (simp_all add: cpex_invoke_def cpex_invoke_resolved_def
        split: sum.splits prod.splits SafeRun.splits resolution.splits)
qed

lemma wait_background_defined:
  assumes "holds_kind (holdings s) KEngine h" "holds_kind (holdings s) KTasks g"
  shows "cpex_wait_background E h g b s \<noteq> None"
proof -
  from take_tasks_held [OF assms(2)] obtain tasks s1 where "take_tasks g s = Some (tasks, s1)" by blast
  moreover from engine_ref_held [OF assms(1)] obtain j where "engine_ref h s = Some j" by blast
  ultimately show ?thesis
    by (simp add: cpex_wait_background_def split: sum.splits prod.splits SafeRun.splits option.splits)
qed

lemma engine_calls_defined:
  assumes "holds_kind (holdings s) KEngine h"
  shows "never_aborts E \<Longrightarrow> cpex_load_config E h y s \<noteq> None" "cpex_initialize E h s \<noteq> None"
    "cpex_shutdown E h s \<noteq> None" "cpex_has_hooks_for E h n s \<noteq> None" "cpex_plugin_count E h s \<noteq> None"
    "cpex_is_initialized E h s \<noteq> None" "cpex_plugin_names E h b s \<noteq> None"
    "cpex_apl_install E h f s \<noteq> None" "cpex_refresh_secrets E h ob s \<noteq> None"
    "cpex_secrets_last_success E h n m s \<noteq> None"
proof -
  from engine_ref_held [OF assms] obtain j where j: "engine_ref h s = Some j" by blast
  show "never_aborts E \<Longrightarrow> cpex_load_config E h y s \<noteq> None"
    by (auto simp: cpex_load_config_def j never_aborts_def split: option.splits unwinding.splits
        sum.splits prod.splits dest: spec [of "\<lambda>y. parse_config E y \<noteq> Unwinds"])
  show "cpex_apl_install E h f s \<noteq> None"
    by (simp add: cpex_apl_install_def j split: option.splits InstallState.splits unwinding.splits prod.splits)
  show "cpex_plugin_names E h b s \<noteq> None" "cpex_secrets_last_success E h n m s \<noteq> None"
    by (simp_all add: cpex_plugin_names_def cpex_secrets_last_success_def j
        split: option.splits sum.splits prod.splits)
  show "cpex_initialize E h s \<noteq> None" "cpex_refresh_secrets E h ob s \<noteq> None"
    by (simp_all add: cpex_initialize_def cpex_refresh_secrets_def j
        split: SafeRun.splits sum.splits prod.splits)
qed (use engine_ref_held [OF assms] in \<open>auto simp: cpex_shutdown_def cpex_has_hooks_for_def
    cpex_plugin_count_def cpex_is_initialized_def split: option.splits\<close>)

lemma frees_defined:
  "holds_kind (holdings s) (KBytes (unat n)) p \<Longrightarrow> cpex_free_bytes p n s \<noteq> None"
  "holds_kind (holdings s) KTasks p \<Longrightarrow> cpex_free_background p s \<noteq> None"
  "holds_kind (holdings s) KTable p \<Longrightarrow> cpex_free_context_table p s \<noteq> None"
proof -
  show "holds_kind (holdings s) (KBytes (unat n)) p \<Longrightarrow> cpex_free_bytes p n s \<noteq> None"
    by (auto simp: holds_kind_def holdings_def cpex_free_bytes_def split: option.splits block.splits)
qed (auto simp: cpex_free_background_def cpex_free_context_table_def dest: take_tasks_held take_table_held)

text \<open>C7: A caller that keeps the contract is safe. Whatever calls it has made so far and whatever they
  returned, no call that keeps the contract frees twice, uses a released handle, takes a handle for
  one of another kind or releases a buffer with a wrong length; it returns, unless a panic strikes
  in one of the three places that do not catch one.\<close>

theorem no_undefined_behaviour:
  assumes "session_reachable E st" "obeys (held st) c" "never_aborts E"
  shows "perform E c (proc st) \<noteq> None"
proof -
  have "held st = holdings (proc st)"
    using ffi_session.reachable_inv [OF assms(1)] by (simp add: session_inv_def)
  with assms(2) have "obeys (holdings (proc st)) c" by simp
  then show ?thesis
    using assms(3) engine_new_default_defined [OF assms(3)]
    by (cases c) (simp_all del: not_None_eq split_paired_All add: engine_new_defined engine_calls_defined configure_defined
        invoke_defined wait_background_defined frees_defined)
qed

section \<open>Witnesses\<close>

definition pipeline :: "bool \<Rightarrow> string ffi_payload option \<Rightarrow> string option \<Rightarrow> string PipelineResult" where
  "pipeline cont payload exts =
     \<lparr> pr_continue_processing = cont, pr_violation = None, pr_errors = [], pr_metadata = None,
       pr_modified_payload = payload, pr_payload_modified = False, pr_modified_extensions = exts,
       pr_context_table = ''table'' \<rparr>"

text \<open>An engine that allows every hook but \<^verbatim>\<open>identity.resolve\<close>, which it denies.\<close>

definition sample_ffi :: "(unit, string) ffi_env" where
  "sample_ffi =
     \<lparr> worker_threads_var = Some ''4'', runtime_builds = (\<lambda>_. Returns True), alloc_gives = (\<lambda>_ _. True),
       new_engine = (), parse_config = (\<lambda>_. Returns (Inr ())),
       load_config_yaml = (\<lambda>_ e. (Returns (Inr ()), e)),
       initialize_engine = (\<lambda>e. (Returns (InTime (Inr ())), e)),
       shutdown_engine = (\<lambda>e. (Returns TimedOut, e)), has_hooks_for = (\<lambda>_ _. True),
       plugin_count = (\<lambda>_. 1), is_initialized = (\<lambda>_. True), plugin_names = (\<lambda>_. [''p'']),
       invoke_by_name = (\<lambda>name p x t e.
         (Returns (InTime (pipeline (name \<noteq> HOOK_IDENTITY_RESOLVE) (Some p) (Some x), ''tasks'')), e)),
       wait_for_background_tasks = (\<lambda>_. Unwinds), install_builtins = (\<lambda>e. (Returns (), e)),
       set_http_transport = (\<lambda>_ e. e), set_secret_providers = (\<lambda>_ e. e),
       refresh_secrets = (\<lambda>e. (Returns TimedOut, e)), secrets_last_success = (\<lambda>_ _. None),
       default_extensions = ''x'', identity_of_result = (\<lambda>_. None), apply_to_extensions = (\<lambda>_ x. x),
       raw_delegated_tokens = (\<lambda>_. None), to_rfc3339 = (\<lambda>_. ''t''),
       mp_de_json = (\<lambda>b. Inr (JString b)), mp_de_message = Inr, mp_de_identity = (\<lambda>b. Inr
         \<lparr> ip_raw_token = b, ip_source = SpiffeJwtSvid, ip_source_header = None, ip_headers = [],
           ip_client_host = None, ip_client_port = None, ip_subject = None, ip_client = None,
           ip_caller_workload = None, ip_delegation = None, ip_raw_credentials = None,
           ip_resolved_at = None, ip_raw_claims = [] \<rparr>),
       mp_de_extensions = Inr, identity_to_value = (\<lambda>_. Inr (JObject [])), mp_json = (\<lambda>_. Inr ''j''),
       mp_message = Inr, mp_extensions = Inr, mp_result = (\<lambda>_. Inr ''result''),
       mp_names = (\<lambda>_. Inr ''names''), mp_records = (\<lambda>_. Inr ''records''),
       mp_report = (\<lambda>_. Inr ''report'') \<rparr>"

definition empty_process :: "('e, 'o) process" where
  "empty_process = \<lparr> runtime = None, heap = Map.empty, next_addr = 0 \<rparr>"

definition one_engine :: "(unit, string) process" where
  "one_engine = \<lparr> runtime = Some (Some 4), heap = [0 \<mapsto> EngineBox (new_inner ())], next_addr = 1 \<rparr>"

lemma sample_never_aborts: "never_aborts sample_ffi"
  by (simp add: never_aborts_def sample_ffi_def)

lemma sample_threads: "worker_threads_from_env sample_ffi = Some 4"
  by (simp add: worker_threads_from_env_def sample_ffi_def parse_worker_threads_def parse_usize_def
      digit_value_def Let_def)

lemma sample_engine_made: "cpex_engine_new_default sample_ffi empty_process = Some (Some 0, one_engine)"
  using sample_never_aborts
  by (simp add: cpex_engine_new_default_def shared_runtime_def empty_process_def sample_threads
      never_aborts_def into_raw_def one_engine_def new_inner_def)

definition one_engine_session :: "(unit, string) session" where
  "one_engine_session = \<lparr> held = [0 \<mapsto> KEngine], opted = {}, proc = one_engine \<rparr>"

lemma one_engine_reachable: "session_reachable sample_ffi one_engine_session"
proof (rule reachable_step)
  show "session_reachable sample_ffi \<lparr> held = Map.empty, opted = {}, proc = empty_process \<rparr>"
    by (rule reachable_init) (simp add: started_def empty_process_def)
  show "session_step sample_ffi \<lparr> held = Map.empty, opted = {}, proc = empty_process \<rparr> one_engine_session"
    using session_step.call [of "\<lparr> held = Map.empty, opted = {}, proc = empty_process \<rparr>" EngineNewDefault
        sample_ffi "given KEngine (Some 0)" one_engine]
    by (simp add: sample_engine_made one_engine_session_def given_def)
qed

definition sample_invoke :: ffi_call where
  "sample_invoke = Invoke (Some 0) (Some ''echo'', 4) PAYLOAD_GENERIC
     (Some ''b'', 1) (None, 0) None"

definition invoked :: "(unit, string) process" where
  "invoked = one_engine\<lparr> heap := (heap one_engine)(1 \<mapsto> ByteBuffer ''result'', 2 \<mapsto> TableBox ''table'',
     3 \<mapsto> TasksBox ''tasks''), next_addr := 4 \<rparr>"

lemma echo_read: "c_str_to_slice (Some ''echo'', 4) = Some ''echo''"
  by (simp add: c_str_to_slice_def c_bytes_to_slice_def utf8_step.simps utf8_width_def byte_in_def)

lemma sample_decoded:
  "decode_request sample_ffi (Some ''echo'', 4) PAYLOAD_GENERIC (Some ''b'', 1) (None, 0)
     = Inr (''echo'', GenericPayload (JString ''b''), ''x'')"
  by (simp add: decode_request_def echo_read c_bytes_to_slice_def reject_removed_hook_def
      removed_hook_replacement_def REMOVED_HOOKS_def ffi_deserialize_payload_def sample_ffi_def
      with_context_def reject_resolved_identity_payload_def PAYLOAD_GENERIC_def)

lemma sample_invoked:
  "cpex_invoke sample_ffi (Some 0) (Some ''echo'', 4) PAYLOAD_GENERIC (Some ''b'', 1)
       (None, 0) None one_engine
     = Some (RC_OK, \<lparr> result_out = (Some 1, 6), context_table_out = Some 2, bg_handle_out = Some 3 \<rparr>, invoked)"
  using sample_decoded
  by (simp add: cpex_invoke_def take_table_def engine_ref_def one_engine_def run_safely_def
      shared_runtime_def on_engine_def sample_ffi_def put_engine_def new_inner_def
      finish_pipeline_result_def alloc_bytes_def into_raw_def pipeline_def invoked_def)
     (simp add: numeral_2_eq_2 numeral_3_eq_3)

lemma invoked_reachable:
  "session_reachable sample_ffi
     \<lparr> held = [0 \<mapsto> KEngine, 1 \<mapsto> KBytes 6, 2 \<mapsto> KTable, 3 \<mapsto> KTasks], opted = {}, proc = invoked \<rparr>"
proof (rule reachable_step [OF one_engine_reachable])
  show "session_step sample_ffi one_engine_session
      \<lparr> held = [0 \<mapsto> KEngine, 1 \<mapsto> KBytes 6, 2 \<mapsto> KTable, 3 \<mapsto> KTasks], opted = {}, proc = invoked \<rparr>"
    using session_step.call [of one_engine_session sample_invoke sample_ffi
        "[(3, KTasks), (2, KTable), (1, KBytes 6)]" invoked]
    by (simp add: sample_invoke_def sample_invoked one_engine_session_def holds_kind_def given_outs_def
        given_def given_buf_def fun_upd_twist)
qed

theorem handles_match_heap_witness:
  "\<exists>st. session_reachable sample_ffi st \<and> held st 2 = Some KTable \<and>
     Some KTable = map_option kind_of (heap (proc st) 2)"
  using invoked_reachable handles_match_heap [OF invoked_reachable, of 2] by fastforce

theorem no_undefined_behaviour_witness:
  "\<exists>r. perform sample_ffi sample_invoke one_engine = Some r"
  using no_undefined_behaviour [OF one_engine_reachable _ sample_never_aborts, of sample_invoke]
  by (auto simp: one_engine_session_def sample_invoke_def holds_kind_def)

end
