(* ===== verification/Ffi_Results.thy ===== *)
theory Ffi_Results
  imports Ffi_Calls
begin

text \<open>
  What the calls of the C interface return: the codes and out parameters of the two invocations, the
  requests that are refused before an engine sees them, the denial of an identity, the delegated
  credentials a result may carry, the one install an engine gets, and the worker threads of the
  runtime.
\<close>

section \<open>How an invocation ends\<close>

definition failure_codes :: "c_int set" where
  "failure_codes = {RC_INVALID_HANDLE, RC_INVALID_INPUT, RC_PARSE_ERROR, RC_TIMEOUT, RC_PANIC}"

lemma RC_OK_no_failure: "RC_OK \<notin> failure_codes"
  by (simp add: failure_codes_def rc_defs)

definition fails_with :: "c_int + 'a \<Rightarrow> bool" where
  "fails_with r \<longleftrightarrow> (\<forall>rc. r = Inl rc \<longrightarrow> rc \<in> failure_codes)"

lemma fails_with_rbind: "fails_with x \<Longrightarrow> (\<And>y. fails_with (f y)) \<Longrightarrow> fails_with (rbind x f)"
  by (cases x) (auto simp: fails_with_def)

lemma fails_with_simps [simp]:
  "fails_with (Inr x)" "fails_with (Inl rc) \<longleftrightarrow> rc \<in> failure_codes"
  "fails_with (ok_or rc v) \<longleftrightarrow> v \<noteq> None \<or> rc \<in> failure_codes"
  by (auto simp: fails_with_def ok_or_def split: option.splits)

lemma failure_codes_simps [simp]:
  "RC_INVALID_HANDLE \<in> failure_codes" "RC_INVALID_INPUT \<in> failure_codes" "RC_PARSE_ERROR \<in> failure_codes"
  "RC_TIMEOUT \<in> failure_codes" "RC_PANIC \<in> failure_codes"
  by (simp_all add: failure_codes_def)

lemma fails_with_rejects:
  "fails_with (reject_removed_hook name)" "fails_with (reject_resolved_identity i)"
  "fails_with (reject_resolved_identity_payload name p)"
  by (simp_all add: reject_removed_hook_def reject_resolved_identity_def
      reject_resolved_identity_payload_def split: option.splits ffi_payload.splits)

lemma decode_request_fails: "fails_with (decode_request E n t p x)"
  unfolding decode_request_def
  by (intro fails_with_rbind) (simp_all add: fails_with_rejects fails_with_rbind split: sum.splits)

lemma decode_request_code: "decode_request E n t p x = Inl rc \<Longrightarrow> rc \<in> failure_codes"
  using decode_request_fails [of E n t p x] by (simp add: fails_with_def)

lemma safe_rc_code: "\<forall>v. r \<noteq> SafeOk v \<Longrightarrow> safe_rc r \<in> failure_codes"
  by (cases r) (auto simp: failure_codes_def)

lemma resolve_identity_code: "resolve_identity E h i x s = (Refuse rc, s') \<Longrightarrow> rc \<in> failure_codes"
  by (auto simp: resolve_identity_def reject_resolved_identity_def failure_codes_def
      split: if_split_asm option.split_asm sum.split_asm prod.split_asm SafeRun.split_asm)

text \<open>Either a call fails with nothing handed out, or it finishes a pipeline result, on a heap in
  which no engine exposes credentials that did not before.\<close>

definition finishes ::
  "('e, 'o) ffi_env \<Rightarrow> ptr \<Rightarrow> 8 word \<Rightarrow> ('e, 'o) process \<Rightarrow> c_int \<times> outs \<times> ('e, 'o) process \<Rightarrow> bool" where
  "finishes E h t s res \<longleftrightarrow>
     fst res \<in> failure_codes \<and> fst (snd res) = null_outs \<or>
     (\<exists>s' r bg. exposing s' \<subseteq> exposing s \<and> (fresh s \<longrightarrow> fresh s') \<and>
        finish_pipeline_result E (exposes h s') r bg t s' = res)"

lemma take_table_fresh: "take_table p s = Some (t, s') \<Longrightarrow> fresh s \<Longrightarrow> fresh s'"
  using take_table_takes [of p s t s'] by (simp add: takes_def)

lemma finishes_later:
  assumes "same_shape s s1" "exposing s1 = exposing s" "finishes E h t s1 res"
  shows "finishes E h t s res"
  using assms fresh_same_shape [OF assms(1)] by (simp add: finishes_def)

lemma finishes_now: "finishes E h t s (finish_pipeline_result E (exposes h s) r bg t s)"
  by (auto simp: finishes_def)

lemma finishes_failure: "rc \<in> failure_codes \<Longrightarrow> finishes E h t s (rc, null_outs, s')"
  by (simp add: finishes_def)

text \<open>The hook phase, shared by both invocations.\<close>

definition hook_phase ::
  "('e, 'o) ffi_env \<Rightarrow> ptr \<Rightarrow> string \<Rightarrow> 'o ffi_payload \<Rightarrow> 'o \<Rightarrow> 'o option \<Rightarrow> 8 word \<Rightarrow> ('e, 'o) process
     \<Rightarrow> c_int \<times> outs \<times> ('e, 'o) process" where
  "hook_phase E h name payload x input t s =
     (case run_safely E (\<lambda>s. on_engine h (invoke_by_name E name payload x input) s Unwinds) s of
        (SafeOk (result, bg), s) \<Rightarrow> finish_pipeline_result E (exposes h s) result (Some bg) t s
      | (other, s) \<Rightarrow> (safe_rc other, null_outs, s))"

lemma hook_phase_finishes: "finishes E h t s (hook_phase E h name payload x input t s)"
proof -
  obtain r s1 where run: "run_safely E (\<lambda>s. on_engine h (invoke_by_name E name payload x input) s Unwinds) s
      = (r, s1)" by fastforce
  then have "finishes E h t s1 (hook_phase E h name payload x input t s)"
    by (auto simp: hook_phase_def finishes_now failure_codes_def intro: finishes_failure
        split: SafeRun.splits)
  with run_engine_shape(1) [OF run] exposing_run_engine(1) [OF run] show ?thesis
    by (rule finishes_later)
qed

lemma cpex_invoke_alt:
  "cpex_invoke E h n t p x c s =
     Option.bind (take_table c s) (\<lambda>(input, s).
     Option.bind (engine_ref h s) (\<lambda>inner.
       if inner = None then Some (RC_INVALID_HANDLE, null_outs, s)
       else case decode_request E n t p x of
         Inl rc \<Rightarrow> Some (rc, null_outs, s)
       | Inr (name, payload, extensions) \<Rightarrow> Some (hook_phase E h name payload extensions input t s)))"
  by (auto simp: cpex_invoke_def hook_phase_def intro!: Option.bind_cong split: sum.splits prod.splits SafeRun.splits)

lemma cpex_invoke_resolved_alt:
  "cpex_invoke_resolved E h i n t p x c s =
     Option.bind (take_table c s) (\<lambda>(input, s).
     Option.bind (engine_ref h s) (\<lambda>inner.
       if inner = None then Some (RC_INVALID_HANDLE, null_outs, s)
       else case decode_request E n t p x of
         Inl rc \<Rightarrow> Some (rc, null_outs, s)
       | Inr (name, payload, extensions) \<Rightarrow> Some
           (case resolve_identity E h i extensions s of
              (Refuse rc, s) \<Rightarrow> (rc, null_outs, s)
            | (Denial r, s) \<Rightarrow> finish_pipeline_result E (exposes h s) r None t s
            | (Proceed merged, s) \<Rightarrow> hook_phase E h name payload merged input t s)))"
  by (auto simp: cpex_invoke_resolved_def hook_phase_def intro!: Option.bind_cong
      split: sum.splits prod.splits SafeRun.splits resolution.splits)

lemma finishes_after_take:
  assumes "take_table c s = Some (tab, s1)" "finishes E h t s1 res"
  shows "finishes E h t s res"
  using assms(2) take_table_fresh [OF assms(1)] exposing_take(1) [OF assms(1)]
  unfolding finishes_def by blast

lemma invoke_finishes: "cpex_invoke E h n t p x c s = Some res \<Longrightarrow> finishes E h t s res"
  by (auto simp: cpex_invoke_alt bind_eq_Some_conv finishes_failure hook_phase_finishes
      dest: decode_request_code intro: finishes_after_take split: if_split_asm sum.split_asm)

lemma invoke_resolved_finishes:
  assumes "cpex_invoke_resolved E h i n t p x c s = Some res"
  shows "finishes E h t s res"
proof -
  from assms obtain tab s1 where tab: "take_table c s = Some (tab, s1)"
    by (auto simp: cpex_invoke_resolved_alt bind_eq_Some_conv)
  have phase: "finishes E h t s1 (case resolve_identity E h i y s1 of
        (Refuse rc, s) \<Rightarrow> (rc, null_outs, s)
      | (Denial r, s) \<Rightarrow> finish_pipeline_result E (exposes h s) r None t s
      | (Proceed merged, s) \<Rightarrow> hook_phase E h name payload merged tab t s)" for y name payload
  proof -
    obtain r s2 where id: "resolve_identity E h i y s1 = (r, s2)" by fastforce
    have "finishes E h t s2 (case r of Refuse rc \<Rightarrow> (rc, null_outs, s2)
        | Denial d \<Rightarrow> finish_pipeline_result E (exposes h s2) d None t s2
        | Proceed merged \<Rightarrow> hook_phase E h name payload merged tab t s2)"
      using id by (auto simp: finishes_now hook_phase_finishes
          intro: finishes_failure resolve_identity_code split: resolution.splits)
    with resolve_identity_shape [OF id] exposing_resolve [OF id] show ?thesis
      unfolding id by (simp add: finishes_later)
  qed
  from assms tab have "finishes E h t s1 res"
    by (auto simp: cpex_invoke_resolved_alt bind_eq_Some_conv finishes_failure phase
        dest: decode_request_code split: if_split_asm sum.split_asm)
  with tab show ?thesis by (rule finishes_after_take)
qed

text \<open>A finished result: the buffer holds the encoded result, unless there is none, and the boxes are
  live.\<close>

lemma into_raw_heap:
  "into_raw b s = (p, s') \<Longrightarrow> p = Some (next_addr s) \<and> heap s' = (heap s)(next_addr s \<mapsto> b) \<and>
     next_addr s' = Suc (next_addr s)"
  by (auto simp: into_raw_def)

definition buffer_of :: "out_buf \<Rightarrow> string \<Rightarrow> ('e, 'o) process \<Rightarrow> bool" where
  "buffer_of b d s \<longleftrightarrow>
     (case fst b of
        None \<Rightarrow> snd b = 0
      | Some a \<Rightarrow> snd b = of_nat (length d) \<and> heap s a = Some (ByteBuffer d) \<and> length d < 2 ^ 31)"

lemma finish_out:
  assumes "finish_pipeline_result E ex r bg t s = (rc, out, s')"
  shows "rc = RC_SERIALIZE_ERROR \<and> out = null_outs \<and> s' = s \<or>
    rc = RC_OK \<and> (\<exists>d a. mp_result E (ffi_result E ex t r) = Inr d \<and> buffer_of (result_out out) d s' \<and>
      context_table_out out = Some a \<and> heap s' a = Some (TableBox (pr_context_table r)) \<and>
      (case bg of None \<Rightarrow> bg_handle_out out = None
       | Some b \<Rightarrow> \<exists>g. bg_handle_out out = Some g \<and> heap s' g = Some (TasksBox b))) \<and>
      (\<forall>a < next_addr s. heap s' a = heap s a)"
proof (cases "mp_result E (ffi_result E ex t r)")
  case (Inl e)
  with assms show ?thesis by (simp add: finish_pipeline_result_def)
next
  case (Inr d)
  obtain buf s1 where buf: "alloc_bytes E d s = (buf, s1)" by fastforce
  then have s1: "buf = (None, 0) \<and> s1 = s \<or> buf = (Some (next_addr s), of_nat (length d)) \<and> length d < 2 ^ 31 \<and>
      heap s1 = (heap s)(next_addr s \<mapsto> ByteBuffer d) \<and> next_addr s1 = Suc (next_addr s)"
    by (auto simp: alloc_bytes_def into_raw_def split: if_split_asm)
  then have buf_s1: "buffer_of buf d s1" "next_addr s \<le> next_addr s1"
      "\<forall>a < next_addr s. heap s1 a = heap s a" "\<forall>a. fst buf = Some a \<longrightarrow> a < next_addr s1"
    by (auto simp: buffer_of_def)
  let ?a = "next_addr s1" and ?g = "Suc (next_addr s1)"
  from assms Inr buf
  have "rc = RC_OK" "result_out out = buf" "context_table_out out = Some ?a"
      "bg_handle_out out = (case bg of None \<Rightarrow> None | Some b \<Rightarrow> Some ?g)"
      "heap s' = (case bg of None \<Rightarrow> (heap s1)(?a \<mapsto> TableBox (pr_context_table r))
         | Some b \<Rightarrow> (heap s1)(?a \<mapsto> TableBox (pr_context_table r), ?g \<mapsto> TasksBox b))"
    by (auto simp: finish_pipeline_result_def into_raw_def split: option.splits)
  moreover from this(5) buf_s1 have "buffer_of buf d s'" "\<forall>a < next_addr s. heap s' a = heap s a"
    by (auto simp: buffer_of_def split: option.splits)
  ultimately show ?thesis using Inr by (auto split: option.splits)
qed

section \<open>Requests and results, stated on their own\<close>

text \<open>The bytes of a payload decode to \<open>payload\<close> under type \<open>t\<close>.\<close>

fun decodes :: "('e, 'o) ffi_env \<Rightarrow> 8 word \<Rightarrow> string \<Rightarrow> 'o ffi_payload \<Rightarrow> bool" where
  "decodes E t bytes (GenericPayload v) \<longleftrightarrow> t = 0 \<and> mp_de_json E bytes = Inr v"
| "decodes E t bytes (CmfMessage m) \<longleftrightarrow> t = 1 \<and> mp_de_message E bytes = Inr m"
| "decodes E t bytes (Identity i) \<longleftrightarrow> t = 2 \<and> mp_de_identity E bytes = Inr i"
| "decodes E t bytes (OtherPayload _) \<longleftrightarrow> False"

text \<open>A request that names an existing hook, whose buffers decode to \<open>payload\<close> and \<open>exts\<close>, and that does
  not set a resolver's output itself.\<close>

definition well_formed_request ::
  "('e, 'o) ffi_env \<Rightarrow> c_buf \<Rightarrow> 8 word \<Rightarrow> c_buf \<Rightarrow> c_buf \<Rightarrow> string \<Rightarrow> 'o ffi_payload \<Rightarrow> 'o \<Rightarrow> bool" where
  "well_formed_request E n t p x name payload exts \<longleftrightarrow>
     c_str_to_slice n = Some name \<and> removed_hook_replacement name = None \<and>
     (case c_bytes_to_slice p of None \<Rightarrow> False | Some bytes \<Rightarrow> decodes E t bytes payload) \<and>
     (case payload of Identity i \<Rightarrow> name \<noteq> ''identity.resolve'' \<or> resolved_identity_fields i = [] | _ \<Rightarrow> True) \<and>
     (if sint (snd x) \<le> 0 then exts = default_extensions E
      else (case c_bytes_to_slice x of None \<Rightarrow> False | Some bytes \<Rightarrow> mp_de_extensions E bytes = Inr exts))"

lemma deserialized: "ffi_deserialize_payload E t bytes = Inr payload \<longleftrightarrow> decodes E t bytes payload"
  by (cases payload)
     (auto simp: ffi_deserialize_payload_def PAYLOAD_GENERIC_def PAYLOAD_CMF_MESSAGE_def PAYLOAD_IDENTITY_def
       with_context_def split: sum.splits)

lemma well_formed_decoded:
  assumes "well_formed_request E n t p x name payload exts"
  shows "decode_request E n t p x = Inr (name, payload, exts)"
proof -
  from assms obtain bytes where "c_bytes_to_slice p = Some bytes" "ffi_deserialize_payload E t bytes = Inr payload"
    by (auto simp: well_formed_request_def deserialized split: option.splits)
  moreover have "reject_resolved_identity_payload name payload = Inr ()"
    using assms by (auto simp: well_formed_request_def reject_resolved_identity_payload_def
        reject_resolved_identity_def split: ffi_payload.splits)
  ultimately show ?thesis
    using assms by (auto simp: well_formed_request_def decode_request_def reject_removed_hook_def
        split: option.splits)
qed

text \<open>\<open>handed_out E d table bg n out s'\<close>: the out parameters of a call whose first free address was \<open>n\<close>
  and whose encoded result is \<open>d\<close>. The buffer holds exactly \<open>d\<close> under its own length; it is null only
  when \<open>d\<close> is empty, too long for its length to be told, or not granted by the allocator. The context
  table and the tasks, if there are any, are live in boxes of their own.\<close>

definition handed_out ::
  "('e, 'o) ffi_env \<Rightarrow> string \<Rightarrow> 'o \<Rightarrow> 'o option \<Rightarrow> nat \<Rightarrow> outs \<Rightarrow> ('e, 'o) process \<Rightarrow> bool" where
  "handed_out E d table bg n out s' \<longleftrightarrow>
     (if d \<noteq> [] \<and> length d < 2 ^ 31 \<and> alloc_gives E n (length d)
      then (case result_out out of
              (None, _) \<Rightarrow> False
            | (Some a, len) \<Rightarrow> n \<le> a \<and> heap s' a = Some (ByteBuffer d) \<and> sint len = int (length d))
      else result_out out = (None, 0)) \<and>
     (case context_table_out out of
        None \<Rightarrow> False | Some a \<Rightarrow> n \<le> a \<and> heap s' a = Some (TableBox table)) \<and>
     (case (bg_handle_out out, bg) of
        (None, None) \<Rightarrow> True
      | (Some a, Some b) \<Rightarrow> n \<le> a \<and> heap s' a = Some (TasksBox b)
      | _ \<Rightarrow> False)"

lemma handed_buffer:
  "handed_out E d table bg n out s' \<Longrightarrow> d \<noteq> [] \<Longrightarrow> length d < 2 ^ 31 \<Longrightarrow> alloc_gives E n (length d) \<Longrightarrow>
     \<exists>a. fst (result_out out) = Some a \<and> heap s' a = Some (ByteBuffer d)"
  by (cases "result_out out") (auto simp: handed_out_def split: option.splits)

lemma length_as_c_int: "length d < 2 ^ 31 \<Longrightarrow> sint (of_nat (length d) :: c_int) = int (length d)"
  by (simp add: signed_of_nat signed_take_bit_int_eq_self)

lemma finish_exact:
  assumes "finish_pipeline_result E ex r bg t s = (rc, out, s')"
  shows "(case mp_result E (ffi_result E ex t r) of
       Inl _ \<Rightarrow> rc = RC_SERIALIZE_ERROR \<and> out = null_outs
     | Inr d \<Rightarrow> rc = RC_OK \<and> handed_out E d (pr_context_table r) bg (next_addr s) out s') \<and>
    (\<forall>a < next_addr s. heap s' a = heap s a)"
proof (cases "mp_result E (ffi_result E ex t r)")
  case (Inl e)
  with assms show ?thesis by (simp add: finish_pipeline_result_def)
next
  case (Inr d)
  let ?gives = "d \<noteq> [] \<and> length d < 2 ^ 31 \<and> alloc_gives E (next_addr s) (length d)"
  let ?s1 = "if ?gives then snd (into_raw (ByteBuffer d) s) else s"
  have buf: "alloc_bytes E d s = (if ?gives then (Some (next_addr s), of_nat (length d)) else (None, 0), ?s1)"
    by (auto simp: alloc_bytes_def into_raw_def)
  have s1: "heap ?s1 = (if ?gives then (heap s)(next_addr s \<mapsto> ByteBuffer d) else heap s)"
    "next_addr ?s1 = (if ?gives then Suc (next_addr s) else next_addr s)"
    by (simp_all add: into_raw_def)
  show ?thesis
    using assms Inr buf s1 length_as_c_int [of d]
    by (cases ?gives; cases bg) (auto simp: finish_pipeline_result_def handed_out_def into_raw_def)
qed

text \<open>What the encoded record says: the verdict, the violation, the metadata and the errors of the
  pipeline, and the modified payload or, when it cannot be encoded, one more error; credentials only
  from an allowing result of an engine that exposes them.\<close>

definition faithful_result ::
  "('e, 'o) ffi_env \<Rightarrow> bool \<Rightarrow> 8 word \<Rightarrow> 'o PipelineResult \<Rightarrow> FfiPipelineResult \<Rightarrow> bool" where
  "faithful_result E exposed t r f \<longleftrightarrow>
     fr_continue_processing f = pr_continue_processing r \<and> fr_violation f = pr_violation r \<and>
     fr_metadata f = pr_metadata r \<and> fr_payload_modified f = pr_payload_modified r \<and>
     (case pr_modified_payload r of
        None \<Rightarrow> (fr_payload_type f, fr_modified_payload f, fr_errors f) = (t, None, pr_errors r)
      | Some p \<Rightarrow>
          (case ffi_serialize_payload E p of
             Inr (t', b) \<Rightarrow> (fr_payload_type f, fr_modified_payload f, fr_errors f) = (t', Some b, pr_errors r)
           | Inl _ \<Rightarrow> fr_modified_payload f = None \<and> butlast (fr_errors f) = pr_errors r)) \<and>
     (fr_delegated_credentials f = [] \<or> exposed \<and> pr_continue_processing r)"

lemma result_faithful: "faithful_result E exposed t r (ffi_result E exposed t r)"
  by (auto simp: faithful_result_def ffi_result_def host_delegated_credentials_def Let_def
      split: option.splits sum.splits prod.splits)

lemma run_engine_exact:
  assumes "engine_ref h s1 = Some (Some i)" "shared_runtime E s1 \<noteq> None" "f (engine_value i) = (outcome, e)"
    and "run_safely E (\<lambda>s. on_engine h f s Unwinds) s1 = (r, s2)"
  shows "r = (case outcome of Returns (InTime v) \<Rightarrow> SafeOk v | Returns TimedOut \<Rightarrow> Timeout | Unwinds \<Rightarrow> Panicked) \<and>
    engine_ref h s2 = Some (Some (i\<lparr> engine_value := e \<rparr>)) \<and> next_addr s2 = next_addr s1 \<and>
    (\<forall>b. heap s2 b = (if Some b = h then Some (EngineBox (i\<lparr> engine_value := e \<rparr>)) else heap s1 b))"
proof -
  from assms(2) obtain s where s: "shared_runtime E s1 = Some s" by auto
  then have heap: "heap s = heap s1" "next_addr s = next_addr s1"
    by (auto simp: shared_runtime_def split: option.splits if_splits)
  from assms(1) obtain a where a: "h = Some a" "heap s1 a = Some (EngineBox i)"
    by (auto simp: engine_ref_def split: option.splits block.splits)
  have "on_engine h f s Unwinds = (outcome, put_engine a (i\<lparr> engine_value := e \<rparr>) s)"
    using a heap assms(3) by (simp add: on_engine_def)
  with s assms(4) show ?thesis
    using a heap by (auto simp: run_safely_def put_engine_def engine_ref_def
        split: unwinding.splits timed.splits)
qed

section \<open>The contract of an invocation\<close>

text \<open>Only the engine behind the handle may differ in an old allocation.\<close>

definition engine_left :: "ptr \<Rightarrow> 'e CpexEngineInner \<Rightarrow> ('e, 'o) process \<Rightarrow> ('e, 'o) process \<Rightarrow> bool" where
  "engine_left h i s s' \<longleftrightarrow>
     (\<forall>b < next_addr s. heap s' b = (if Some b = h then Some (EngineBox i) else heap s b))"

text \<open>The result of a finished pipeline, or the code of its encoding error, with the engine as the run
  left it.\<close>

definition result_returned ::
  "('e, 'o) ffi_env \<Rightarrow> bool \<Rightarrow> 8 word \<Rightarrow> 'o PipelineResult \<Rightarrow> 'o option \<Rightarrow> nat \<Rightarrow> c_int \<Rightarrow> outs
     \<Rightarrow> ('e, 'o) process \<Rightarrow> bool" where
  "result_returned E exposed t r bg n rc out s' \<longleftrightarrow>
     (let f = ffi_result E exposed t r in
      faithful_result E exposed t r f \<and>
      (case mp_result E f of
         Inl _ \<Rightarrow> rc = RC_SERIALIZE_ERROR \<and> out = null_outs
       | Inr d \<Rightarrow> rc = RC_OK \<and> handed_out E d (pr_context_table r) bg n out s'))"

lemma finish_returned:
  assumes "finish_pipeline_result E (exposes h s2) r bg t s2 = (rc, out, s')"
    and "engine_ref h s2 = Some (Some j)" "next_addr s2 = next_addr s1"
    and "\<forall>b. heap s2 b = (if Some b = h then Some (EngineBox j) else heap s1 b)"
  shows "result_returned E (expose_delegated_credentials j) t r bg (next_addr s1) rc out s' \<and>
    engine_left h j s1 s'"
proof -
  have "exposes h s2 = expose_delegated_credentials j" using assms(2) by (simp add: exposes_def)
  note * = finish_exact [OF assms(1), unfolded this assms(3)]
  with assms(4) result_faithful show ?thesis
    by (simp add: result_returned_def engine_left_def Let_def)
qed

text \<open>C38: What a well-formed request gets back from an invocation, on a live engine and a runtime that
  could be built. If the engine panics or the wall clock runs out, that is the code and nothing is
  handed out. If it finishes, the encoding error is the code and nothing is handed out, or the call
  is OK, the buffer holds exactly the encoded result under its own length (null only if the encoding is
  empty, 2 GiB or more, or the allocator refuses), and the context table and the background tasks are
  live. Nothing else changes but the engine and the box of the given context table. The fused call
  does exactly the same when it is given no identity or no identity hook is registered.\<close>

theorem invocation_outs:
  assumes "take_table c s = Some (tab, s1)" "engine_ref h s = Some (Some i)" "shared_runtime E s1 \<noteq> None"
    and "well_formed_request E n t p x name payload exts"
    and "invoke_by_name E name payload exts tab (engine_value i) = (outcome, e)"
  shows "(\<exists>rc out s'. cpex_invoke E h n t p x c s = Some (rc, out, s') \<and>
      engine_left h (i\<lparr> engine_value := e \<rparr>) s1 s' \<and>
      (case outcome of
         Unwinds \<Rightarrow> rc = RC_PANIC \<and> out = null_outs
       | Returns TimedOut \<Rightarrow> rc = RC_TIMEOUT \<and> out = null_outs
       | Returns (InTime (r, bg)) \<Rightarrow>
           result_returned E (expose_delegated_credentials i) t r (Some bg) (next_addr s1) rc out s')) \<and>
    (sint (snd idb) \<le> 0 \<or> \<not> has_hooks_for E (engine_value i) ''identity.resolve'' \<longrightarrow>
      cpex_invoke_resolved E h idb n t p x c s = cpex_invoke E h n t p x c s)"
proof -
  note keep = take_keeps_engine(1) [OF assms(1,2)]
  let ?f = "invoke_by_name E name payload exts tab"
  obtain r s2 where run: "run_safely E (\<lambda>s. on_engine h ?f s Unwinds) s1 = (r, s2)" by fastforce
  note exact = run_engine_exact [OF keep assms(3,5) run]
  have call: "cpex_invoke E h n t p x c s = Some (hook_phase E h name payload exts tab t s1)"
    using assms(1) keep well_formed_decoded [OF assms(4)] by (simp add: cpex_invoke_alt)
  moreover have "cpex_invoke_resolved E h idb n t p x c s = Some (hook_phase E h name payload exts tab t s1)"
    if "sint (snd idb) \<le> 0 \<or> \<not> has_hooks_for E (engine_value i) HOOK_IDENTITY_RESOLVE"
    using assms(1) keep well_formed_decoded [OF assms(4)] that
    by (auto simp: cpex_invoke_resolved_alt resolve_identity_def)
  moreover obtain rc out s' where res: "hook_phase E h name payload exts tab t s1 = (rc, out, s')"
    by (metis prod_cases3)
  have "engine_left h (i\<lparr> engine_value := e \<rparr>) s1 s' \<and>
      (case outcome of
         Unwinds \<Rightarrow> rc = RC_PANIC \<and> out = null_outs
       | Returns TimedOut \<Rightarrow> rc = RC_TIMEOUT \<and> out = null_outs
       | Returns (InTime (r, bg)) \<Rightarrow>
           result_returned E (expose_delegated_credentials i) t r (Some bg) (next_addr s1) rc out s')"
  proof (cases "\<exists>v. outcome = Returns (InTime v)")
    case True
    then obtain res' bg where o: "outcome = Returns (InTime (res', bg))" by auto
    with res run exact have "finish_pipeline_result E (exposes h s2) res' (Some bg) t s2 = (rc, out, s')"
      by (simp add: hook_phase_def)
    from finish_returned [OF this, of "i\<lparr> engine_value := e \<rparr>" s1] exact o show ?thesis by simp
  next
    case False
    with res run exact show ?thesis
      by (auto simp: hook_phase_def engine_left_def split: unwinding.splits timed.splits)
  qed
  ultimately show ?thesis using res by simp
qed

section \<open>Requests that reach no engine\<close>

definition presets_identity :: "('e, 'o) ffi_env \<Rightarrow> string \<Rightarrow> 8 word \<Rightarrow> c_buf \<Rightarrow> bool" where
  "presets_identity E name t p \<longleftrightarrow> name = HOOK_IDENTITY_RESOLVE \<and>
     (\<exists>bytes idp. c_bytes_to_slice p = Some bytes \<and> decodes E t bytes (Identity idp) \<and>
        resolved_identity_fields idp \<noteq> [])"

text \<open>The identity buffer of the fused call sets a resolver's output itself.\<close>

definition forged_identity :: "('e, 'o) ffi_env \<Rightarrow> c_buf \<Rightarrow> bool" where
  "forged_identity E idb \<longleftrightarrow>
     (case c_bytes_to_slice idb of None \<Rightarrow> False
      | Some bytes \<Rightarrow> (case mp_de_identity E bytes of Inl _ \<Rightarrow> False
          | Inr idp \<Rightarrow> resolved_identity_fields idp \<noteq> []))"

lemma bytes_positive: "c_bytes_to_slice b = Some bytes \<Longrightarrow> sint (snd b) > 0"
  by (auto simp: c_bytes_to_slice_def split: prod.splits if_splits)

lemma refused_request:
  assumes "c_str_to_slice n = Some name"
    and "removed_hook_replacement name \<noteq> None \<or> presets_identity E name t p"
  shows "decode_request E n t p x = Inl RC_INVALID_INPUT"
proof (cases "removed_hook_replacement name")
  case None
  with assms(2) obtain bytes idp where "name = HOOK_IDENTITY_RESOLVE" "c_bytes_to_slice p = Some bytes"
      "ffi_deserialize_payload E t bytes = Inr (Identity idp)" "resolved_identity_fields idp \<noteq> []"
    by (auto simp only: presets_identity_def deserialized)
  with assms(1) None show ?thesis
    by (simp add: decode_request_def reject_removed_hook_def reject_resolved_identity_payload_def
        reject_resolved_identity_def)
next
  case (Some r)
  with assms(1) show ?thesis by (simp add: decode_request_def reject_removed_hook_def)
qed

lemma refused_identity:
  assumes "engine_ref h s = Some (Some i)" "has_hooks_for E (engine_value i) HOOK_IDENTITY_RESOLVE"
    and "forged_identity E idb"
  shows "resolve_identity E h idb exts s = (Refuse RC_INVALID_INPUT, s)"
proof -
  from assms(3) obtain bytes idp where "c_bytes_to_slice idb = Some bytes" "mp_de_identity E bytes = Inr idp"
      "resolved_identity_fields idp \<noteq> []"
    by (auto simp: forged_identity_def split: option.splits sum.splits)
  with assms(1,2) bytes_positive [of idb bytes] show ?thesis
    by (simp add: resolve_identity_def reject_resolved_identity_def)
qed

text \<open>C30: A request under a hook name that was removed and an identity request that already carries a
  resolver's output are refused by both invocations as invalid input, and so is, by the fused call, a
  well-formed request beside an identity that already carries a resolver's output. No engine is
  called: all that changes is that the context table given to the call is gone.\<close>

theorem refused_requests_reach_no_engine:
  assumes "engine_ref h s = Some (Some i)" "take_table c s = Some (tab, s1)"
  shows "(c_str_to_slice n = Some name \<and>
        (removed_hook_replacement name \<noteq> None \<or> presets_identity E name t p) \<longrightarrow>
      cpex_invoke E h n t p x c s = Some (RC_INVALID_INPUT, null_outs, s1) \<and>
      cpex_invoke_resolved E h idb n t p x c s = Some (RC_INVALID_INPUT, null_outs, s1)) \<and>
    (well_formed_request E n t p x name payload exts \<and>
        has_hooks_for E (engine_value i) ''identity.resolve'' \<and> forged_identity E idb \<longrightarrow>
      cpex_invoke_resolved E h idb n t p x c s = Some (RC_INVALID_INPUT, null_outs, s1))"
proof -
  note keep = take_keeps_engine(1) [OF assms(2,1)]
  have "cpex_invoke_resolved E h idb n t p x c s = Some (RC_INVALID_INPUT, null_outs, s1)"
    if "well_formed_request E n t p x name payload exts"
      "has_hooks_for E (engine_value i) ''identity.resolve''" "forged_identity E idb"
    using assms(2) keep well_formed_decoded [OF that(1)] refused_identity [OF keep that(2,3)]
    by (simp add: cpex_invoke_resolved_alt)
  moreover have "cpex_invoke E h n t p x c s = Some (RC_INVALID_INPUT, null_outs, s1) \<and>
      cpex_invoke_resolved E h idb n t p x c s = Some (RC_INVALID_INPUT, null_outs, s1)"
    if "c_str_to_slice n = Some name" "removed_hook_replacement name \<noteq> None \<or> presets_identity E name t p"
    using assms(2) keep refused_request [OF that] by (simp add: cpex_invoke_alt cpex_invoke_resolved_alt)
  ultimately show ?thesis by blast
qed

section \<open>A denied identity\<close>

text \<open>C29: A denied identity ends the call. When the engine's identity hook, run on a well-formed request
  with an identity that sets no resolver output, finishes with a result that does not continue,
  whatever else it says, the named hook is not run: the engine is as the identity hook left it. The
  caller gets that result, under its own encoding, which says not to continue and carries no
  delegated credential, its context table, and no background tasks; or the encoding error and
  nothing.\<close>

theorem identity_denial_ends_call:
  assumes "take_table c s = Some (tab, s1)" "engine_ref h s = Some (Some i)" "shared_runtime E s1 \<noteq> None"
    and "well_formed_request E n t p x name payload exts"
    and "has_hooks_for E (engine_value i) ''identity.resolve''"
    and "c_bytes_to_slice idb = Some bytes" "mp_de_identity E bytes = Inr idp"
    and "resolved_identity_fields idp = []"
    and "invoke_by_name E ''identity.resolve'' (Identity idp) exts None (engine_value i) =
           (Returns (InTime (r, bg)), e)"
    and "\<not> pr_continue_processing r"
  shows "\<exists>rc out s'. cpex_invoke_resolved E h idb n t p x c s = Some (rc, out, s') \<and>
    engine_left h (i\<lparr> engine_value := e \<rparr>) s1 s' \<and>
    result_returned E (expose_delegated_credentials i) t r None (next_addr s1) rc out s' \<and>
    \<not> fr_continue_processing (ffi_result E (expose_delegated_credentials i) t r) \<and>
    fr_delegated_credentials (ffi_result E (expose_delegated_credentials i) t r) = []"
proof -
  note keep = take_keeps_engine(1) [OF assms(1,2)]
  let ?f = "invoke_by_name E HOOK_IDENTITY_RESOLVE (Identity idp) exts None"
  obtain q s2 where run: "run_safely E (\<lambda>s. on_engine h ?f s Unwinds) s1 = (q, s2)" by fastforce
  note exact = run_engine_exact [OF keep assms(3,9) run]
  then have "resolve_identity E h idb exts s1 = (Denial r, s2)"
    using keep assms(5-8,10) run bytes_positive [OF assms(6)]
    by (simp add: resolve_identity_def reject_resolved_identity_def)
  moreover obtain rc out s' where fin: "finish_pipeline_result E (exposes h s2) r None t s2 = (rc, out, s')"
    by (metis prod_cases3)
  ultimately have "cpex_invoke_resolved E h idb n t p x c s = Some (rc, out, s')"
    using assms(1) keep well_formed_decoded [OF assms(4)] by (simp add: cpex_invoke_resolved_alt)
  moreover have "result_returned E (expose_delegated_credentials i) t r None (next_addr s1) rc out s' \<and>
      engine_left h (i\<lparr> engine_value := e \<rparr>) s1 s'"
    using finish_returned [OF fin, of "i\<lparr> engine_value := e \<rparr>" s1] exact by simp
  moreover from this assms(10) have "\<not> fr_continue_processing (ffi_result E (expose_delegated_credentials i) t r)"
    "fr_delegated_credentials (ffi_result E (expose_delegated_credentials i) t r) = []"
    by (simp_all add: result_returned_def faithful_result_def Let_def)
  ultimately show ?thesis by blast
qed

section \<open>Delegated credentials\<close>

text \<open>The credentials of a result are exactly those of the tokens minted for it: none unless they are
  exposed and the pipeline allowed the request, one per token that is not blank, with the prefixed
  token as header value, ordered by target, audience and header.\<close>

theorem delegated_credentials_admitted:
  "(c \<in> set (host_delegated_credentials E exposed r) \<longleftrightarrow>
     exposed \<and> pr_continue_processing r \<and>
     (\<exists>exts tokens k tok. pr_modified_extensions r = Some exts \<and> raw_delegated_tokens E exts = Some tokens \<and>
        (k, tok) \<in> set tokens \<and> trim (rdt_token tok) \<noteq> [] \<and>
        c = \<lparr> fc_header = rdt_outbound_header tok, fc_value = rdt_outbound_prefix tok @ rdt_token tok,
              fc_delegator = dk_delegator_name k, fc_target = dk_target_name k,
              fc_audience = rdt_audience tok, fc_scopes = rdt_scopes tok,
              fc_expires_at = to_rfc3339 E (rdt_expires_at tok) \<rparr>)) \<and>
   sorted (map (\<lambda>c. (fc_target c, fc_audience c, fc_header c)) (host_delegated_credentials E exposed r))"
proof -
  have "sorted (map (\<lambda>c. (fc_target c, fc_audience c, fc_header c)) (host_delegated_credentials E exposed r))"
    by (simp add: host_delegated_credentials_def split: option.splits)
  then show ?thesis
    by (auto simp: host_delegated_credentials_def image_iff bind_eq_Some_conv split: option.splits) blast+
qed

lemma exposes_exposing: "exposes (Some a) s \<longleftrightarrow> a \<in> exposing s"
  by (auto simp: exposes_def engine_ref_def exposing_def split: option.splits block.splits)

text \<open>C17: No token bytes leave unless the caller asked for them. In every run of a caller that keeps the
  contract, an invocation on an engine on which the caller never called the install with the flag
  that exposes delegated credentials returns the encoding of a result without any.\<close>

theorem credentials_leave_only_on_opt_in:
  assumes "session_reachable E st" "a \<notin> opted st"
    and "cpex_invoke E (Some a) n t p x c (proc st) = Some (RC_OK, out, s') \<or>
         cpex_invoke_resolved E (Some a) i n t p x c (proc st) = Some (RC_OK, out, s')"
  shows "\<exists>r d. mp_result E (ffi_result E False t r) = Inr d \<and> buffer_of (result_out out) d s' \<and>
    fr_delegated_credentials (ffi_result E False t r) = []"
proof -
  from assms(3) have "finishes E (Some a) t (proc st) (RC_OK, out, s')"
    using invoke_finishes invoke_resolved_finishes by blast
  then obtain s2 r bg where fin: "exposing s2 \<subseteq> exposing (proc st)"
      "finish_pipeline_result E (exposes (Some a) s2) r bg t s2 = (RC_OK, out, s')"
    using RC_OK_no_failure by (auto simp: finishes_def)
  moreover have "exposing (proc st) \<subseteq> opted st"
    using ffi_session.reachable_inv [OF assms(1)] by (simp add: session_inv_def)
  ultimately have "\<not> exposes (Some a) s2" using assms(2) by (auto simp: exposes_exposing)
  moreover have "fr_delegated_credentials (ffi_result E False t r) = []"
    by (auto simp: ffi_result_def host_delegated_credentials_def Let_def split: option.splits sum.splits prod.splits)
  ultimately show ?thesis
    using finish_out [OF fin(2)] by (auto simp: rc_defs)
qed

section \<open>The one install\<close>

text \<open>An engine gets one install. Once a call has run it, successfully or into a panic, every later
  call with known flags returns that outcome again and changes nothing, whatever its flags ask for;
  a call with an unknown flag is refused.\<close>

theorem install_happens_once:
  assumes "cpex_apl_install E h f s = Some (rc, s')" "rc \<in> {RC_OK, RC_PANIC}"
  shows "cpex_apl_install E h f' s' =
    Some (if f' AND NOT CPEX_APL_KNOWN_FLAGS \<noteq> 0 then RC_INVALID_INPUT else rc, s')"
proof -
  from assms obtain a i where h: "h = Some a" "heap s a = Some (EngineBox i)"
    by (auto simp: cpex_apl_install_def engine_ref_def bind_eq_Some_conv rc_defs
        split: option.split_asm block.split_asm)
  obtain r e where "install_host_defaults E (f AND CPEX_APL_ALLOW_PRIVATE_DESTINATIONS \<noteq> 0) (engine_value i)
      = (r, e)" by fastforce
  with assms h have "(rc = RC_OK \<and> (\<exists>j. heap s' a = Some (EngineBox j) \<and> install_state j = Installed)) \<or>
      (rc = RC_PANIC \<and> (\<exists>j. heap s' a = Some (EngineBox j) \<and> install_state j = InstallFailed))"
    by (auto simp: cpex_apl_install_def engine_ref_def put_engine_def rc_defs
        split: if_split_asm InstallState.split_asm unwinding.split_asm)
  with h(1) show ?thesis by (auto simp: cpex_apl_install_def engine_ref_def)
qed

section \<open>Where the code and its documentation part\<close>

text \<open>A result too large for the interface is lost without an error. When the encoded result has
  2 GiB or more the call still returns OK, with handles for the context table and the tasks but a null
  result and length zero.\<close>

theorem ok_without_result:
  assumes "mp_result E (ffi_result E ex t r) = Inr d" "2 ^ 31 \<le> length d"
  shows "\<exists>out s'. finish_pipeline_result E ex r bg t s = (RC_OK, out, s') \<and>
    result_out out = (None, 0) \<and> context_table_out out \<noteq> None"
  using assms
  by (cases bg) (auto simp: finish_pipeline_result_def alloc_bytes_def into_raw_def)

text \<open>Loading a configuration ends with the code of the step that failed. A panic while the engine
  loads it is caught and reported; a panic in the parse and validation that come first is not, and
  takes the process down.\<close>

theorem load_config_outcome:
  assumes "engine_ref h s = Some (Some i)" "c_str_to_slice y = Some yaml"
  shows "map_option fst (cpex_load_config E h y s) =
    (case parse_config E yaml of
       Unwinds \<Rightarrow> None
     | Returns (Inl _) \<Rightarrow> Some RC_PARSE_ERROR
     | Returns (Inr _) \<Rightarrow> Some
         (case fst (load_config_yaml E yaml (engine_value i)) of
            Unwinds \<Rightarrow> RC_PANIC | Returns (Inl _) \<Rightarrow> RC_PIPELINE_ERROR | Returns (Inr _) \<Rightarrow> RC_OK))"
proof -
  from assms(1) obtain a where h: "h = Some a" "heap s a = Some (EngineBox i)"
    by (auto simp: engine_ref_def split: option.split_asm block.split_asm)
  obtain r e where "load_config_yaml E yaml (engine_value i) = (r, e)" by fastforce
  with assms h show ?thesis
    by (simp add: cpex_load_config_def on_engine_def split: unwinding.splits sum.splits)
qed

section \<open>The runtime's threads\<close>

lemma parse_digits_append:
  "parse_digits acc (s @ u) = Option.bind (parse_digits acc s) (\<lambda>n. parse_digits n u)"
  by (induction s arbitrary: acc) (auto split: option.splits)

lemma parse_digit: "d < 10 \<Longrightarrow> acc * 10 + d < 2 ^ 64 \<Longrightarrow> parse_digits acc [char_of (48 + d)] = Some (acc * 10 + d)"
  by (simp add: digit_value_def)

lemma parse_show_nat: "n < 2 ^ 64 \<Longrightarrow> parse_digits 0 (show_nat n) = Some n"
proof (induction n rule: show_nat.induct)
  case (1 n)
  show ?case
  proof (cases "n < 10")
    case True
    with "1.prems" parse_digit [of n 0] show ?thesis by (simp add: show_nat.simps [of n])
  next
    case False
    with 1 parse_digit [of "n mod 10" "n div 10"] show ?thesis
      by (simp add: show_nat.simps [of n] parse_digits_append)
  qed
qed

lemma parse_digits_bound: "parse_digits acc s = Some n \<Longrightarrow> acc < 2 ^ 64 \<Longrightarrow> n < 2 ^ 64"
  by (induction s arbitrary: acc) (auto split: option.split_asm if_split_asm)

lemma show_nat_not_Nil: "show_nat n \<noteq> []"
  by (subst show_nat.simps) simp

lemma show_nat_head: "hd (show_nat n) \<noteq> CHR ''+''"
proof (induction n rule: show_nat.induct)
  case (1 n)
  have "char_of (48 + n) \<noteq> CHR ''+''" if "n < 10"
  proof
    assume "char_of (48 + n) = CHR ''+''"
    then have "of_char (char_of (48 + n) :: char) = (of_char (CHR ''+'') :: nat)" by simp
    with that show False by simp
  qed
  with 1 show_nat_not_Nil [of "n div 10"] show ?case by (subst show_nat.simps) simp
qed

text \<open>The environment's worker count is a positive number of 64 bits, and every such number is read
  back from its decimal rendering.\<close>

lemma worker_threads_correct:
  "parse_worker_threads s = Some n \<Longrightarrow> 0 < n \<and> n < 2 ^ 64"
  "0 < n \<Longrightarrow> n < 2 ^ 64 \<Longrightarrow> parse_worker_threads (show_nat n) = Some n"
proof -
  show "parse_worker_threads s = Some n \<Longrightarrow> 0 < n \<and> n < 2 ^ 64"
    by (auto simp: parse_worker_threads_def parse_usize_def Let_def dest: parse_digits_bound
        split: option.split_asm if_split_asm list.split_asm)
  show "0 < n \<Longrightarrow> n < 2 ^ 64 \<Longrightarrow> parse_worker_threads (show_nat n) = Some n"
    using show_nat_not_Nil [of n] show_nat_head [of n] parse_show_nat [of n]
    by (cases "show_nat n") (auto simp: parse_worker_threads_def parse_usize_def)
qed

section \<open>Witnesses\<close>

lemma sample_engine_ref: "engine_ref (Some 0) one_engine = Some (Some (new_inner ()))"
  by (simp add: engine_ref_def one_engine_def)

lemma sample_no_table: "take_table None s = Some (None, s)"
  by (simp add: take_table_def)

lemma removed_name_read: "c_str_to_slice (Some ''token_delegate'', 14) = Some ''token_delegate''"
  by (simp add: c_str_to_slice_def c_bytes_to_slice_def utf8_step.simps utf8_width_def byte_in_def)

lemma sample_well_formed:
  "well_formed_request sample_ffi (Some ''echo'', 4) PAYLOAD_GENERIC (Some ''b'', 1) (None, 0)
     ''echo'' (GenericPayload (JString ''b'')) ''x''"
  by (simp add: well_formed_request_def echo_read c_bytes_to_slice_def removed_hook_replacement_def
      REMOVED_HOOKS_def sample_ffi_def PAYLOAD_GENERIC_def)

lemma sample_runtime: "shared_runtime sample_ffi one_engine \<noteq> None"
  by (simp add: shared_runtime_def one_engine_def)

theorem invocation_outs_witness:
  "\<exists>out s' a. cpex_invoke sample_ffi (Some 0) (Some ''echo'', 4) PAYLOAD_GENERIC (Some ''b'', 1) (None, 0) None one_engine
       = Some (RC_OK, out, s') \<and> fst (result_out out) = Some a \<and> heap s' a = Some (ByteBuffer ''result'') \<and>
     cpex_invoke_resolved sample_ffi (Some 0) (None, 0) (Some ''echo'', 4) PAYLOAD_GENERIC (Some ''b'', 1) (None, 0)
       None one_engine = Some (RC_OK, out, s')"
proof -
  have inv: "invoke_by_name sample_ffi ''echo'' (GenericPayload (JString ''b'')) ''x'' None (engine_value (new_inner ()))
      = (Returns (InTime (pipeline True (Some (GenericPayload (JString ''b''))) (Some ''x''), ''tasks'')), ())"
    by (simp add: sample_ffi_def)
  have "mp_result sample_ffi f = Inr ''result''" "alloc_gives sample_ffi k m" for f k m
    by (simp_all add: sample_ffi_def)
  with invocation_outs [OF sample_no_table sample_engine_ref sample_runtime sample_well_formed inv, of "(None, 0)"]
  show ?thesis
    by (fastforce simp: result_returned_def Let_def dest: handed_buffer)
qed

definition forging_ffi :: "(unit, string) ffi_env" where
  "forging_ffi = sample_ffi\<lparr> mp_de_identity := (\<lambda>b. Inr
     \<lparr> ip_raw_token = b, ip_source = SpiffeJwtSvid, ip_source_header = None, ip_headers = [],
       ip_client_host = None, ip_client_port = None, ip_subject = Some ''root'', ip_client = None,
       ip_caller_workload = None, ip_delegation = None, ip_raw_credentials = None,
       ip_resolved_at = None, ip_raw_claims = [] \<rparr>) \<rparr>"

theorem refused_requests_reach_no_engine_witness:
  "cpex_invoke sample_ffi (Some 0) (Some ''token_delegate'', 14) 0 (None, 0) (None, 0) None one_engine
     = Some (RC_INVALID_INPUT, null_outs, one_engine) \<and>
   cpex_invoke_resolved forging_ffi (Some 0) (Some ''t'', 1) (Some ''echo'', 4) PAYLOAD_GENERIC (Some ''b'', 1)
     (None, 0) None one_engine = Some (RC_INVALID_INPUT, null_outs, one_engine)"
proof -
  note refused = refused_requests_reach_no_engine [OF sample_engine_ref sample_no_table]
  have "removed_hook_replacement ''token_delegate'' \<noteq> None"
    by (simp add: removed_hook_replacement_def REMOVED_HOOKS_def)
  moreover have "well_formed_request forging_ffi (Some ''echo'', 4) PAYLOAD_GENERIC (Some ''b'', 1) (None, 0)
      ''echo'' (GenericPayload (JString ''b'')) ''x''"
    using sample_well_formed
    by (simp add: well_formed_request_def forging_ffi_def echo_read c_bytes_to_slice_def)
  moreover have "forged_identity forging_ffi (Some ''t'', 1)"
    by (simp add: forged_identity_def c_bytes_to_slice_def forging_ffi_def resolved_identity_fields_def)
  moreover have "has_hooks_for forging_ffi e k" for e k
    by (simp add: forging_ffi_def sample_ffi_def)
  ultimately show ?thesis using refused removed_name_read by blast
qed

theorem identity_denial_ends_call_witness:
  "\<exists>rc out s'. cpex_invoke_resolved sample_ffi (Some 0) (Some ''t'', 1) (Some ''echo'', 4)
       PAYLOAD_GENERIC (Some ''b'', 1) (None, 0) None one_engine = Some (RC_OK, out, s') \<and>
     bg_handle_out out = None \<and> heap s' 0 = heap one_engine 0"
proof -
  let ?idp = "\<lparr> ip_raw_token = ''t'', ip_source = SpiffeJwtSvid, ip_source_header = None, ip_headers = [],
       ip_client_host = None, ip_client_port = None, ip_subject = None, ip_client = None,
       ip_caller_workload = None, ip_delegation = None, ip_raw_credentials = None,
       ip_resolved_at = None, ip_raw_claims = [] \<rparr> :: string IdentityPayload"
  have id: "has_hooks_for sample_ffi (engine_value (new_inner ())) ''identity.resolve''"
    "c_bytes_to_slice (Some ''t'', 1) = Some ''t''" "mp_de_identity sample_ffi ''t'' = Inr ?idp"
    "resolved_identity_fields ?idp = []"
    by (simp_all add: sample_ffi_def c_bytes_to_slice_def resolved_identity_fields_def)
  have run: "invoke_by_name sample_ffi ''identity.resolve'' (Identity ?idp) ''x'' None (engine_value (new_inner ()))
      = (Returns (InTime (pipeline False (Some (Identity ?idp)) (Some ''x''), ''tasks'')), ())"
    by (simp add: sample_ffi_def)
  have "\<not> pr_continue_processing (pipeline False (Some (Identity ?idp)) (Some ''x''))"
    by (simp add: pipeline_def)
  moreover have "mp_result sample_ffi f = Inr ''result''" for f by (simp add: sample_ffi_def)
  ultimately show ?thesis
    using identity_denial_ends_call [OF sample_no_table sample_engine_ref sample_runtime sample_well_formed id run]
    by (fastforce simp: result_returned_def handed_out_def engine_left_def one_engine_def Let_def
        split: option.splits)
qed

theorem credentials_leave_only_on_opt_in_witness:
  "\<exists>r d. mp_result sample_ffi (ffi_result sample_ffi False PAYLOAD_GENERIC r) = Inr d \<and>
     buffer_of (Some 1, 6) d invoked"
  using credentials_leave_only_on_opt_in [OF one_engine_reachable, of 0]
    sample_invoked by (fastforce simp: one_engine_session_def)

theorem install_happens_once_witness:
  "\<exists>s'. cpex_apl_install sample_ffi (Some 0) 1 one_engine = Some (RC_OK, s') \<and>
     cpex_apl_install sample_ffi (Some 0) 3 s' = Some (RC_OK, s')"
proof -
  have "\<exists>s'. cpex_apl_install sample_ffi (Some 0) 1 one_engine = Some (RC_OK, s')"
    by (simp add: cpex_apl_install_def sample_engine_ref CPEX_APL_KNOWN_FLAGS_def
        CPEX_APL_ALLOW_PRIVATE_DESTINATIONS_def CPEX_APL_EXPOSE_DELEGATED_CREDENTIALS_def
        new_inner_def install_host_defaults_def sample_ffi_def)
  then obtain s' where "cpex_apl_install sample_ffi (Some 0) 1 one_engine = Some (RC_OK, s')" ..
  with install_happens_once [OF this, of 3] show ?thesis
    by (simp add: CPEX_APL_KNOWN_FLAGS_def CPEX_APL_ALLOW_PRIVATE_DESTINATIONS_def
        CPEX_APL_EXPOSE_DELEGATED_CREDENTIALS_def)
qed

theorem ok_without_result_witness:
  "\<exists>out s'. finish_pipeline_result (sample_ffi\<lparr> mp_result := (\<lambda>_. Inr (replicate (2 ^ 31) CHR ''x'')) \<rparr>)
       False (pipeline True None None) None 0 one_engine = (RC_OK, out, s') \<and> result_out out = (None, 0)"
  using ok_without_result [of "sample_ffi\<lparr> mp_result := (\<lambda>_. Inr (replicate (2 ^ 31) CHR ''x'')) \<rparr>" False 0
      "pipeline True None None" "replicate (2 ^ 31) CHR ''x''" None one_engine]
  by fastforce

theorem load_config_outcome_witness:
  "cpex_load_config (sample_ffi\<lparr> parse_config := (\<lambda>_. Unwinds) \<rparr>) (Some 0) (Some ''echo'', 4) one_engine = None"
  using load_config_outcome [OF sample_engine_ref echo_read, of "sample_ffi\<lparr> parse_config := (\<lambda>_. Unwinds) \<rparr>"]
  by simp

end
