(* ===== verification/Py_Lifecycle.thy ===== *)
theory Py_Lifecycle
  imports Host_Error
begin

text \<open>
  The lifecycle of the engine behind the Python class (\<^verbatim>\<open>bindings/python/src/manager.rs\<close>):
  \<^verbatim>\<open>initialize()\<close> and \<^verbatim>\<open>shutdown()\<close>, called any number of times and
  interleaved at their await points, with timeouts, cancelled awaitables and panics of the engine at
  any moment. The engine itself is code of another repository: what is observed of it is the
  \<open>log\<close> of the lifecycle calls it receives, newest first.
\<close>

section \<open>Errors of a lifecycle call\<close>

datatype panic_payload = PanicStr string | PanicString string | PanicOther

datatype JoinError = TaskPanicked panic_payload | TaskCancelled

datatype 'e LifecycleError =
    EngineShutDown
  | LifecycleTimeout
  | LifecyclePanicked string
  | EngineError 'e

fun panic_message :: "panic_payload \<Rightarrow> string" where
  "panic_message (PanicStr s) = s"
| "panic_message (PanicString s) = s"
| "panic_message PanicOther = ''unknown panic''"

fun join_error :: "JoinError \<Rightarrow> 'e LifecycleError" where
  "join_error (TaskPanicked p) = LifecyclePanicked (panic_message p)"
| "join_error TaskCancelled = LifecyclePanicked ''task was cancelled''"

text \<open>What \<^verbatim>\<open>tokio::time::timeout(timeout, work).await\<close> yields for a spawned task:
  \<open>None\<close> when the deadline passed, else how the task ended.\<close>

type_synonym 'a awaited = "(JoinError + 'a) option"

fun lifecycle_refresh_secrets :: "'a awaited \<Rightarrow> 'e LifecycleError + 'a" where
  "lifecycle_refresh_secrets (Some (Inr report)) = Inr report"
| "lifecycle_refresh_secrets (Some (Inl join_err)) = Inl (join_error join_err)"
| "lifecycle_refresh_secrets None = Inl LifecycleTimeout"

fun await_shutdown :: "unit awaited \<Rightarrow> 'e LifecycleError + unit" where
  "await_shutdown (Some (Inr _)) = Inr ()"
| "await_shutdown (Some (Inl join_err)) = Inl (join_error join_err)"
| "await_shutdown None = Inl LifecycleTimeout"

section \<open>State\<close>

text \<open>Who waits for the task that runs \<^verbatim>\<open>PolicyEngine::initialize\<close>: the call that
  spawned it, or the rollback task of a call that timed out. After the awaitable was cancelled
  nobody does, and the work goes on \<open>Unobserved\<close>.\<close>

datatype awaiter = ByCaller | ByRollback

datatype 'e init_call =
    WaitingForLock
  | LockHeld
  | Checked
  | Working awaiter
  | Unobserved
  | Worked awaiter "'e + unit"
  | Crashed panic_payload
  | RollingBack
  | RolledBack
  | RollbackCrashed
  | NotRolledBack
  | Abandoned
  | Returned "'e LifecycleError + unit"

datatype shutdown_task = ShutWaiting | ShutLockHeld | ShutWorking | ShutDone | ShutCrashed panic_payload

datatype 'e awaitable = Pending | Answered "'e LifecycleError + unit" | Cancelled

datatype holder = HeldByInit nat | HeldByShutdown nat

datatype engine_event =
    InitBegan nat
  | InitEnded nat
  | InitPanicked nat
  | ShutdownBegan
  | ShutdownEnded
  | ShutdownPanicked

record 'e Lifecycle =
  lock :: "holder option"
  shutdown_started :: bool
  engine_down :: bool
  inits :: "'e init_call list"
  shutdowns :: "(shutdown_task \<times> 'e awaitable) list"
  log :: "engine_event list"

definition lifecycle_new :: "'e Lifecycle" where
  "lifecycle_new = \<lparr> lock = None, shutdown_started = False, engine_down = False, inits = [],
     shutdowns = [], log = [] \<rparr>"

definition ensure_live :: "'e Lifecycle \<Rightarrow> 'e LifecycleError + unit" where
  "ensure_live s = (if shutdown_started s then Inl EngineShutDown else Inr ())"

definition init_to :: "nat \<Rightarrow> 'e init_call \<Rightarrow> 'e Lifecycle \<Rightarrow> 'e Lifecycle" where
  "init_to i c s = s\<lparr> inits := (inits s)[i := c] \<rparr>"

definition task_to :: "nat \<Rightarrow> shutdown_task \<Rightarrow> 'e Lifecycle \<Rightarrow> 'e Lifecycle" where
  "task_to k t s = s\<lparr> shutdowns := (shutdowns s)[k := (t, snd (shutdowns s ! k))] \<rparr>"

definition answer_to :: "nat \<Rightarrow> 'e awaitable \<Rightarrow> 'e Lifecycle \<Rightarrow> 'e Lifecycle" where
  "answer_to k a s = s\<lparr> shutdowns := (shutdowns s)[k := (fst (shutdowns s ! k), a)] \<rparr>"

definition logged :: "engine_event \<Rightarrow> 'e Lifecycle \<Rightarrow> 'e Lifecycle" where
  "logged e s = s\<lparr> log := e # log s \<rparr>"

definition unlock :: "'e Lifecycle \<Rightarrow> 'e Lifecycle" where
  "unlock s = s\<lparr> lock := None \<rparr>"

section \<open>The calls of the Python program\<close>

text \<open>\<^verbatim>\<open>initialize()\<close> after \<^verbatim>\<open>ensure_live\<close>, \<^verbatim>\<open>shutdown()\<close>,
  whose task starts before the awaitable is returned, and the cancellation of an awaitable. A
  cancelled \<^verbatim>\<open>initialize\<close> that holds the finished task's result drops it, and with
  it the lock guard.\<close>

inductive program_step :: "'e Lifecycle \<Rightarrow> 'e Lifecycle \<Rightarrow> bool" where
  call_initialize: "ensure_live s = Inr () \<Longrightarrow>
    program_step s (s\<lparr> inits := inits s @ [WaitingForLock] \<rparr>)"
| call_shutdown:
    "program_step s (s\<lparr> shutdown_started := True, shutdowns := shutdowns s @ [(ShutWaiting, Pending)] \<rparr>)"
| cancel_waiting: "i < length (inits s) \<Longrightarrow> inits s ! i = WaitingForLock \<Longrightarrow>
    program_step s (init_to i Abandoned s)"
| cancel_working: "i < length (inits s) \<Longrightarrow> inits s ! i = Working ByCaller \<Longrightarrow>
    program_step s (init_to i Unobserved s)"
| cancel_worked: "i < length (inits s) \<Longrightarrow> inits s ! i = Worked ByCaller r \<Longrightarrow>
    program_step s (init_to i Abandoned (unlock s))"
| cancel_crashed: "i < length (inits s) \<Longrightarrow> inits s ! i = Crashed p \<Longrightarrow>
    program_step s (init_to i Abandoned s)"
| cancel_shutdown: "k < length (shutdowns s) \<Longrightarrow> snd (shutdowns s ! k) = Pending \<Longrightarrow>
    program_step s (answer_to k Cancelled s)"

section \<open>The steps of the tasks\<close>

inductive task_step :: "'e Lifecycle \<Rightarrow> 'e Lifecycle \<Rightarrow> bool" where
  init_lock_timeout: "i < length (inits s) \<Longrightarrow> inits s ! i = WaitingForLock \<Longrightarrow>
    task_step s (init_to i (Returned (Inl LifecycleTimeout)) s)"
| init_lock: "i < length (inits s) \<Longrightarrow> inits s ! i = WaitingForLock \<Longrightarrow> lock s = None \<Longrightarrow>
    task_step s (init_to i LockHeld (s\<lparr> lock := Some (HeldByInit i) \<rparr>))"
| init_refused: "i < length (inits s) \<Longrightarrow> inits s ! i = LockHeld \<Longrightarrow> shutdown_started s \<Longrightarrow>
    task_step s (init_to i (Returned (Inl EngineShutDown)) (unlock s))"
| init_check: "i < length (inits s) \<Longrightarrow> inits s ! i = LockHeld \<Longrightarrow> \<not> shutdown_started s \<Longrightarrow>
    task_step s (init_to i Checked s)"
| init_spawn: "i < length (inits s) \<Longrightarrow> inits s ! i = Checked \<Longrightarrow>
    task_step s (init_to i (Working ByCaller) (logged (InitBegan i) s))"
| init_timeout: "i < length (inits s) \<Longrightarrow> inits s ! i = Working ByCaller \<Longrightarrow>
    task_step s (init_to i (Working ByRollback) (s\<lparr> shutdown_started := True \<rparr>))"
| init_timeout_worked: "i < length (inits s) \<Longrightarrow> inits s ! i = Worked ByCaller r \<Longrightarrow>
    task_step s (init_to i (Worked ByRollback r) (s\<lparr> shutdown_started := True \<rparr>))"
| init_timeout_crashed: "i < length (inits s) \<Longrightarrow> inits s ! i = Crashed p \<Longrightarrow>
    task_step s (init_to i NotRolledBack (s\<lparr> shutdown_started := True \<rparr>))"
| init_ends: "i < length (inits s) \<Longrightarrow> inits s ! i = Working w \<Longrightarrow>
    task_step s (init_to i (Worked w r) (logged (InitEnded i) s))"
| init_ends_unobserved: "i < length (inits s) \<Longrightarrow> inits s ! i = Unobserved \<Longrightarrow>
    task_step s (init_to i Abandoned (logged (InitEnded i) (unlock s)))"
| init_panics: "i < length (inits s) \<Longrightarrow> inits s ! i = Working w \<Longrightarrow>
    task_step s (init_to i (case w of ByCaller \<Rightarrow> Crashed p | ByRollback \<Rightarrow> NotRolledBack)
      (logged (InitPanicked i) (unlock s)))"
| init_panics_unobserved: "i < length (inits s) \<Longrightarrow> inits s ! i = Unobserved \<Longrightarrow>
    task_step s (init_to i Abandoned (logged (InitPanicked i) (unlock s)))"
| init_returns: "i < length (inits s) \<Longrightarrow> inits s ! i = Worked ByCaller r \<Longrightarrow>
    task_step s (init_to i (Returned (map_sum EngineError id r)) (unlock s))"
| init_returns_panic: "i < length (inits s) \<Longrightarrow> inits s ! i = Crashed p \<Longrightarrow>
    task_step s (init_to i (Returned (Inl (join_error (TaskPanicked p)))) s)"
| rollback_starts: "i < length (inits s) \<Longrightarrow> inits s ! i = Worked ByRollback r \<Longrightarrow>
    task_step s (init_to i RollingBack (logged ShutdownBegan s))"
| rollback_ends: "i < length (inits s) \<Longrightarrow> inits s ! i = RollingBack \<Longrightarrow>
    task_step s (init_to i RolledBack (logged ShutdownEnded (unlock (s\<lparr> engine_down := True \<rparr>))))"
| rollback_panics: "i < length (inits s) \<Longrightarrow> inits s ! i = RollingBack \<Longrightarrow>
    task_step s (init_to i RollbackCrashed (logged ShutdownPanicked (unlock s)))"
| shutdown_lock: "k < length (shutdowns s) \<Longrightarrow> fst (shutdowns s ! k) = ShutWaiting \<Longrightarrow> lock s = None \<Longrightarrow>
    task_step s (task_to k ShutLockHeld (s\<lparr> lock := Some (HeldByShutdown k) \<rparr>))"
| shutdown_skips: "k < length (shutdowns s) \<Longrightarrow> fst (shutdowns s ! k) = ShutLockHeld \<Longrightarrow> engine_down s \<Longrightarrow>
    task_step s (task_to k ShutDone (unlock s))"
| shutdown_starts: "k < length (shutdowns s) \<Longrightarrow> fst (shutdowns s ! k) = ShutLockHeld \<Longrightarrow> \<not> engine_down s \<Longrightarrow>
    task_step s (task_to k ShutWorking (logged ShutdownBegan s))"
| shutdown_ends: "k < length (shutdowns s) \<Longrightarrow> fst (shutdowns s ! k) = ShutWorking \<Longrightarrow>
    task_step s (task_to k ShutDone (logged ShutdownEnded (unlock (s\<lparr> engine_down := True \<rparr>))))"
| shutdown_panics: "k < length (shutdowns s) \<Longrightarrow> fst (shutdowns s ! k) = ShutWorking \<Longrightarrow>
    task_step s (task_to k (ShutCrashed p) (logged ShutdownPanicked (unlock s)))"
| shutdown_answers: "k < length (shutdowns s) \<Longrightarrow> shutdowns s ! k = (ShutDone, Pending) \<Longrightarrow>
    task_step s (answer_to k (Answered (await_shutdown (Some (Inr ())))) s)"
| shutdown_answers_panic: "k < length (shutdowns s) \<Longrightarrow> shutdowns s ! k = (ShutCrashed p, Pending) \<Longrightarrow>
    task_step s (answer_to k (Answered (await_shutdown (Some (Inl (TaskPanicked p))))) s)"
| shutdown_times_out: "k < length (shutdowns s) \<Longrightarrow> snd (shutdowns s ! k) = Pending \<Longrightarrow>
    task_step s (answer_to k (Answered (await_shutdown None)) s)"

definition engine_step :: "'e Lifecycle \<Rightarrow> 'e Lifecycle \<Rightarrow> bool" where
  "engine_step s s' \<longleftrightarrow> program_step s s' \<or> task_step s s'"

section \<open>The invariant\<close>

fun init_holds :: "'e init_call \<Rightarrow> bool" where
  "init_holds LockHeld = True"
| "init_holds Checked = True"
| "init_holds (Working _) = True"
| "init_holds Unobserved = True"
| "init_holds (Worked _ _) = True"
| "init_holds RollingBack = True"
| "init_holds _ = False"

fun shutdown_holds :: "shutdown_task \<Rightarrow> bool" where
  "shutdown_holds ShutLockHeld = True"
| "shutdown_holds ShutWorking = True"
| "shutdown_holds _ = False"

definition lock_ok :: "'e Lifecycle \<Rightarrow> bool" where
  "lock_ok s \<longleftrightarrow>
     (\<forall>i < length (inits s). init_holds (inits s ! i) \<longleftrightarrow> lock s = Some (HeldByInit i)) \<and>
     (\<forall>k < length (shutdowns s). shutdown_holds (fst (shutdowns s ! k)) \<longleftrightarrow> lock s = Some (HeldByShutdown k)) \<and>
     (\<forall>i. lock s = Some (HeldByInit i) \<longrightarrow> i < length (inits s)) \<and>
     (\<forall>k. lock s = Some (HeldByShutdown k) \<longrightarrow> k < length (shutdowns s))"

text \<open>The engine's view: a call begins only when none is in progress, and ends as the call that
  began last.\<close>

fun in_progress :: "engine_event list \<Rightarrow> engine_event option" where
  "in_progress (InitBegan i # _) = Some (InitBegan i)"
| "in_progress (ShutdownBegan # _) = Some ShutdownBegan"
| "in_progress _ = None"

fun may_follow :: "engine_event \<Rightarrow> engine_event option \<Rightarrow> bool" where
  "may_follow (InitBegan _) p = (p = None)"
| "may_follow ShutdownBegan p = (p = None)"
| "may_follow (InitEnded i) p = (p = Some (InitBegan i))"
| "may_follow (InitPanicked i) p = (p = Some (InitBegan i))"
| "may_follow ShutdownEnded p = (p = Some ShutdownBegan)"
| "may_follow ShutdownPanicked p = (p = Some ShutdownBegan)"

fun one_at_a_time :: "engine_event list \<Rightarrow> bool" where
  "one_at_a_time [] = True"
| "one_at_a_time (e # l) = (may_follow e (in_progress l) \<and> one_at_a_time l)"

fun init_runs :: "nat \<Rightarrow> 'e init_call \<Rightarrow> engine_event option" where
  "init_runs i (Working _) = Some (InitBegan i)"
| "init_runs i Unobserved = Some (InitBegan i)"
| "init_runs i RollingBack = Some ShutdownBegan"
| "init_runs i _ = None"

fun shutdown_runs :: "shutdown_task \<Rightarrow> engine_event option" where
  "shutdown_runs ShutWorking = Some ShutdownBegan"
| "shutdown_runs _ = None"

definition holder_runs :: "'e Lifecycle \<Rightarrow> engine_event option" where
  "holder_runs s = (case lock s of None \<Rightarrow> None
     | Some (HeldByInit i) \<Rightarrow> init_runs i (inits s ! i)
     | Some (HeldByShutdown k) \<Rightarrow> shutdown_runs (fst (shutdowns s ! k)))"

definition log_ok :: "'e Lifecycle \<Rightarrow> bool" where
  "log_ok s \<longleftrightarrow> one_at_a_time (log s) \<and> in_progress (log s) = holder_runs s"

definition down_ok :: "'e Lifecycle \<Rightarrow> bool" where
  "down_ok s \<longleftrightarrow> (if engine_down s
     then shutdown_started s \<and> (\<exists>l. log s = ShutdownEnded # l \<and> ShutdownEnded \<notin> set l) \<and>
       (\<forall>i. lock s = Some (HeldByInit i) \<longrightarrow> inits s ! i = LockHeld) \<and>
       (\<forall>k. lock s = Some (HeldByShutdown k) \<longrightarrow> fst (shutdowns s ! k) = ShutLockHeld)
     else ShutdownEnded \<notin> set (log s))"

fun init_ok :: "bool \<Rightarrow> bool \<Rightarrow> engine_event set \<Rightarrow> nat \<Rightarrow> 'e init_call \<Rightarrow> bool" where
  "init_ok st dn l i (Working ByRollback) = st"
| "init_ok st dn l i (Worked ByRollback _) = st"
| "init_ok st dn l i RollingBack = st"
| "init_ok st dn l i RolledBack = (st \<and> dn)"
| "init_ok st dn l i RollbackCrashed = (st \<and> ShutdownPanicked \<in> l)"
| "init_ok st dn l i NotRolledBack = (st \<and> InitPanicked i \<in> l)"
| "init_ok st dn l i (Crashed _) = (InitPanicked i \<in> l)"
| "init_ok st dn l i _ = True"

definition shutdown_ok :: "bool \<Rightarrow> engine_event set \<Rightarrow> shutdown_task \<times> 'e awaitable \<Rightarrow> bool" where
  "shutdown_ok dn l t \<longleftrightarrow> (fst t = ShutDone \<longrightarrow> dn) \<and> (snd t = Answered (Inr ()) \<longrightarrow> fst t = ShutDone) \<and>
     (\<forall>p. fst t = ShutCrashed p \<longrightarrow> ShutdownPanicked \<in> l)"

definition calls_ok :: "'e Lifecycle \<Rightarrow> bool" where
  "calls_ok s \<longleftrightarrow>
     (\<forall>i < length (inits s). init_ok (shutdown_started s) (engine_down s) (set (log s)) i (inits s ! i)) \<and>
     (\<forall>k < length (shutdowns s). shutdown_ok (engine_down s) (set (log s)) (shutdowns s ! k)) \<and>
     (shutdowns s \<noteq> [] \<longrightarrow> shutdown_started s)"

definition engine_inv :: "'e Lifecycle \<Rightarrow> bool" where
  "engine_inv s \<longleftrightarrow> lock_ok s \<and> log_ok s \<and> down_ok s \<and> calls_ok s"

lemmas update_defs = init_to_def task_to_def answer_to_def logged_def unlock_def

lemma lock_held_by_init:
  "lock_ok s \<Longrightarrow> i < length (inits s) \<Longrightarrow> init_holds (inits s ! i) \<Longrightarrow> lock s = Some (HeldByInit i)"
  by (simp add: lock_ok_def)

lemma lock_held_by_shutdown:
  "lock_ok s \<Longrightarrow> k < length (shutdowns s) \<Longrightarrow> shutdown_holds (fst (shutdowns s ! k)) \<Longrightarrow>
     lock s = Some (HeldByShutdown k)"
  by (simp add: lock_ok_def)

lemma not_holding:
  "lock_ok s \<Longrightarrow> i < length (inits s) \<Longrightarrow> \<not> init_holds (inits s ! i) \<Longrightarrow> lock s \<noteq> Some (HeldByInit i)"
  by (simp add: lock_ok_def)

lemma lock_ok_program: "program_step s s' \<Longrightarrow> lock_ok s \<Longrightarrow> lock_ok s'"
proof (induction rule: program_step.induct)
  case (cancel_worked i s r)
  from lock_held_by_init [OF cancel_worked.prems cancel_worked.hyps(1)] cancel_worked
  show ?case by (auto simp: lock_ok_def update_defs nth_list_update)
qed (auto simp: lock_ok_def update_defs nth_list_update nth_append less_Suc_eq)

lemma lock_ok_task: "task_step s s' \<Longrightarrow> lock_ok s \<Longrightarrow> lock_ok s'"
  by (induction rule: task_step.induct)
     (auto simp: lock_ok_def update_defs nth_list_update split: awaiter.split)

lemma lock_ok_step: "engine_step s s' \<Longrightarrow> lock_ok s \<Longrightarrow> lock_ok s'"
  unfolding engine_step_def using lock_ok_program lock_ok_task by blast

lemma log_ok_program: "program_step s s' \<Longrightarrow> lock_ok s \<Longrightarrow> log_ok s \<Longrightarrow> log_ok s'"
proof (induction rule: program_step.induct)
  case (cancel_worked i s r)
  from lock_held_by_init [OF cancel_worked.prems(1) cancel_worked.hyps(1)] cancel_worked
  show ?case by (simp add: log_ok_def holder_runs_def update_defs)
next
  case (call_initialize s)
  then show ?case
    by (auto simp: log_ok_def holder_runs_def lock_ok_def nth_append split: option.splits holder.splits)
next
  case (call_shutdown s)
  then show ?case
    by (auto simp: log_ok_def holder_runs_def lock_ok_def nth_append split: option.splits holder.splits)
qed (auto simp: log_ok_def holder_runs_def update_defs nth_list_update split: option.splits holder.splits)

lemma log_ok_task:
  assumes "task_step s s'" "lock_ok s" "log_ok s"
  shows "log_ok s'"
  using assms
proof (induction rule: task_step.induct)
  case (init_lock_timeout i s)
  then show ?case using not_holding [of s i]
    by (auto simp: log_ok_def holder_runs_def update_defs nth_list_update split: option.splits holder.splits)
next
  case (init_timeout_crashed i s p)
  then show ?case using not_holding [of s i]
    by (auto simp: log_ok_def holder_runs_def update_defs nth_list_update split: option.splits holder.splits)
next
  case (init_returns_panic i s p)
  then show ?case using not_holding [of s i]
    by (auto simp: log_ok_def holder_runs_def update_defs nth_list_update split: option.splits holder.splits)
qed (auto dest: lock_held_by_init lock_held_by_shutdown
       simp: log_ok_def holder_runs_def update_defs nth_list_update split: option.splits holder.splits)

lemma down_ok_program: "program_step s s' \<Longrightarrow> lock_ok s \<Longrightarrow> down_ok s \<Longrightarrow> down_ok s'"
proof (induction rule: program_step.induct)
  case (cancel_worked i s r)
  from lock_held_by_init [OF cancel_worked.prems(1) cancel_worked.hyps(1)] cancel_worked
  show ?case by (auto simp: down_ok_def update_defs split: if_splits)
qed (auto simp: down_ok_def lock_ok_def update_defs nth_list_update nth_append split: if_splits)

lemma init_ok_mono:
  "init_ok st dn l i c \<Longrightarrow> (st \<Longrightarrow> st') \<Longrightarrow> (dn \<Longrightarrow> dn') \<Longrightarrow> l \<subseteq> l' \<Longrightarrow> init_ok st' dn' l' i c"
  by (cases "(st, dn, l, i, c)" rule: init_ok.cases) auto

lemma shutdown_ok_mono: "shutdown_ok dn l t \<Longrightarrow> (dn \<Longrightarrow> dn') \<Longrightarrow> l \<subseteq> l' \<Longrightarrow> shutdown_ok dn' l' t"
  by (auto simp: shutdown_ok_def)

lemma calls_ok_init:
  "calls_ok s \<Longrightarrow> i < length (inits s) \<Longrightarrow>
     init_ok (shutdown_started s) (engine_down s) (set (log s)) i (inits s ! i)"
  by (simp add: calls_ok_def)

lemma calls_ok_shutdown:
  "calls_ok s \<Longrightarrow> k < length (shutdowns s) \<Longrightarrow>
     shutdown_ok (engine_down s) (set (log s)) (shutdowns s ! k)"
  by (auto simp: calls_ok_def)

lemma calls_ok_started: "calls_ok s \<Longrightarrow> k < length (shutdowns s) \<Longrightarrow> shutdown_started s"
  by (auto simp: calls_ok_def)

lemma down_ok_task: "task_step s s' \<Longrightarrow> lock_ok s \<Longrightarrow> calls_ok s \<Longrightarrow> down_ok s \<Longrightarrow> down_ok s'"
  by (induction rule: task_step.induct)
     (auto dest: lock_held_by_init lock_held_by_shutdown calls_ok_init calls_ok_started
        simp: down_ok_def update_defs nth_list_update split: if_splits)

lemma calls_ok_program: "program_step s s' \<Longrightarrow> calls_ok s \<Longrightarrow> calls_ok s'"
proof (induction rule: program_step.induct)
  case (call_shutdown s)
  then have "init_ok True (engine_down s) (set (log s)) i (inits s ! i)" if "i < length (inits s)" for i
    using init_ok_mono [OF calls_ok_init [OF _ that]] by blast
  with call_shutdown show ?case by (auto simp: calls_ok_def nth_append shutdown_ok_def less_Suc_eq)
next
  case (cancel_shutdown k s)
  then show ?case using calls_ok_shutdown [of s k]
    by (auto simp: calls_ok_def update_defs nth_list_update shutdown_ok_def)
qed (auto simp: calls_ok_def update_defs nth_list_update nth_append)

lemma calls_ok_init_to:
  assumes "calls_ok s" "i < length (inits s)" "inits s' = (inits s)[i := c]" "shutdowns s' = shutdowns s"
    and "shutdown_started s \<Longrightarrow> shutdown_started s'" "engine_down s \<Longrightarrow> engine_down s'"
    and "set (log s) \<subseteq> set (log s')"
    and "init_ok (shutdown_started s) (engine_down s) (set (log s)) i (inits s ! i) \<Longrightarrow>
      init_ok (shutdown_started s') (engine_down s') (set (log s')) i c"
  shows "calls_ok s'"
proof -
  have "init_ok (shutdown_started s') (engine_down s') (set (log s')) j (inits s' ! j)"
    if "j < length (inits s')" for j
    using that assms(3) assms(8) [OF calls_ok_init [OF assms(1,2)]]
      init_ok_mono [OF calls_ok_init [OF assms(1), of j] assms(5,6,7)]
    by (cases "j = i") simp_all
  moreover have "shutdown_ok (engine_down s') (set (log s')) (shutdowns s' ! k)"
    if "k < length (shutdowns s')" for k
    using that assms(4) shutdown_ok_mono [OF calls_ok_shutdown [OF assms(1), of k] assms(6,7)] by simp
  moreover have "shutdowns s' \<noteq> [] \<longrightarrow> shutdown_started s'"
    using assms(1,4,5) by (auto simp: calls_ok_def)
  ultimately show ?thesis unfolding calls_ok_def by blast
qed

lemma calls_ok_shutdown_to:
  assumes "calls_ok s" "k < length (shutdowns s)" "inits s' = inits s" "shutdowns s' = (shutdowns s)[k := t]"
    and "shutdown_started s' = shutdown_started s" "engine_down s \<Longrightarrow> engine_down s'"
    and "set (log s) \<subseteq> set (log s')"
    and "shutdown_ok (engine_down s) (set (log s)) (shutdowns s ! k) \<Longrightarrow>
      shutdown_ok (engine_down s') (set (log s')) t"
  shows "calls_ok s'"
proof -
  have "init_ok (shutdown_started s') (engine_down s') (set (log s')) j (inits s' ! j)"
    if "j < length (inits s')" for j
    using that assms(3,5) init_ok_mono [OF calls_ok_init [OF assms(1), of j] _ assms(6,7)] by auto
  moreover have "shutdown_ok (engine_down s') (set (log s')) (shutdowns s' ! j)"
    if "j < length (shutdowns s')" for j
    using that assms(4) assms(8) [OF calls_ok_shutdown [OF assms(1,2)]]
      shutdown_ok_mono [OF calls_ok_shutdown [OF assms(1), of j] assms(6,7)]
    by (cases "j = k") simp_all
  moreover have "shutdown_started s'"
    using assms(5) calls_ok_started [OF assms(1,2)] by simp
  ultimately show ?thesis unfolding calls_ok_def by blast
qed

lemma calls_ok_task: "task_step s s' \<Longrightarrow> calls_ok s \<Longrightarrow> calls_ok s'"
proof (induction rule: task_step.induct)
  case (init_panics i s w p)
  then show ?case
    by (cases w) (auto simp: update_defs intro!: calls_ok_init_to [where i = i and s = s])
next
  case (init_ends i s w r)
  then show ?case
    by (cases w) (auto simp: update_defs intro!: calls_ok_init_to [where i = i and s = s])
next
  case (shutdown_lock k s)
  then show ?case
    by (auto simp: update_defs shutdown_ok_def intro!: calls_ok_shutdown_to [where k = k and s = s])
next
  case (shutdown_skips k s)
  then show ?case
    by (auto simp: update_defs shutdown_ok_def intro!: calls_ok_shutdown_to [where k = k and s = s])
next
  case (shutdown_starts k s)
  then show ?case
    by (auto simp: update_defs shutdown_ok_def intro!: calls_ok_shutdown_to [where k = k and s = s])
next
  case (shutdown_ends k s)
  then show ?case
    by (auto simp: update_defs shutdown_ok_def intro!: calls_ok_shutdown_to [where k = k and s = s])
next
  case (shutdown_panics k s p)
  then show ?case
    by (auto simp: update_defs shutdown_ok_def intro!: calls_ok_shutdown_to [where k = k and s = s])
next
  case (shutdown_answers k s)
  then show ?case
    by (auto simp: update_defs shutdown_ok_def intro!: calls_ok_shutdown_to [where k = k and s = s])
next
  case (shutdown_answers_panic k s p)
  then show ?case
    by (auto simp: update_defs shutdown_ok_def intro!: calls_ok_shutdown_to [where k = k and s = s])
next
  case (shutdown_times_out k s)
  then show ?case
    by (auto simp: update_defs shutdown_ok_def intro!: calls_ok_shutdown_to [where k = k and s = s])
qed (erule calls_ok_init_to, assumption, simp add: update_defs, auto simp: update_defs)+

lemma engine_inv_new: "engine_inv lifecycle_new"
  by (simp add: engine_inv_def lock_ok_def log_ok_def down_ok_def calls_ok_def holder_runs_def lifecycle_new_def)

lemma engine_inv_step: "engine_inv s \<Longrightarrow> engine_step s s' \<Longrightarrow> engine_inv s'"
  unfolding engine_inv_def engine_step_def
  by (blast intro: lock_ok_program lock_ok_task log_ok_program log_ok_task down_ok_program down_ok_task
      calls_ok_program calls_ok_task)

interpretation engine_system:
  invariant_system "\<lambda>s. s = lifecycle_new" engine_step engine_inv
  by unfold_locales (auto simp: engine_inv_new intro: engine_inv_step)

abbreviation engine_reachable :: "'e Lifecycle \<Rightarrow> bool" where
  "engine_reachable \<equiv> reachable (\<lambda>s. s = lifecycle_new) engine_step"

lemma engine_inv_reachable:
  assumes "engine_reachable s"
  shows "lock_ok s" "log_ok s" "down_ok s" "calls_ok s"
  using engine_system.reachable_inv [OF assms] by (simp_all add: engine_inv_def)

section \<open>What the caller is told\<close>

text \<open>The answer of an \<^verbatim>\<open>initialize()\<close> awaitable: a call whose work goes on in the
  background has answered \<^verbatim>\<open>Timeout\<close>.\<close>

fun init_answer :: "'e init_call \<Rightarrow> 'e awaitable" where
  "init_answer (Returned r) = Answered r"
| "init_answer (Working ByRollback) = Answered (Inl LifecycleTimeout)"
| "init_answer (Worked ByRollback _) = Answered (Inl LifecycleTimeout)"
| "init_answer RollingBack = Answered (Inl LifecycleTimeout)"
| "init_answer RolledBack = Answered (Inl LifecycleTimeout)"
| "init_answer RollbackCrashed = Answered (Inl LifecycleTimeout)"
| "init_answer NotRolledBack = Answered (Inl LifecycleTimeout)"
| "init_answer Unobserved = Cancelled"
| "init_answer Abandoned = Cancelled"
| "init_answer _ = Pending"

fun may_have_begun :: "'e init_call \<Rightarrow> bool" where
  "may_have_begun WaitingForLock = False"
| "may_have_begun LockHeld = False"
| "may_have_begun Checked = False"
| "may_have_begun (Returned (Inl LifecycleTimeout)) = False"
| "may_have_begun _ = True"

definition begun_ok :: "'e Lifecycle \<Rightarrow> bool" where
  "begun_ok s \<longleftrightarrow> (\<forall>i. InitBegan i \<in> set (log s) \<longrightarrow> i < length (inits s) \<and> may_have_begun (inits s ! i))"

lemma returned_work_may_have_begun: "may_have_begun (Returned (map_sum EngineError id r))"
  by (cases r) simp_all

lemma begun_ok_step:
  assumes "engine_step s s'" "begun_ok s"
  shows "begun_ok s'"
proof -
  have "begun_ok s'" if "program_step s s'"
    using that assms(2)
    by (induction rule: program_step.induct) (auto simp: begun_ok_def update_defs nth_list_update nth_append)
  moreover have "begun_ok s'" if "task_step s s'"
    using that assms(2)
    by (induction rule: task_step.induct)
       (auto simp: begun_ok_def update_defs nth_list_update returned_work_may_have_begun split: awaiter.split)
  ultimately show ?thesis using assms(1) by (auto simp: engine_step_def)
qed

interpretation begun_system: invariant_system "\<lambda>s. s = lifecycle_new" engine_step begun_ok
  by unfold_locales (simp add: begun_ok_def lifecycle_new_def, rule begun_ok_step)

section \<open>Every task ends\<close>

fun init_weight :: "'e init_call \<Rightarrow> nat" where
  "init_weight WaitingForLock = 9"
| "init_weight LockHeld = 8"
| "init_weight Checked = 7"
| "init_weight (Working ByCaller) = 6"
| "init_weight (Worked ByCaller _) = 5"
| "init_weight (Crashed _) = 5"
| "init_weight (Working ByRollback) = 4"
| "init_weight (Worked _ _) = 3"
| "init_weight RollingBack = 2"
| "init_weight Unobserved = 1"
| "init_weight _ = 0"

fun task_weight :: "shutdown_task \<Rightarrow> nat" where
  "task_weight ShutWaiting = 3"
| "task_weight ShutLockHeld = 2"
| "task_weight ShutWorking = 1"
| "task_weight _ = 0"

definition shutdown_weight :: "shutdown_task \<times> 'e awaitable \<Rightarrow> nat" where
  "shutdown_weight t = task_weight (fst t) + (if snd t = Pending then 1 else 0)"

definition work_left :: "'e Lifecycle \<Rightarrow> nat" where
  "work_left s = sum_list (map init_weight (inits s)) + sum_list (map shutdown_weight (shutdowns s))"

lemma sum_list_update_less:
  fixes f :: "'a \<Rightarrow> nat"
  assumes "i < length xs" "f x < f (xs ! i)"
  shows "sum_list (map f (xs[i := x])) < sum_list (map f xs)"
proof -
  have "f (xs ! i) \<le> sum_list (map f xs)"
    using elem_le_sum_list [of i "map f xs"] assms(1) by simp
  with assms show ?thesis by (simp add: map_update sum_list_update)
qed

lemma init_to_less:
  assumes "i < length (inits s)" "init_weight c < init_weight (inits s ! i)"
    and "inits s' = inits s" "shutdowns s' = shutdowns s"
  shows "work_left (init_to i c s') < work_left s"
  using sum_list_update_less [of i "inits s" init_weight c, OF assms(1,2)] assms(3,4)
  by (simp add: work_left_def init_to_def)

lemma shutdowns_less:
  assumes "k < length (shutdowns s)" "shutdown_weight t < shutdown_weight (shutdowns s ! k)"
    and "inits s' = inits s" "shutdowns s' = (shutdowns s)[k := t]"
  shows "work_left s' < work_left s"
  using sum_list_update_less [of k "shutdowns s" shutdown_weight t, OF assms(1,2)] assms(3,4)
  by (simp add: work_left_def)

lemma task_step_less: "task_step s s' \<Longrightarrow> work_left s' < work_left s"
proof (induction rule: task_step.induct)
  case (init_ends i s w r)
  then show ?case by (cases w) (auto intro!: init_to_less simp: logged_def unlock_def)
next
  case (init_panics i s w p)
  then show ?case by (cases w) (auto intro!: init_to_less simp: logged_def unlock_def)
qed (rule init_to_less; simp add: update_defs
     | (rule shutdowns_less, assumption; auto simp: update_defs shutdown_weight_def))+

definition idle :: "'e Lifecycle \<Rightarrow> bool" where
  "idle s \<longleftrightarrow> (\<forall>s'. \<not> task_step s s')"

lemma idle_init:
  assumes "idle s" and i: "i < length (inits s)"
  shows "init_weight (inits s ! i) = 0"
proof -
  have no: "\<not> task_step s s'" for s' using assms(1) by (simp add: idle_def)
  show ?thesis
  proof (cases "inits s ! i")
    case WaitingForLock
    with no init_lock_timeout [OF i] show ?thesis by simp
  next
    case LockHeld
    with no init_refused [OF i] init_check [OF i] show ?thesis by (cases "shutdown_started s") simp_all
  next
    case Checked
    with no init_spawn [OF i] show ?thesis by simp
  next
    case (Working w)
    with no init_panics [OF i] show ?thesis by simp
  next
    case Unobserved
    with no init_ends_unobserved [OF i] show ?thesis by simp
  next
    case (Worked w r)
    with no init_timeout_worked [OF i] rollback_starts [OF i] init_returns [OF i] assms(1)
    show ?thesis by (cases w) (simp_all add: idle_def)
  next
    case (Crashed p)
    with no init_returns_panic [OF i] show ?thesis by simp
  next
    case RollingBack
    with no rollback_ends [OF i] show ?thesis by simp
  qed simp_all
qed

lemma idle_holder:
  assumes "idle s" and k: "k < length (shutdowns s)"
  shows "\<not> shutdown_holds (fst (shutdowns s ! k))"
proof -
  have no: "\<not> task_step s s'" for s' using assms(1) by (simp add: idle_def)
  show ?thesis
  proof (cases "fst (shutdowns s ! k)")
    case ShutLockHeld
    with no shutdown_skips [OF k] shutdown_starts [OF k] show ?thesis by (cases "engine_down s") simp_all
  next
    case ShutWorking
    with no shutdown_ends [OF k] show ?thesis by simp
  qed simp_all
qed

lemma idle_unlocked:
  assumes "idle s" and inv: "lock_ok s"
  shows "lock s = None"
proof (cases "lock s")
  case (Some h)
  show ?thesis
  proof (cases h)
    case (HeldByInit i)
    with Some inv have "i < length (inits s)" "init_holds (inits s ! i)" by (auto simp: lock_ok_def)
    with idle_init [OF assms(1), of i] show ?thesis by (cases "inits s ! i" rule: init_weight.cases) auto
  next
    case (HeldByShutdown k)
    with Some inv have "k < length (shutdowns s)" "shutdown_holds (fst (shutdowns s ! k))"
      by (auto simp: lock_ok_def)
    with idle_holder [OF assms(1)] show ?thesis by simp
  qed
qed

lemma idle_shutdown:
  assumes "idle s" "lock_ok s" and k: "k < length (shutdowns s)"
  shows "(fst (shutdowns s ! k) = ShutDone \<or> (\<exists>p. fst (shutdowns s ! k) = ShutCrashed p)) \<and>
    snd (shutdowns s ! k) \<noteq> Pending"
proof -
  have no: "\<not> task_step s s'" for s' using assms(1) by (simp add: idle_def)
  have "fst (shutdowns s ! k) \<noteq> ShutWaiting"
    using no shutdown_lock [OF k] idle_unlocked [OF assms(1,2)] by auto
  with idle_holder [OF assms(1) k]
  have "fst (shutdowns s ! k) = ShutDone \<or> (\<exists>p. fst (shutdowns s ! k) = ShutCrashed p)"
    by (cases "fst (shutdowns s ! k)") simp_all
  moreover have "snd (shutdowns s ! k) \<noteq> Pending" using no shutdown_times_out [OF k] by auto
  ultimately show ?thesis by simp
qed

section \<open>Properties\<close>

text \<open>C10: The engine never sees two lifecycle calls at once. However initializations, shutdowns,
  timeouts, cancellations and panics interleave, each \<^verbatim>\<open>PolicyEngine::initialize\<close> or
  \<^verbatim>\<open>PolicyEngine::shutdown\<close> begins only after the one before it has ended or panicked,
  and while one is in progress the lock is held.\<close>

theorem engine_calls_never_overlap:
  assumes "engine_reachable s"
  shows "one_at_a_time (log s) \<and> (in_progress (log s) \<noteq> None \<longrightarrow> lock s \<noteq> None)"
  using engine_inv_reachable(2) [OF assms] by (cases "lock s") (simp_all add: log_ok_def holder_runs_def)

lemma engine_stays_down:
  assumes "engine_step s s'" "engine_inv s" "engine_down s"
  shows "engine_down s' \<and> log s' = log s"
proof -
  have "engine_down s' \<and> log s' = log s" if "program_step s s'"
    using that assms(3) by (induction rule: program_step.induct) (simp_all add: update_defs)
  moreover have "engine_down s' \<and> log s' = log s" if "task_step s s'"
    using that assms(2,3) unfolding engine_inv_def down_ok_def
    by (induction rule: task_step.induct)
       (auto dest: lock_held_by_init lock_held_by_shutdown simp: update_defs)
  ultimately show ?thesis using assms(1) by (auto simp: engine_step_def)
qed

lemma engine_stays_down_star:
  assumes "engine_step\<^sup>*\<^sup>* s s'" and inv: "engine_inv s" "engine_down s"
  shows "engine_inv s' \<and> engine_down s' \<and> log s' = log s"
  using assms(1)
proof (induction rule: rtranclp_induct)
  case base
  with inv show ?case by simp
next
  case (step t u)
  with engine_stays_down [OF step.hyps(2)] engine_inv_step [OF _ step.hyps(2)] show ?case by simp
qed

text \<open>C9: A shutdown that returned is final. Once some \<^verbatim>\<open>shutdown()\<close> has answered without
  an error the engine's last lifecycle call was a completed shutdown, the only one, and whatever
  the program does afterwards, the engine receives no further lifecycle call.\<close>

theorem returned_shutdown_is_final:
  assumes "engine_reachable s" "k < length (shutdowns s)" "snd (shutdowns s ! k) = Answered (Inr ())"
    and "engine_step\<^sup>*\<^sup>* s s'"
  shows "(\<exists>l. log s = ShutdownEnded # l \<and> ShutdownEnded \<notin> set l) \<and> log s' = log s"
proof -
  note inv = engine_inv_reachable [OF assms(1)]
  from calls_ok_shutdown [OF inv(4) assms(2)] assms(3) have down: "engine_down s"
    by (simp add: shutdown_ok_def)
  with inv(3) have last: "\<exists>l. log s = ShutdownEnded # l \<and> ShutdownEnded \<notin> set l"
    by (simp add: down_ok_def)
  from engine_stays_down_star [OF assms(4) _ down] inv have "log s' = log s" by (simp add: engine_inv_def)
  with last show ?thesis by simp
qed

lemma idle_down:
  assumes "idle s" "engine_reachable s" "shutdowns s \<noteq> []" "ShutdownPanicked \<notin> set (log s)"
  shows "engine_down s"
proof -
  note inv = engine_inv_reachable [OF assms(2)]
  from assms(3) have k: "0 < length (shutdowns s)" by simp
  from idle_shutdown [OF assms(1) inv(1) k] calls_ok_shutdown [OF inv(4) k] assms(4)
  show ?thesis by (auto simp: shutdown_ok_def)
qed

lemma idle_answered:
  assumes "idle s" "c \<in> set (inits s)"
  shows "init_answer c \<noteq> Pending"
proof -
  from assms(2) obtain i where "i < length (inits s)" "c = inits s ! i" by (auto simp: in_set_conv_nth)
  with idle_init [OF assms(1)] have "init_weight c = 0" by simp
  then show ?thesis by (cases c rule: init_weight.cases) (auto elim: init_answer.elims)
qed

text \<open>C11: Every lifecycle call is answered and every shutdown is carried out. As long as each engine call
  ends, by a result or a panic, the tasks can only take finitely many steps; when none is left the
  lock is free, every awaitable has its answer or was cancelled, and if \<^verbatim>\<open>shutdown()\<close>
  was ever called, its awaitable cancelled, timed out or not, the engine has been shut down, unless
  the engine's own shutdown panicked.\<close>

theorem lifecycle_calls_complete:
  assumes "engine_reachable (s :: 'e Lifecycle)"
  shows "wf {(t', t :: 'e Lifecycle). task_step t t'} \<and>
    (idle s \<longrightarrow> lock s = None \<and> (\<forall>c\<in>set (inits s). init_answer c \<noteq> Pending) \<and>
      (\<forall>t\<in>set (shutdowns s). snd t \<noteq> Pending) \<and>
      (shutdowns s \<noteq> [] \<and> ShutdownPanicked \<notin> set (log s) \<longrightarrow> engine_down s))"
proof -
  have "wf {(t', t :: 'e Lifecycle). task_step t t'}"
    by (rule wf_subset [OF wf_measure [of work_left]]) (auto dest: task_step_less)
  moreover have "snd t \<noteq> Pending" if "idle s" "t \<in> set (shutdowns s)" for t
    using that idle_shutdown [OF that(1) engine_inv_reachable(1) [OF assms]] by (auto simp: in_set_conv_nth)
  ultimately show ?thesis
    using idle_unlocked [OF _ engine_inv_reachable(1) [OF assms]] idle_answered idle_down [OF _ assms] by auto
qed

text \<open>C12: An initialization that timed out while the engine was working makes the engine terminal at
  once, and once the tasks are done the engine has been rolled back by a shutdown, unless the
  stalled initialization or the engine's shutdown panicked.\<close>

theorem timed_out_initialize_rolls_back:
  assumes "engine_reachable s" "InitBegan i \<in> set (log s)"
    and "init_answer (inits s ! i) = Answered (Inl LifecycleTimeout)"
  shows "ensure_live s = Inl EngineShutDown \<and>
    (idle s \<longrightarrow> engine_down s \<or> InitPanicked i \<in> set (log s) \<or> ShutdownPanicked \<in> set (log s))"
proof -
  have "begun_ok s" by (rule begun_system.reachable_inv [OF assms(1)])
  with assms(2) have i: "i < length (inits s)" "may_have_begun (inits s ! i)" by (auto simp: begun_ok_def)
  note ok = calls_ok_init [OF engine_inv_reachable(4) [OF assms(1)] i(1)]
  from i(2) assms(3) ok have "shutdown_started s"
    by (cases "inits s ! i" rule: init_answer.cases) auto
  moreover have "engine_down s \<or> InitPanicked i \<in> set (log s) \<or> ShutdownPanicked \<in> set (log s)" if "idle s"
    using idle_init [OF that i(1)] i(2) assms(3) ok
    by (cases "inits s ! i" rule: init_answer.cases) auto
  ultimately show ?thesis by (simp add: ensure_live_def)
qed

section \<open>Runs\<close>

lemma engine_go_program: "engine_reachable s \<Longrightarrow> program_step s s' \<Longrightarrow> engine_reachable s'"
  by (erule reachable_step) (simp add: engine_step_def)

lemma engine_go: "engine_reachable s \<Longrightarrow> task_step s s' \<Longrightarrow> engine_reachable s'"
  by (erule reachable_step) (simp add: engine_step_def)

lemmas go_simps = update_defs lifecycle_new_def ensure_live_def

text \<open>An initialization is called, gets the lock and times out while the engine is working.\<close>

definition stalled :: "PluginError Lifecycle" where
  "stalled = \<lparr> lock = Some (HeldByInit 0), shutdown_started = True, engine_down = False,
     inits = [Working ByRollback], shutdowns = [], log = [InitBegan 0] \<rparr>"

lemma stalled_reachable: "engine_reachable stalled"
proof -
  have 0: "engine_reachable (lifecycle_new :: PluginError Lifecycle)" by (rule reachable_init) simp
  have 1: "engine_reachable ((lifecycle_new :: PluginError Lifecycle)\<lparr> inits := [WaitingForLock] \<rparr>)"
    using engine_go_program [OF 0 call_initialize] by (simp add: go_simps)
  have 2: "engine_reachable ((lifecycle_new :: PluginError Lifecycle)
      \<lparr> inits := [LockHeld], lock := Some (HeldByInit 0) \<rparr>)"
    using engine_go [OF 1 init_lock [of 0]] by (simp add: go_simps)
  have 3: "engine_reachable ((lifecycle_new :: PluginError Lifecycle)
      \<lparr> inits := [Checked], lock := Some (HeldByInit 0) \<rparr>)"
    using engine_go [OF 2 init_check [of 0]] by (simp add: go_simps)
  have 4: "engine_reachable ((lifecycle_new :: PluginError Lifecycle)
      \<lparr> inits := [Working ByCaller], lock := Some (HeldByInit 0), log := [InitBegan 0] \<rparr>)"
    using engine_go [OF 3 init_spawn [of 0]] by (simp add: go_simps)
  show ?thesis using engine_go [OF 4 init_timeout [of 0]] by (simp add: go_simps stalled_def)
qed

definition rolled_back :: "PluginError Lifecycle" where
  "rolled_back = \<lparr> lock = None, shutdown_started = True, engine_down = True, inits = [RolledBack],
     shutdowns = [], log = [ShutdownEnded, ShutdownBegan, InitEnded 0, InitBegan 0] \<rparr>"

lemma rolled_back_reachable: "engine_reachable rolled_back"
proof -
  have 1: "engine_reachable (stalled\<lparr> inits := [Worked ByRollback (Inr ())], log := [InitEnded 0, InitBegan 0] \<rparr>)"
    using engine_go [OF stalled_reachable init_ends [of 0 _ _ "Inr ()"]] by (simp add: go_simps stalled_def)
  have 2: "engine_reachable (stalled\<lparr> inits := [RollingBack],
      log := [ShutdownBegan, InitEnded 0, InitBegan 0] \<rparr>)"
    using engine_go [OF 1 rollback_starts [of 0]] by (simp add: go_simps stalled_def)
  show ?thesis using engine_go [OF 2 rollback_ends [of 0]] by (simp add: go_simps stalled_def rolled_back_def)
qed

lemma working_weight [simp]: "init_weight (Working w) \<noteq> 0"
  by (cases w) simp_all

lemma idle_singleton:
  "inits s = [c] \<Longrightarrow> init_weight c = 0 \<Longrightarrow> shutdowns s = [] \<Longrightarrow> idle s"
  unfolding idle_def by (auto elim!: task_step.cases)

definition shut_at_once :: "PluginError Lifecycle" where
  "shut_at_once = \<lparr> lock = None, shutdown_started = True, engine_down = True, inits = [],
     shutdowns = [(ShutDone, Answered (Inr ()))], log = [ShutdownEnded, ShutdownBegan] \<rparr>"

lemma shut_at_once_reachable: "engine_reachable shut_at_once"
proof -
  let ?new = "lifecycle_new :: PluginError Lifecycle"
  have 0: "engine_reachable ?new" by (rule reachable_init) simp
  have 1: "engine_reachable (?new\<lparr> shutdown_started := True, shutdowns := [(ShutWaiting, Pending)] \<rparr>)"
    using engine_go_program [OF 0 call_shutdown] by (simp add: go_simps)
  have 2: "engine_reachable (?new\<lparr> shutdown_started := True, shutdowns := [(ShutLockHeld, Pending)],
      lock := Some (HeldByShutdown 0) \<rparr>)"
    using engine_go [OF 1 shutdown_lock [of 0]] by (simp add: go_simps)
  have 3: "engine_reachable (?new\<lparr> shutdown_started := True, shutdowns := [(ShutWorking, Pending)],
      lock := Some (HeldByShutdown 0), log := [ShutdownBegan] \<rparr>)"
    using engine_go [OF 2 shutdown_starts [of 0]] by (simp add: go_simps)
  have 4: "engine_reachable (?new\<lparr> shutdown_started := True, shutdowns := [(ShutDone, Pending)],
      engine_down := True, log := [ShutdownEnded, ShutdownBegan] \<rparr>)"
    using engine_go [OF 3 shutdown_ends [of 0]] by (simp add: go_simps)
  show ?thesis using engine_go [OF 4 shutdown_answers [of 0]] by (simp add: go_simps shut_at_once_def)
qed

theorem engine_calls_never_overlap_witness:
  "engine_reachable stalled \<and> one_at_a_time (log stalled) \<and> in_progress (log stalled) = Some (InitBegan 0) \<and>
     lock stalled \<noteq> None"
  using engine_calls_never_overlap [OF stalled_reachable] stalled_reachable by (simp add: stalled_def)

theorem returned_shutdown_is_final_witness:
  "engine_reachable shut_at_once \<and> log shut_at_once = [ShutdownEnded, ShutdownBegan] \<and>
     (\<exists>l. log shut_at_once = ShutdownEnded # l \<and> ShutdownEnded \<notin> set l)"
  using returned_shutdown_is_final [OF shut_at_once_reachable, of 0 shut_at_once] shut_at_once_reachable
  by (simp add: shut_at_once_def)

theorem lifecycle_calls_complete_witness:
  "idle rolled_back \<and> lock rolled_back = None \<and> init_answer (inits rolled_back ! 0) \<noteq> Pending"
proof -
  have "idle rolled_back" by (rule idle_singleton [where c = RolledBack]) (simp_all add: rolled_back_def)
  moreover have "inits rolled_back ! 0 \<in> set (inits rolled_back)" by (simp add: rolled_back_def)
  ultimately show ?thesis using lifecycle_calls_complete [OF rolled_back_reachable] by blast
qed

theorem timed_out_initialize_rolls_back_witness:
  "idle rolled_back \<and> ensure_live rolled_back = Inl EngineShutDown \<and> engine_down rolled_back"
proof -
  have idle: "idle rolled_back" by (rule idle_singleton [where c = RolledBack]) (simp_all add: rolled_back_def)
  have "InitBegan 0 \<in> set (log rolled_back)"
    "init_answer (inits rolled_back ! 0) = Answered (Inl LifecycleTimeout)" by (simp_all add: rolled_back_def)
  from timed_out_initialize_rolls_back [OF rolled_back_reachable this] idle
  show ?thesis by (auto simp: rolled_back_def)
qed

text \<open>When an initialization panics after its call timed out, nothing rolls the engine back: every task
  is done, the engine takes no further call, yet \<^verbatim>\<open>PolicyEngine::shutdown\<close> never ran,
  and the plugins the initialization had started stay up until the program calls
  \<^verbatim>\<open>shutdown()\<close> itself.\<close>

theorem panicked_initialize_is_not_rolled_back:
  "\<exists>s :: PluginError Lifecycle. engine_reachable s \<and> idle s \<and> ensure_live s = Inl EngineShutDown \<and>
     map init_answer (inits s) = [Answered (Inl LifecycleTimeout)] \<and>
     log s = [InitPanicked 0, InitBegan 0] \<and> \<not> engine_down s"
proof -
  let ?s = "stalled\<lparr> lock := None, inits := [NotRolledBack], log := [InitPanicked 0, InitBegan 0] \<rparr>"
  have "engine_reachable ?s"
    using engine_go [OF stalled_reachable init_panics [of 0]] by (simp add: go_simps stalled_def)
  moreover have "idle ?s" by (rule idle_singleton [where c = NotRolledBack]) (simp_all add: stalled_def)
  ultimately show ?thesis by (intro exI [of _ ?s]) (simp add: stalled_def ensure_live_def)
qed

end
