(* ===== verification/Py_Bindings.thy ===== *)
theory Py_Bindings
  imports Py_Lifecycle Ffi
begin

text \<open>
  The Python extension module (\<^verbatim>\<open>bindings/python/src\<close>:
  \<^verbatim>\<open>conversions.rs\<close>, \<^verbatim>\<open>error.rs\<close>,
  \<^verbatim>\<open>result.rs\<close>, \<^verbatim>\<open>secrets.rs\<close> and the methods of
  \<^verbatim>\<open>manager.rs\<close>): Python objects and JSON values, the request a hook call builds,
  the exceptions errors become, and the result handed back. The engine, its codecs and the file
  system are the record \<open>py_env\<close>.
\<close>

section \<open>Python objects and exceptions\<close>

datatype py_exc =
    ValueError string
  | RuntimeError string
  | TimeoutError string
  | OverflowError
  | UnicodeEncodeError

text \<open>The objects the traversal tells apart. A float is its bits; a text is absent when it has no
  UTF-8 encoding (a lone surrogate). A dict keeps its insertion order, and a key is absent when it
  is no string or has no encoding. Any other object is its type's qualified name, if it can be
  read.\<close>

datatype py_obj =
    PyNone
  | PyBool bool
  | PyInt int
  | PyFloat "64 word"
  | PyStr "string option"
  | PyList "py_obj list"
  | PyDict "(string option \<times> py_obj) list"
  | PyOther "string option"

text \<open>The exponent and mantissa fields of an \<^verbatim>\<open>f64\<close>.\<close>

definition f64_finite :: "64 word \<Rightarrow> bool" where
  "f64_finite f \<longleftrightarrow> unat f div 2 ^ 52 mod 2 ^ 11 \<noteq> 2047"

definition show_nonfinite :: "64 word \<Rightarrow> string" where
  "show_nonfinite f =
     (if unat f mod 2 ^ 52 \<noteq> 0 then ''NaN'' else if unat f < 2 ^ 63 then ''inf'' else ''-inf'')"

section \<open>Python to JSON\<close>

definition depth_error :: py_exc where
  "depth_error = ValueError ''cpex: value nesting exceeds maximum depth of 128 levels''"

definition key_error :: py_exc where
  "key_error = ValueError ''cpex: dict keys must be strings; got a non-string key''"

fun pyobj_to_json_value :: "nat \<Rightarrow> py_obj \<Rightarrow> py_exc + json"
  and items_to_json :: "nat \<Rightarrow> py_obj list \<Rightarrow> json list \<Rightarrow> py_exc + json list"
  and entries_to_json :: "nat \<Rightarrow> (string option \<times> py_obj) list \<Rightarrow> json obj \<Rightarrow> py_exc + json obj" where
  "pyobj_to_json_value level x =
     (if level > 128 then Inl depth_error
      else case x of
        PyNone \<Rightarrow> Inr JNull
      | PyBool b \<Rightarrow> Inr (JBool b)
      | PyInt i \<Rightarrow> if - (2 ^ 63) \<le> i \<and> i < 2 ^ 63 then Inr (jint i) else Inl OverflowError
      | PyFloat v \<Rightarrow> if f64_finite v then Inr (JNumber (Float v))
          else Inl (ValueError (''cpex: float value '' @ show_nonfinite v @ '' is not a valid JSON number''))
      | PyStr text \<Rightarrow> (case text of None \<Rightarrow> Inl UnicodeEncodeError | Some s \<Rightarrow> Inr (JString s))
      | PyList items \<Rightarrow> rbind (items_to_json (level + 1) items []) (\<lambda>out. Inr (JArray out))
      | PyDict d \<Rightarrow> rbind (entries_to_json (level + 1) d []) (\<lambda>m. Inr (JObject m))
      | PyOther name \<Rightarrow>
          Inl (ValueError (''cpex: cannot convert Python object of type ''
            @ sq (case name of None \<Rightarrow> ''unknown'' | Some n \<Rightarrow> n) @ '' to a JSON value'')))"
| "items_to_json level [] out = Inr out"
| "items_to_json level (item # items) out =
     rbind (pyobj_to_json_value level item) (\<lambda>v. items_to_json level items (out @ [v]))"
| "entries_to_json level [] m = Inr m"
| "entries_to_json level ((k, v) # d) m =
     (case k of None \<Rightarrow> Inl key_error
      | Some key \<Rightarrow> rbind (pyobj_to_json_value level v) (\<lambda>v. entries_to_json level d (obj_insert key v m)))"

section \<open>JSON to Python\<close>

text \<open>The \<^verbatim>\<open>u64\<close> values above \<^verbatim>\<open>i64::MAX\<close> as
  \<^verbatim>\<open>f64\<close> bits: 53 significant bits, ties to even, a carry into the exponent
  field.\<close>

definition f64_of_large :: "nat \<Rightarrow> 64 word" where
  "f64_of_large n =
     (let q = n div 2 ^ 11; r = n mod 2 ^ 11;
          q' = (if r > 2 ^ 10 \<or> r = 2 ^ 10 \<and> odd q then q + 1 else q)
      in of_nat (1086 * 2 ^ 52 + (q' - 2 ^ 52)))"

fun number_to_pyobj :: "jnum \<Rightarrow> py_obj" where
  "number_to_pyobj (PosInt n) =
     (if unat n < 2 ^ 63 then PyInt (uint n) else PyFloat (f64_of_large (unat n)))"
| "number_to_pyobj (NegInt n) = PyInt (sint n)"
| "number_to_pyobj (Float f) = PyFloat f"

text \<open>\<^verbatim>\<open>PyDict::set_item\<close>.\<close>

fun set_item :: "string \<Rightarrow> py_obj \<Rightarrow> (string option \<times> py_obj) list \<Rightarrow> (string option \<times> py_obj) list" where
  "set_item k v [] = [(Some k, v)]"
| "set_item k v ((k', v') # d) = (if k' = Some k then (k', v) # d else (k', v') # set_item k v d)"

fun json_value_to_pyobj :: "json \<Rightarrow> py_obj"
  and array_to_list :: "json list \<Rightarrow> py_obj list \<Rightarrow> py_obj list"
  and map_to_dict :: "json obj \<Rightarrow> (string option \<times> py_obj) list \<Rightarrow> (string option \<times> py_obj) list" where
  "json_value_to_pyobj JNull = PyNone"
| "json_value_to_pyobj (JBool b) = PyBool b"
| "json_value_to_pyobj (JNumber n) = number_to_pyobj n"
| "json_value_to_pyobj (JString s) = PyStr (Some s)"
| "json_value_to_pyobj (JArray arr) = PyList (array_to_list arr [])"
| "json_value_to_pyobj (JObject m) = PyDict (map_to_dict m [])"
| "array_to_list [] lst = lst"
| "array_to_list (item # arr) lst = array_to_list arr (lst @ [json_value_to_pyobj item])"
| "map_to_dict [] d = d"
| "map_to_dict ((k, v) # m) d = map_to_dict m (set_item k (json_value_to_pyobj v) d)"

section \<open>Exceptions\<close>

datatype engine_error =
    EngineConfig string
  | EngineUnknownHook string
  | EngineTimeout string "64 word"
  | EngineViolation string string
  | EngineExecution string string

fun plugin_error_to_pyerr :: "engine_error \<Rightarrow> py_exc" where
  "plugin_error_to_pyerr (EngineConfig message) = ValueError (''cpex config error: '' @ message)"
| "plugin_error_to_pyerr (EngineUnknownHook hook_type) =
     ValueError (''cpex unknown hook type: '' @ hook_type)"
| "plugin_error_to_pyerr (EngineTimeout plugin_name timeout_ms) =
     TimeoutError (''cpex plugin '' @ sq plugin_name @ '' timed out after '' @ show_nat (unat timeout_ms) @ ''ms'')"
| "plugin_error_to_pyerr (EngineViolation plugin_name reason) =
     RuntimeError (''cpex plugin '' @ sq plugin_name @ '' denied: '' @ reason)"
| "plugin_error_to_pyerr (EngineExecution plugin_name message) =
     RuntimeError (''cpex plugin '' @ sq plugin_name @ '' execution error: '' @ message)"

definition py_shut_down_error :: "string \<Rightarrow> py_exc" where
  "py_shut_down_error op =
     RuntimeError (''cpex: cannot call '' @ op @ ''() after shutdown(); create a new PolicyEngine'')"

fun lifecycle_error_to_pyerr :: "engine_error LifecycleError \<Rightarrow> string \<Rightarrow> py_exc" where
  "lifecycle_error_to_pyerr EngineShutDown op = py_shut_down_error op"
| "lifecycle_error_to_pyerr LifecycleTimeout op =
     TimeoutError (''cpex: PolicyEngine::'' @ op @ '' timed out'')"
| "lifecycle_error_to_pyerr (LifecyclePanicked msg) op =
     RuntimeError (''cpex: PolicyEngine::'' @ op @ '' panicked: '' @ msg)"
| "lifecycle_error_to_pyerr (EngineError e) op = plugin_error_to_pyerr e"

section \<open>The environment\<close>

text \<open>\<open>'g\<close> is the engine, \<open>'o\<close> a value of the engine that is only passed along. An error
  of a codec is its rendered message.\<close>

record ('g, 'o) py_env =
  pe_read_file :: "string \<Rightarrow> string + string"
  pe_default_engine :: 'g
  pe_install_host_defaults :: "bool \<Rightarrow> 'g \<Rightarrow> 'g"
  pe_load_config_yaml :: "string \<Rightarrow> 'g \<Rightarrow> engine_error + 'g"
  pe_message_from :: "json \<Rightarrow> string + 'o"
  pe_identity_from :: "json \<Rightarrow> string + 'o IdentityPayload"
  pe_extensions_from :: "json \<Rightarrow> string + 'o"
  pe_context_from :: "json \<Rightarrow> string + 'o"
  pe_message_value :: "'o \<Rightarrow> string + json"
  pe_identity_value :: "'o IdentityPayload \<Rightarrow> string + json"
  pe_extensions_value :: "'o \<Rightarrow> string + json"
  pe_violation_value :: "PluginViolation \<Rightarrow> string + json"
  pe_record_value :: "PluginErrorRecord \<Rightarrow> string + json"
  pe_context_value :: "'o \<Rightarrow> string + json"

section \<open>The request\<close>

definition py_reject_removed_hook :: "string \<Rightarrow> py_exc + unit" where
  "py_reject_removed_hook hook_name =
     (case removed_hook_replacement hook_name of
        Some replacement \<Rightarrow>
          Inl (ValueError (''cpex: hook '' @ sq hook_name @ '' was removed; use '' @ sq replacement))
      | None \<Rightarrow> Inr ())"

definition resolve_payload :: "('g, 'o) py_env \<Rightarrow> string \<Rightarrow> json \<Rightarrow> py_exc + 'o ffi_payload" where
  "resolve_payload E hook_name value =
     (if hook_name = HOOK_IDENTITY_RESOLVE then
        rbind (map_err (\<lambda>e. ValueError (''cpex: payload for '' @ sq hook_name
                 @ '' is not a valid IdentityPayload: '' @ e)) (pe_identity_from E value)) (\<lambda>idp.
        let resolved = resolved_identity_fields idp in
        if resolved \<noteq> [] then
          Inl (ValueError (''cpex: payload for '' @ sq hook_name
            @ '' must not set resolver output fields: '' @ join '', '' resolved))
        else Inr (Identity idp))
      else if prefix ''cmf.'' hook_name then
        rbind (map_err (\<lambda>e. ValueError (''cpex: payload for '' @ sq hook_name
                 @ '' is not a valid MessagePayload: '' @ e)) (pe_message_from E value)) (\<lambda>msg.
        Inr (CmfMessage msg))
      else Inr (GenericPayload value))"

definition extensions_from_value :: "('g, 'o) py_env \<Rightarrow> json \<Rightarrow> py_exc + 'o" where
  "extensions_from_value E value =
     map_err (\<lambda>e. ValueError (''cpex: extensions conversion failed: '' @ e)) (pe_extensions_from E value)"

definition context_table_from_value :: "('g, 'o) py_env \<Rightarrow> json \<Rightarrow> py_exc + 'o option" where
  "context_table_from_value E value =
     (if is_null value then Inr None
      else rbind (map_err (\<lambda>e. ValueError (''cpex: context_table conversion failed: '' @ e))
             (pe_context_from E value)) (\<lambda>t. Inr (Some t)))"

definition ensure_live_py :: "'e Lifecycle \<Rightarrow> string \<Rightarrow> py_exc + unit" where
  "ensure_live_py s op = (if shutdown_started s then Inl (py_shut_down_error op) else Inr ())"

text \<open>The part of \<^verbatim>\<open>invoke_hook\<close> that runs when it is called: the arguments of the
  engine's \<^verbatim>\<open>invoke_by_name\<close>, or the exception raised.\<close>

definition invoke_hook_request ::
  "('g, 'o) py_env \<Rightarrow> 'e Lifecycle \<Rightarrow> string \<Rightarrow> py_obj \<Rightarrow> py_obj option \<Rightarrow> py_obj option
     \<Rightarrow> py_exc + (string \<times> 'o ffi_payload \<times> 'o \<times> 'o option)" where
  "invoke_hook_request E s hook_name payload extensions context_table =
     rbind (ensure_live_py s ''invoke_hook'') (\<lambda>_.
     rbind (py_reject_removed_hook hook_name) (\<lambda>_.
     rbind (pyobj_to_json_value 0 payload) (\<lambda>payload_value.
     rbind (resolve_payload E hook_name payload_value) (\<lambda>rust_payload.
     rbind (case extensions of None \<Rightarrow> Inr (JObject []) | Some x \<Rightarrow> pyobj_to_json_value 0 x) (\<lambda>ext_value.
     rbind (extensions_from_value E ext_value) (\<lambda>rust_extensions.
     rbind (case context_table of None \<Rightarrow> Inr JNull | Some x \<Rightarrow> pyobj_to_json_value 0 x) (\<lambda>ctx_value.
     rbind (context_table_from_value E ctx_value) (\<lambda>rust_context.
     Inr (hook_name, rust_payload, rust_extensions, rust_context)))))))))"

section \<open>The result\<close>

record PyPipelineResult =
  py_continue_processing :: bool
  py_modified_payload :: "json option"
  py_payload_modified :: bool
  py_modified_extensions :: "json option"
  py_violation :: "json option"
  py_errors :: "json list"
  py_metadata :: "json option"
  py_context_table :: json

definition py_serialize_payload :: "('g, 'o) py_env \<Rightarrow> 'o ffi_payload \<Rightarrow> json option" where
  "py_serialize_payload E payload =
     (case payload of
        CmfMessage mp \<Rightarrow> result_ok (pe_message_value E mp)
      | Identity idp \<Rightarrow> result_ok (identity_result_value (pe_identity_value E) idp)
      | GenericPayload v \<Rightarrow> Some v
      | OtherPayload _ \<Rightarrow> None)"

definition py_error_record :: PluginErrorRecord where
  "py_error_record =
     \<lparr> er_plugin_name = ''<py>'',
       er_message = ''modified payload could not be serialised across the PyO3 boundary'',
       er_code = Some ''py_serialize_error'', er_details = [], er_proto_error_code = None \<rparr>"

text \<open>\<^verbatim>\<open>Option::map(to_value).transpose()\<close>.\<close>

definition transposed :: "('a \<Rightarrow> string + json) \<Rightarrow> string \<Rightarrow> 'a option \<Rightarrow> py_exc + json option" where
  "transposed f what x =
     (case x of None \<Rightarrow> Inr None
      | Some v \<Rightarrow> rbind (map_err (\<lambda>e. RuntimeError (''cpex: '' @ what @ '' serialization failed: '' @ e)) (f v))
          (\<lambda>j. Inr (Some j)))"

definition pipeline_result_to_py :: "('g, 'o) py_env \<Rightarrow> 'o PipelineResult \<Rightarrow> py_exc + PyPipelineResult" where
  "pipeline_result_to_py E result =
     (let modified = Option.bind (pr_modified_payload result) (py_serialize_payload E);
          errors = pr_errors result @
            (if pr_modified_payload result \<noteq> None \<and> modified = None then [py_error_record] else [])
      in rbind (transposed (pe_extensions_value E) ''modified_extensions'' (pr_modified_extensions result)) (\<lambda>ext.
         rbind (transposed (pe_violation_value E) ''violation'' (pr_violation result)) (\<lambda>violation.
         rbind (map_err (\<lambda>e. RuntimeError (''cpex: errors serialization failed: '' @ e))
                  (rmap (pe_record_value E) errors)) (\<lambda>errors.
         rbind (map_err (\<lambda>e. RuntimeError (''cpex: context_table serialization failed: '' @ e))
                  (pe_context_value E (pr_context_table result))) (\<lambda>context_table.
         Inr \<lparr> py_continue_processing = pr_continue_processing result, py_modified_payload = modified,
           py_payload_modified = pr_payload_modified result, py_modified_extensions = ext,
           py_violation = violation, py_errors = errors, py_metadata = pr_metadata result,
           py_context_table = context_table \<rparr>)))))"

text \<open>The getters: a value that is no object raises.\<close>

definition dict_or :: "string \<Rightarrow> json \<Rightarrow> py_exc + py_obj" where
  "dict_or what v =
     (case json_value_to_pyobj v of
        PyDict d \<Rightarrow> Inr (PyDict d)
      | _ \<Rightarrow> Inl (RuntimeError (''cpex: '' @ what @ '' is not a dict'')))"

definition optional_dict :: "string \<Rightarrow> json option \<Rightarrow> py_exc + py_obj option" where
  "optional_dict what v =
     (case v of None \<Rightarrow> Inr None | Some v \<Rightarrow> rbind (dict_or what v) (\<lambda>d. Inr (Some d)))"

definition get_modified_payload :: "PyPipelineResult \<Rightarrow> py_exc + py_obj option" where
  "get_modified_payload r = optional_dict ''modified_payload'' (py_modified_payload r)"

definition get_modified_extensions :: "PyPipelineResult \<Rightarrow> py_exc + py_obj option" where
  "get_modified_extensions r = optional_dict ''modified_extensions'' (py_modified_extensions r)"

definition get_violation :: "PyPipelineResult \<Rightarrow> py_exc + py_obj option" where
  "get_violation r = optional_dict ''violation'' (py_violation r)"

definition get_errors :: "PyPipelineResult \<Rightarrow> py_exc + py_obj list" where
  "get_errors r = rmap (dict_or ''error entry'') (py_errors r)"

definition get_metadata :: "PyPipelineResult \<Rightarrow> py_exc + py_obj option" where
  "get_metadata r = optional_dict ''metadata'' (py_metadata r)"

definition get_context_table :: "PyPipelineResult \<Rightarrow> py_exc + py_obj" where
  "get_context_table r = dict_or ''context_table'' (py_context_table r)"

definition result_repr :: "PyPipelineResult \<Rightarrow> string" where
  "result_repr r = ''PipelineResult(continue_processing='' @ (if py_continue_processing r then ''true'' else ''false'')
     @ '', violation='' @ (if py_violation r \<noteq> None then ''Some(...)'' else ''None'')
     @ '', errors='' @ show_nat (length (py_errors r)) @ '')''"

section \<open>The methods\<close>

definition engine_new ::
  "('g, 'o) py_env \<Rightarrow> string \<Rightarrow> bool \<Rightarrow> py_exc + 'g \<times> engine_error Lifecycle" where
  "engine_new E config_path allow_private_destinations =
     rbind (map_err (\<lambda>e. ValueError (''cpex: cannot read config file '' @ sq config_path @ '': '' @ e))
              (pe_read_file E config_path)) (\<lambda>yaml.
     rbind (map_err plugin_error_to_pyerr
              (pe_load_config_yaml E yaml
                 (pe_install_host_defaults E allow_private_destinations (pe_default_engine E)))) (\<lambda>inner.
     Inr (inner, lifecycle_new)))"

text \<open>The outcome of the engine's task under the wall clock; the background tasks are dropped.\<close>

definition invoke_with_timeout ::
  "('g, 'o) py_env \<Rightarrow> nat \<Rightarrow> ('o PipelineResult \<times> 'o) awaited \<Rightarrow> py_exc + PyPipelineResult" where
  "invoke_with_timeout E timeout_secs outcome =
     (case outcome of
        Some (Inr (pipeline_result, bg_tasks)) \<Rightarrow> pipeline_result_to_py E pipeline_result
      | Some (Inl (TaskPanicked p)) \<Rightarrow> Inl (RuntimeError (''cpex: plugin panicked: '' @ panic_message p))
      | Some (Inl TaskCancelled) \<Rightarrow> Inl (RuntimeError ''cpex: plugin task was cancelled'')
      | None \<Rightarrow> Inl (TimeoutError (''cpex: invoke_hook timed out after '' @ show_nat timeout_secs @ ''s'')))"

definition PY_WALL_CLOCK_TIMEOUT :: nat where
  "PY_WALL_CLOCK_TIMEOUT = 60"

text \<open>\<open>engine\<close> is what becomes of the engine's task for a request.\<close>

definition invoke_hook ::
  "('g, 'o) py_env \<Rightarrow> (string \<times> 'o ffi_payload \<times> 'o \<times> 'o option \<Rightarrow> ('o PipelineResult \<times> 'o) awaited)
     \<Rightarrow> 'e Lifecycle \<Rightarrow> string \<Rightarrow> py_obj \<Rightarrow> py_obj option \<Rightarrow> py_obj option \<Rightarrow> py_exc + PyPipelineResult" where
  "invoke_hook E engine s hook_name payload extensions context_table =
     rbind (invoke_hook_request E s hook_name payload extensions context_table) (\<lambda>request.
     invoke_with_timeout E PY_WALL_CLOCK_TIMEOUT (engine request))"

text \<open>\<^verbatim>\<open>Refresh::into_pyobject\<close>.\<close>

definition refresh_into_pyobject :: "RefreshSummary \<Rightarrow> py_obj" where
  "refresh_into_pyobject report =
     PyDict
       [(Some ''updated'', PyList (map (\<lambda>s. PyStr (Some s)) (rs_updated report))),
        (Some ''unchanged'', PyInt (uint (rs_unchanged report))),
        (Some ''failed'', PyList (map (\<lambda>f. PyDict
           [(Some ''secret'', PyStr (Some (rf_secret f))), (Some ''provider'', PyStr (Some (rf_provider f))),
            (Some ''kind'', PyStr (Some (rf_kind f))), (Some ''message'', PyStr (Some (rf_message f)))])
          (rs_failed report)))]"

definition refresh_secrets_py ::
  "'e Lifecycle \<Rightarrow> RefreshReport awaited \<Rightarrow> py_exc + py_obj" where
  "refresh_secrets_py s outcome =
     rbind (ensure_live_py s ''refresh_secrets'') (\<lambda>_.
     rbind (map_err (\<lambda>e. lifecycle_error_to_pyerr e ''refresh_secrets'') (lifecycle_refresh_secrets outcome)) (\<lambda>report.
     Inr (refresh_into_pyobject (refresh_summary report))))"

section \<open>What the conversion accepts\<close>

declare pyobj_to_json_value.simps [simp del]

lemmas to_json_simps [simp] = pyobj_to_json_value.simps [of level PyNone for level]
  pyobj_to_json_value.simps [of level "PyBool b" for level b]
  pyobj_to_json_value.simps [of level "PyInt i" for level i]
  pyobj_to_json_value.simps [of level "PyFloat v" for level v]
  pyobj_to_json_value.simps [of level "PyStr t" for level t]
  pyobj_to_json_value.simps [of level "PyList xs" for level xs]
  pyobj_to_json_value.simps [of level "PyDict d" for level d]
  pyobj_to_json_value.simps [of level "PyOther n" for level n]

text \<open>Every part can be converted, and the nesting of a value.\<close>

fun convertible :: "py_obj \<Rightarrow> bool" where
  "convertible (PyInt i) = (- (2 ^ 63) \<le> i \<and> i < 2 ^ 63)"
| "convertible (PyFloat v) = f64_finite v"
| "convertible (PyStr t) = (t \<noteq> None)"
| "convertible (PyList xs) = (\<forall>x\<in>set xs. convertible x)"
| "convertible (PyDict d) = (\<forall>e\<in>set d. fst e \<noteq> None \<and> convertible (snd e))"
| "convertible (PyOther _) = False"
| "convertible _ = True"

fun nested_within :: "nat \<Rightarrow> py_obj \<Rightarrow> bool" where
  "nested_within n (PyList xs) = (\<forall>x\<in>set xs. 0 < n \<and> nested_within (n - 1) x)"
| "nested_within n (PyDict d) = (\<forall>e\<in>set d. 0 < n \<and> nested_within (n - 1) (snd e))"
| "nested_within n _ = True"

text \<open>Dicts have distinct keys.\<close>

fun dict_ok :: "py_obj \<Rightarrow> bool" where
  "dict_ok (PyList xs) = (\<forall>x\<in>set xs. dict_ok x)"
| "dict_ok (PyDict d) = (distinct (map fst d) \<and> (\<forall>e\<in>set d. dict_ok (snd e)))"
| "dict_ok _ = True"

lemma accepted_iff:
  "(\<exists>v. pyobj_to_json_value level x = Inr v) \<longleftrightarrow>
     level \<le> 128 \<and> convertible x \<and> nested_within (128 - level) x"
  "(\<exists>vs. items_to_json level xs out = Inr vs) \<longleftrightarrow>
     (\<forall>x\<in>set xs. level \<le> 128 \<and> convertible x \<and> nested_within (128 - level) x)"
  "(\<exists>m'. entries_to_json level d m = Inr m') \<longleftrightarrow>
     (\<forall>e\<in>set d. level \<le> 128 \<and> fst e \<noteq> None \<and> convertible (snd e) \<and> nested_within (128 - level) (snd e))"
proof (induction level x and level xs out and level d m
    rule: pyobj_to_json_value_items_to_json_entries_to_json.induct)
  case (1 level x)
  show ?case
  proof (cases x)
    case (PyList xs)
    with 1 show ?thesis by (cases "level < 128") (auto simp: Suc_le_eq)
  next
    case (PyDict d)
    with 1 show ?thesis by (cases "level < 128") (auto simp: Suc_le_eq)
  next
    case (PyStr t)
    then show ?thesis by (cases t) auto
  qed auto
next
  case (3 level item items out)
  then show ?case by (cases "pyobj_to_json_value level item") auto
next
  case (5 level k v d m)
  then show ?case by (cases k; cases "pyobj_to_json_value level v") auto
qed simp_all

section \<open>Round trips\<close>

lemma array_to_list_map: "array_to_list arr lst = lst @ map json_value_to_pyobj arr"
  by (induction arr arbitrary: lst) simp_all

abbreviation entry_to_item :: "string \<times> json \<Rightarrow> string option \<times> py_obj" where
  "entry_to_item e \<equiv> (Some (fst e), json_value_to_pyobj (snd e))"

lemma set_item_new: "Some k \<notin> fst ` set d \<Longrightarrow> set_item k v d = d @ [(Some k, v)]"
  by (induction d) auto

lemma map_to_dict_map:
  "distinct (map fst m) \<Longrightarrow> (\<forall>k\<in>fst ` set m. Some k \<notin> fst ` set d) \<Longrightarrow>
     map_to_dict m d = d @ map entry_to_item m"
proof (induction m arbitrary: d)
  case (Cons e m)
  then have "set_item (fst e) (json_value_to_pyobj (snd e)) d = d @ [entry_to_item e]"
    by (intro set_item_new) auto
  with Cons.prems Cons.IH [of "d @ [entry_to_item e]"] show ?case by (cases e) auto
qed simp

lemma obj_insert_new: "k \<notin> fst ` set m \<Longrightarrow> obj_insert k v m = m @ [(k, v)]"
  by (induction m) auto

lemma signed_bits: "- (2 ^ 63) \<le> i \<Longrightarrow> i < 2 ^ 63 \<Longrightarrow> sint (word_of_int i :: 64 word) = i"
  by (simp add: sint_sbintrunc' signed_take_bit_int_eq_self)

lemma jint_to_pyobj:
  assumes "- (2 ^ 63) \<le> i" "i < 2 ^ 63"
  shows "json_value_to_pyobj (jint i) = PyInt i"
proof (cases "i < 0")
  case True
  with assms show ?thesis by (simp add: jint_def signed_bits)
next
  case False
  with assms have "uint (word_of_int i :: 64 word) = i" by (simp add: uint_word_of_int)
  moreover from this have "unat (word_of_int i :: 64 word) < 2 ^ 63"
    using assms by (metis False linorder_not_less nat_less_numeral_power_cancel_iff unat_eq_nat_uint)
  ultimately show ?thesis using False by (simp add: jint_def)
qed

lemma converted_back:
  "pyobj_to_json_value level x = Inr v \<Longrightarrow> dict_ok x \<Longrightarrow> json_value_to_pyobj v = x"
  "items_to_json level xs out = Inr vs \<Longrightarrow> (\<forall>x\<in>set xs. dict_ok x) \<Longrightarrow>
     map json_value_to_pyobj vs = map json_value_to_pyobj out @ xs"
  "entries_to_json level d m = Inr m' \<Longrightarrow> (\<forall>e\<in>set d. dict_ok (snd e)) \<Longrightarrow> distinct (map fst d) \<Longrightarrow>
     distinct (map fst m) \<Longrightarrow> (\<forall>k\<in>fst ` set m. Some k \<notin> fst ` set d) \<Longrightarrow>
     distinct (map fst m') \<and> map entry_to_item m' = map entry_to_item m @ d"
proof (induction level x and level xs out and level d m arbitrary: v and vs and m'
    rule: pyobj_to_json_value_items_to_json_entries_to_json.induct)
  case (1 level x)
  show ?case
  proof (cases x)
    case (PyInt i)
    with 1 show ?thesis by (auto simp: jint_to_pyobj split: if_splits)
  next
    case (PyFloat w)
    with 1 show ?thesis by (auto split: if_splits)
  next
    case (PyStr t)
    with 1 show ?thesis by (cases t) (auto split: if_splits)
  next
    case (PyList xs)
    with 1 show ?thesis by (auto simp: array_to_list_map split: if_splits)
  next
    case (PyDict d)
    with 1 show ?thesis by (auto simp: map_to_dict_map split: if_splits)
  qed (use 1 in \<open>auto split: if_splits\<close>)
next
  case (5 level k v d m)
  from 5 obtain key w where k: "k = Some key" and w: "pyobj_to_json_value level v = Inr w"
    "entries_to_json level d (obj_insert key w m) = Inr m'" by (cases k) auto
  have new: "obj_insert key w m = m @ [(key, w)]"
    using 5 k by (intro obj_insert_new) auto
  have "json_value_to_pyobj w = v" using "5.IH"(1) [OF k w(1)] "5.prems" by simp
  moreover have "distinct (map fst m') \<and> map entry_to_item m' = map entry_to_item (m @ [(key, w)]) @ d"
    using "5.IH"(2) [OF k w(2)] "5.prems" k new by auto
  ultimately show ?case using k by simp
qed auto

text \<open>The JSON values Python can hold without loss: no number above \<^verbatim>\<open>i64::MAX\<close>.\<close>

fun representable :: "json \<Rightarrow> bool" where
  "representable (JNumber (PosInt n)) = (unat n < 2 ^ 63)"
| "representable (JNumber (NegInt n)) = (sint n < 0)"
| "representable (JNumber (Float f)) = f64_finite f"
| "representable (JArray xs) = (\<forall>x\<in>set xs. representable x)"
| "representable (JObject m) = (distinct (map fst m) \<and> (\<forall>e\<in>set m. representable (snd e)))"
| "representable _ = True"

fun json_within :: "nat \<Rightarrow> json \<Rightarrow> bool" where
  "json_within n (JArray xs) = (\<forall>x\<in>set xs. 0 < n \<and> json_within (n - 1) x)"
| "json_within n (JObject m) = (\<forall>e\<in>set m. 0 < n \<and> json_within (n - 1) (snd e))"
| "json_within n _ = True"

lemma items_back:
  "(\<And>x. x \<in> set arr \<Longrightarrow> pyobj_to_json_value level (json_value_to_pyobj x) = Inr x) \<Longrightarrow>
     items_to_json level (map json_value_to_pyobj arr) out = Inr (out @ arr)"
  by (induction arr arbitrary: out) simp_all

lemma entries_back:
  "(\<And>e. e \<in> set m \<Longrightarrow> pyobj_to_json_value level (json_value_to_pyobj (snd e)) = Inr (snd e)) \<Longrightarrow>
     distinct (map fst (m' @ m)) \<Longrightarrow> entries_to_json level (map entry_to_item m) m' = Inr (m' @ m)"
proof (induction m arbitrary: m')
  case (Cons e m)
  then have "obj_insert (fst e) (snd e) m' = m' @ [e]" by (subst obj_insert_new) auto
  with Cons show ?case by auto
qed simp

lemma int_back: "- (2 ^ 63) \<le> sint (n :: 64 word) \<and> sint n < 2 ^ 63"
  using sint_ge [of n] sint_lt [of n] by simp

lemma number_back:
  assumes "representable (JNumber n)" "level \<le> 128"
  shows "pyobj_to_json_value level (number_to_pyobj n) = Inr (JNumber n)"
proof (cases n)
  case (PosInt w)
  with assms have small: "unat w < 2 ^ 63" by simp
  then have "int (unat w) < int (2 ^ 63)" by (simp only: of_nat_less_iff)
  moreover have "int (unat w) = uint w" by simp
  ultimately have "uint w < 2 ^ 63" by (simp only: of_nat_power of_nat_numeral)
  moreover have "\<not> uint w < 0" using uint_ge_0 [of w] by linarith
  moreover have "- (2 ^ 63) \<le> uint w" by (rule order_trans [OF _ uint_ge_0]) simp
  ultimately have "pyobj_to_json_value level (PyInt (uint w)) = Inr (JNumber (PosInt w))"
    using assms(2) by (simp add: jint_def)
  with PosInt small show ?thesis by simp
next
  case (NegInt w)
  with assms int_back [of w] show ?thesis by (simp add: jint_def)
next
  case (Float f)
  with assms show ?thesis by simp
qed

lemma json_back:
  "representable v \<Longrightarrow> level \<le> 128 \<Longrightarrow> json_within (128 - level) v \<Longrightarrow>
     pyobj_to_json_value level (json_value_to_pyobj v) = Inr v"
proof (induction v arbitrary: level)
  case (JNumber n)
  then show ?case by (simp add: number_back del: number_to_pyobj.simps)
next
  case (JArray xs)
  have "items_to_json (level + 1) (map json_value_to_pyobj xs) [] = Inr ([] @ xs)"
    by (rule items_back) (use JArray in auto)
  with JArray show ?case by (simp add: array_to_list_map)
next
  case (JObject m)
  have "entries_to_json (level + 1) (map entry_to_item m) [] = Inr ([] @ m)"
    by (rule entries_back) (use JObject in \<open>auto simp: snds.simps\<close>)
  with JObject show ?case by (simp add: map_to_dict_map)
qed simp_all

section \<open>The exceptions of a conversion\<close>

fun big_int_in :: "py_obj \<Rightarrow> bool" where
  "big_int_in (PyInt i) = (i < - (2 ^ 63) \<or> 2 ^ 63 \<le> i)"
| "big_int_in (PyList xs) = (\<exists>x\<in>set xs. big_int_in x)"
| "big_int_in (PyDict d) = (\<exists>e\<in>set d. big_int_in (snd e))"
| "big_int_in _ = False"

text \<open>\<^verbatim>\<open>UnicodeEncodeError\<close> is a subclass of \<^verbatim>\<open>ValueError\<close>,
  \<^verbatim>\<open>OverflowError\<close> is not.\<close>

fun is_value_error :: "py_exc \<Rightarrow> bool" where
  "is_value_error (ValueError _) = True"
| "is_value_error UnicodeEncodeError = True"
| "is_value_error _ = False"

lemma conversion_raises:
  "pyobj_to_json_value level x = Inl e \<Longrightarrow> is_value_error e \<or> e = OverflowError \<and> big_int_in x"
  "items_to_json level xs out = Inl e \<Longrightarrow> is_value_error e \<or> e = OverflowError \<and> (\<exists>x\<in>set xs. big_int_in x)"
  "entries_to_json level d m = Inl e \<Longrightarrow>
     is_value_error e \<or> e = OverflowError \<and> (\<exists>a\<in>set d. big_int_in (snd a))"
proof (induction level x and level xs out and level d m
    rule: pyobj_to_json_value_items_to_json_entries_to_json.induct)
  case (1 level x)
  show ?case
  proof (cases x)
    case (PyStr t)
    with 1 show ?thesis by (cases t) (auto simp: depth_error_def split: if_splits)
  next
    case (PyList xs)
    with 1 show ?thesis by (auto simp: depth_error_def rbind_Inl_iff split: if_splits)
  next
    case (PyDict d)
    with 1 show ?thesis by (auto simp: depth_error_def rbind_Inl_iff split: if_splits)
  qed (use 1 in \<open>auto simp: depth_error_def not_le not_less split: if_splits\<close>)
next
  case (3 level item items out)
  then show ?case by (auto simp: rbind_Inl_iff)
next
  case (5 level k v d m)
  then show ?case by (cases k) (auto simp: rbind_Inl_iff key_error_def)
qed auto

lemma rbind_raises:
  "rbind r f = Inl e \<Longrightarrow> (r = Inl e \<Longrightarrow> P) \<Longrightarrow> (\<And>y. r = Inr y \<Longrightarrow> f y = Inl e \<Longrightarrow> P) \<Longrightarrow> P"
  by (cases r) auto

lemma resolve_payload_raises: "resolve_payload E h v = Inl e \<Longrightarrow> is_value_error e"
  by (auto simp: resolve_payload_def Let_def rbind_Inl_iff map_err_Inl split: if_splits)

lemma decode_raises:
  "extensions_from_value E v = Inl e \<Longrightarrow> is_value_error e"
  "context_table_from_value E v = Inl e \<Longrightarrow> is_value_error e"
  "py_reject_removed_hook h = Inl e \<Longrightarrow> is_value_error e"
  by (auto simp: extensions_from_value_def context_table_from_value_def py_reject_removed_hook_def
      rbind_Inl_iff map_err_Inl split: if_splits option.splits)

section \<open>The module\<close>

text \<open>The worker threads of the module's runtime, from \<^verbatim>\<open>CPEX_PY_WORKER_THREADS\<close>;
  absent, the number of processors.\<close>

definition py_worker_threads_from_env :: "string option \<Rightarrow> nat option" where
  "py_worker_threads_from_env var =
     (case var of None \<Rightarrow> None
      | Some raw \<Rightarrow> (case parse_usize raw of Some n \<Rightarrow> if n > 0 then Some n else None | None \<Rightarrow> None))"

section \<open>Properties\<close>

text \<open>C25: Python values survive the crossing. A value whose dicts have distinct keys and that the
  conversion accepts comes back from JSON as the very same value: nothing is rounded, truncated,
  reordered or dropped.\<close>

theorem python_value_survives:
  assumes "pyobj_to_json_value 0 x = Inr v" "dict_ok x"
  shows "json_value_to_pyobj v = x"
  by (rule converted_back(1) [OF assms])

text \<open>C26: The conversion accepts exactly the values made of encodable texts, integers of 64 bits, finite
  floats and dicts with text keys, nested at most 128 levels deep.\<close>

theorem python_values_accepted:
  "(\<exists>v. pyobj_to_json_value 0 x = Inr v) \<longleftrightarrow> convertible x \<and> nested_within 128 x"
  using accepted_iff(1) [of 0 x] by simp

text \<open>The other way round, every JSON value without numbers above \<^verbatim>\<open>i64::MAX\<close>,
  nested at most 128 levels deep, is unchanged by a pass through Python.\<close>

theorem json_value_survives:
  assumes "representable v" "json_within 128 v"
  shows "pyobj_to_json_value 0 (json_value_to_pyobj v) = Inr v"
  using json_back [OF assms(1), of 0] assms(2) by simp

text \<open>A number above \<^verbatim>\<open>i64::MAX\<close> silently becomes a float: a result that holds it
  shows Python a rounded value, and different numbers look the same.\<close>

theorem large_unsigned_is_rounded:
  "json_value_to_pyobj (JNumber (PosInt (2 ^ 63 + 1))) = json_value_to_pyobj (JNumber (PosInt (2 ^ 63))) \<and>
   json_value_to_pyobj (JNumber (PosInt (2 ^ 63))) = PyFloat (1086 * 2 ^ 52)"
  by (simp add: f64_of_large_def Let_def)

text \<open>\<open>crosses x v\<close>: \<open>v\<close> is the JSON of the Python value \<open>x\<close>, and \<open>x\<close> can be read back from it.\<close>

definition crosses :: "py_obj \<Rightarrow> json \<Rightarrow> bool" where
  "crosses x v \<longleftrightarrow> pyobj_to_json_value 0 x = Inr v \<and> (dict_ok x \<longrightarrow> json_value_to_pyobj v = x)"

lemma crosses_iff: "crosses x v \<longleftrightarrow> pyobj_to_json_value 0 x = Inr v"
  using converted_back(1) [of 0 x v] by (auto simp: crosses_def)

text \<open>C13: What a hook call hands the engine. A call that gets that far was made when shutdown had not
  been started, under a hook name that was not removed. Its payload is made from the caller's
  object, value for value: the identity payload the engine reads from it, in which every output of
  the resolver is unset, so a caller cannot forge an identity, under
  \<^verbatim>\<open>identity.resolve\<close>; the message the engine reads from it under a
  \<^verbatim>\<open>cmf.\<close> hook; the very value under any other hook. The extensions and the
  context table are the ones the engine reads from the caller's objects, and empty extensions and
  no table where the caller gave none.\<close>

theorem hook_request_admitted:
  assumes "invoke_hook_request E s hook_name payload extensions context_table = Inr (h, p, x, c)"
  shows "h = hook_name \<and> \<not> shutdown_started s \<and> removed_hook_replacement hook_name = None \<and>
    (\<exists>v. crosses payload v \<and>
      (case p of
         Identity i \<Rightarrow> hook_name = HOOK_IDENTITY_RESOLVE \<and> pe_identity_from E v = Inr i \<and>
           resolved_identity_fields i = []
       | CmfMessage m \<Rightarrow> prefix ''cmf.'' hook_name \<and> pe_message_from E v = Inr m
       | GenericPayload w \<Rightarrow> hook_name \<noteq> HOOK_IDENTITY_RESOLVE \<and> \<not> prefix ''cmf.'' hook_name \<and> w = v
       | OtherPayload _ \<Rightarrow> False)) \<and>
    (\<exists>v. (case extensions of None \<Rightarrow> v = JObject [] | Some y \<Rightarrow> crosses y v) \<and> pe_extensions_from E v = Inr x) \<and>
    (\<exists>v. (case context_table of None \<Rightarrow> v = JNull | Some y \<Rightarrow> crosses y v) \<and>
      (if v = JNull then c = None else map_option Inr c = Some (pe_context_from E v)))"
proof -
  from assms obtain v e t where v: "pyobj_to_json_value 0 payload = Inr v"
    and p: "resolve_payload E hook_name v = Inr p"
    and live: "ensure_live_py s ''invoke_hook'' = Inr ()" and hook: "py_reject_removed_hook hook_name = Inr ()"
    and e: "(case extensions of None \<Rightarrow> Inr (JObject []) | Some x \<Rightarrow> pyobj_to_json_value 0 x) = Inr e"
      "extensions_from_value E e = Inr x"
    and t: "(case context_table of None \<Rightarrow> Inr JNull | Some x \<Rightarrow> pyobj_to_json_value 0 x) = Inr t"
      "context_table_from_value E t = Inr c"
    and h: "h = hook_name"
    unfolding invoke_hook_request_def by auto
  from live have 1: "\<not> shutdown_started s" by (auto simp: ensure_live_py_def split: if_splits)
  from hook have 2: "removed_hook_replacement hook_name = None"
    by (auto simp: py_reject_removed_hook_def split: option.splits)
  from p have 3: "case p of
         Identity i \<Rightarrow> hook_name = HOOK_IDENTITY_RESOLVE \<and> pe_identity_from E v = Inr i \<and>
           resolved_identity_fields i = []
       | CmfMessage m \<Rightarrow> prefix ''cmf.'' hook_name \<and> pe_message_from E v = Inr m
       | GenericPayload w \<Rightarrow> hook_name \<noteq> HOOK_IDENTITY_RESOLVE \<and> \<not> prefix ''cmf.'' hook_name \<and> w = v
       | OtherPayload _ \<Rightarrow> False"
    by (auto simp: resolve_payload_def Let_def split: if_splits)
  from e have 4: "(case extensions of None \<Rightarrow> e = JObject [] | Some y \<Rightarrow> crosses y e) \<and> pe_extensions_from E e = Inr x"
    by (auto simp: extensions_from_value_def crosses_iff split: option.splits)
  from t have 5: "(case context_table of None \<Rightarrow> t = JNull | Some y \<Rightarrow> crosses y t) \<and>
      (if t = JNull then c = None else map_option Inr c = Some (pe_context_from E t))"
    by (auto simp: context_table_from_value_def crosses_iff is_null_def split: option.splits if_splits)
  from v have "crosses payload v" by (simp add: crosses_iff)
  with 1 2 3 4 5 h show ?thesis by (intro conjI) (assumption | blast)+
qed

text \<open>The exceptions of a hook call that never reaches the engine: after \<^verbatim>\<open>shutdown()\<close>
  it is a \<^verbatim>\<open>RuntimeError\<close>; on a live engine it is a \<^verbatim>\<open>ValueError\<close>,
  except that an integer that does not fit 64 bits raises \<^verbatim>\<open>OverflowError\<close>.\<close>

theorem hook_request_exceptions:
  assumes "invoke_hook_request E s hook_name payload extensions context_table = Inl e"
  shows "if shutdown_started s then e = py_shut_down_error ''invoke_hook''
    else is_value_error e \<or> e = OverflowError \<and>
      (\<exists>x\<in>{payload} \<union> set_option extensions \<union> set_option context_table. big_int_in x)"
proof (cases "shutdown_started s")
  case True
  with assms show ?thesis by (simp add: invoke_hook_request_def ensure_live_py_def)
next
  case False
  have opt: "is_value_error e \<or> e = OverflowError \<and> (\<exists>x\<in>set_option y. big_int_in x)"
    if "(case y of None \<Rightarrow> Inr d | Some x \<Rightarrow> pyobj_to_json_value 0 x) = Inl e" for y and d :: json
    using that conversion_raises(1) by (cases y) auto
  from assms False have "is_value_error e \<or> e = OverflowError \<and>
      (\<exists>x\<in>{payload} \<union> set_option extensions \<union> set_option context_table. big_int_in x)"
    unfolding invoke_hook_request_def ensure_live_py_def
    by (elim rbind_raises) (auto dest: conversion_raises(1) resolve_payload_raises decode_raises opt)
  with False show ?thesis by simp
qed

lemma transposed_None: "transposed f what x = Inr y \<Longrightarrow> y = None \<longleftrightarrow> x = None"
  by (cases x) (auto simp: transposed_def)

text \<open>The decision reaches Python as the engine made it. A result keeps the verdict, whether the
  payload was modified, the metadata and the presence of a violation and of extensions; a payload
  that cannot be shown is reported by one more error record, never dropped in silence; and an
  identity comes without the request headers that held the inbound token.\<close>

theorem python_result_faithful:
  assumes "pipeline_result_to_py E r = Inr p"
  shows "py_continue_processing p = pr_continue_processing r \<and> py_payload_modified p = pr_payload_modified r \<and>
    py_metadata p = pr_metadata r \<and> (py_violation p = None \<longleftrightarrow> pr_violation r = None) \<and>
    (py_modified_extensions p = None \<longleftrightarrow> pr_modified_extensions r = None) \<and>
    length (py_errors p) = length (pr_errors r) +
      (if pr_modified_payload r \<noteq> None \<and> py_modified_payload p = None then 1 else 0) \<and>
    (case pr_modified_payload r of
       Some (Identity i) \<Rightarrow> (\<forall>m. pe_identity_value E i = Inr (JObject m) \<and> obj_ok m \<longrightarrow>
         py_modified_payload p = Some (JObject (obj_remove ''headers'' m)) \<and>
         obj_get (obj_remove ''headers'' m) ''headers'' = None)
     | Some (GenericPayload v) \<Rightarrow> py_modified_payload p = Some v
     | Some (OtherPayload _) \<Rightarrow> py_modified_payload p = None
     | Some (CmfMessage m) \<Rightarrow> (\<forall>v. pe_message_value E m = Inr v \<longrightarrow> py_modified_payload p = Some v)
     | None \<Rightarrow> py_modified_payload p = None)"
proof -
  let ?m = "Option.bind (pr_modified_payload r) (py_serialize_payload E)"
  from assms have p: "py_continue_processing p = pr_continue_processing r"
    "py_payload_modified p = pr_payload_modified r" "py_metadata p = pr_metadata r" "py_modified_payload p = ?m"
    and x: "transposed (pe_extensions_value E) ''modified_extensions'' (pr_modified_extensions r) =
        Inr (py_modified_extensions p)"
    and v: "transposed (pe_violation_value E) ''violation'' (pr_violation r) = Inr (py_violation p)"
    and e: "rmap (pe_record_value E) (pr_errors r @
        (if pr_modified_payload r \<noteq> None \<and> ?m = None then [py_error_record] else [])) = Inr (py_errors p)"
    unfolding pipeline_result_to_py_def Let_def by auto
  have "case pr_modified_payload r of
       Some (Identity i) \<Rightarrow> (\<forall>m. pe_identity_value E i = Inr (JObject m) \<and> obj_ok m \<longrightarrow>
         ?m = Some (JObject (obj_remove ''headers'' m)) \<and> obj_get (obj_remove ''headers'' m) ''headers'' = None)
     | Some (GenericPayload v) \<Rightarrow> ?m = Some v
     | Some (OtherPayload _) \<Rightarrow> ?m = None
     | Some (CmfMessage m) \<Rightarrow> (\<forall>v. pe_message_value E m = Inr v \<longrightarrow> ?m = Some v)
     | None \<Rightarrow> ?m = None"
    by (auto simp: py_serialize_payload_def result_ok_def identity_result_value_def split: option.split ffi_payload.split)
  with p transposed_None [OF x] transposed_None [OF v] rmap_Inr_length [OF e] show ?thesis
    by (simp only: length_append split: if_split) simp
qed

section \<open>Witnesses\<close>

definition sample_py_env :: "(unit, json) py_env" where
  "sample_py_env = \<lparr> pe_read_file = (\<lambda>_. Inr []), pe_default_engine = (),
     pe_install_host_defaults = (\<lambda>_ e. e), pe_load_config_yaml = (\<lambda>_ e. Inr e),
     pe_message_from = Inr, pe_identity_from = (\<lambda>_. Inr sample_identity), pe_extensions_from = Inr,
     pe_context_from = Inr, pe_message_value = Inr,
     pe_identity_value = (\<lambda>i. Inr (JObject [(''headers'', str_obj (ip_headers i)), (''source'', JString ''bearer'')])),
     pe_extensions_value = Inr, pe_violation_value = (\<lambda>v. Inr (JObject [(''code'', JString (pv_code v))])),
     pe_record_value = (\<lambda>r. Inr (JObject [(''message'', JString (er_message r))])), pe_context_value = Inr \<rparr>"

definition sample_py_dict :: py_obj where
  "sample_py_dict = PyDict [(Some ''tool'', PyStr (Some ''search'')),
     (Some ''args'', PyList [PyInt (- 5), PyBool True, PyNone, PyDict []])]"

definition sample_py_json :: json where
  "sample_py_json = JObject [(''tool'', JString ''search''),
     (''args'', JArray [JNumber (NegInt (- 5)), JBool True, JNull, JObject []])]"

lemma sample_converts: "pyobj_to_json_value 0 sample_py_dict = Inr sample_py_json"
  by (simp add: sample_py_dict_def sample_py_json_def jint_def)

theorem python_value_survives_witness: "json_value_to_pyobj sample_py_json = sample_py_dict"
  by (rule python_value_survives [OF sample_converts]) (simp add: sample_py_dict_def)

theorem json_value_survives_witness:
  "pyobj_to_json_value 0 (json_value_to_pyobj sample_py_json) = Inr sample_py_json"
  by (rule json_value_survives) (simp_all add: sample_py_json_def)

lemma sample_request:
  "invoke_hook_request sample_py_env (lifecycle_new :: engine_error Lifecycle) ''cmf.tool_pre_invoke'' sample_py_dict
     (Some sample_py_dict) (Some PyNone) =
     Inr (''cmf.tool_pre_invoke'', CmfMessage sample_py_json, sample_py_json, None)"
  by (simp add: invoke_hook_request_def ensure_live_py_def lifecycle_new_def py_reject_removed_hook_def
      removed_hook_replacement_def REMOVED_HOOKS_def sample_converts resolve_payload_def
      extensions_from_value_def context_table_from_value_def sample_py_env_def map_err_def is_null_def)

theorem hook_request_admitted_witness:
  "removed_hook_replacement ''cmf.tool_pre_invoke'' = None \<and> \<not> shutdown_started (lifecycle_new :: engine_error Lifecycle) \<and>
     (\<exists>v. crosses sample_py_dict v \<and> pe_message_from sample_py_env v = Inr sample_py_json) \<and>
     (\<exists>v. crosses sample_py_dict v \<and> pe_extensions_from sample_py_env v = Inr sample_py_json)"
  using hook_request_admitted [OF sample_request] by simp

theorem hook_request_exceptions_witness:
  "invoke_hook_request sample_py_env (lifecycle_new :: engine_error Lifecycle) ''custom.hook''
     (PyList [PyInt (2 ^ 63)]) None None = Inl OverflowError \<and> big_int_in (PyList [PyInt (2 ^ 63)])"
proof -
  have r: "invoke_hook_request sample_py_env (lifecycle_new :: engine_error Lifecycle) ''custom.hook''
      (PyList [PyInt (2 ^ 63)]) None None = Inl OverflowError"
    by (simp add: invoke_hook_request_def ensure_live_py_def lifecycle_new_def py_reject_removed_hook_def
        removed_hook_replacement_def REMOVED_HOOKS_def)
  from hook_request_exceptions [OF r] have "big_int_in (PyList [PyInt (2 ^ 63)])"
    by (simp only: lifecycle_new_def Lifecycle.simps is_value_error.simps py_exc.simps) simp
  with r show ?thesis by simp
qed

definition sample_py_result :: "json PipelineResult" where
  "sample_py_result = \<lparr> pr_continue_processing = True, pr_violation = None, pr_errors = [],
     pr_metadata = None, pr_modified_payload = Some (Identity sample_identity), pr_payload_modified = True,
     pr_modified_extensions = None, pr_context_table = JObject [] \<rparr>"

theorem python_result_faithful_witness:
  "\<exists>p. pipeline_result_to_py sample_py_env sample_py_result = Inr p \<and>
     py_modified_payload p = Some (JObject [(''source'', JString ''bearer'')]) \<and> py_errors p = []"
proof -
  have r: "pipeline_result_to_py sample_py_env sample_py_result =
      Inr \<lparr> py_continue_processing = True, py_modified_payload = Some (JObject [(''source'', JString ''bearer'')]),
        py_payload_modified = True, py_modified_extensions = None, py_violation = None, py_errors = [],
        py_metadata = None, py_context_table = JObject [] \<rparr>"
    by (simp add: pipeline_result_to_py_def sample_py_result_def sample_py_env_def py_serialize_payload_def
        result_ok_def identity_result_value_def transposed_def map_err_def)
  from python_result_faithful [OF r] r show ?thesis by (auto simp: sample_py_result_def)
qed

end
