(* ===== verification/Enforcement_Loop.thy ===== *)
theory Enforcement_Loop
  imports Cmf_Shim Engine_Types
begin

text \<open>
  The enforcement loop a host owns (\<^verbatim>\<open>examples/tutorial/src/mediate.rs\<close>): identity,
  Pre phase, backend, Post phase, and the approval channel a suspended call waits on
  (\<^verbatim>\<open>examples/tutorial/src/approvals.rs\<close>). The engine is external: its answer to a call
  may depend on every call made before, so it is a function of the history, newest call first. The
  engine's constructors are the record \<open>loop_env\<close>.
\<close>

section \<open>The caller and the outcome\<close>

record Caller =
  cl_token :: "string option"
  cl_extra_credentials :: "(string \<times> string) list"
  cl_session_id :: "string option"
  cl_elicitation_id :: "string option"

definition anonymous :: Caller where
  "anonymous = \<lparr> cl_token = None, cl_extra_credentials = [], cl_session_id = None, cl_elicitation_id = None \<rparr>"

definition with_token :: "string \<Rightarrow> Caller" where
  "with_token token = anonymous\<lparr> cl_token := Some token \<rparr>"

definition with_credential :: "string \<Rightarrow> string \<Rightarrow> Caller \<Rightarrow> Caller" where
  "with_credential header token c =
     c\<lparr> cl_extra_credentials := cl_extra_credentials c @ [(header, token)] \<rparr>"

definition in_session :: "string \<Rightarrow> Caller \<Rightarrow> Caller" where
  "in_session session_id c = c\<lparr> cl_session_id := Some session_id \<rparr>"

definition resuming :: "string \<Rightarrow> Caller \<Rightarrow> Caller" where
  "resuming elicitation_id c = c\<lparr> cl_elicitation_id := Some elicitation_id \<rparr>"

datatype Outcome =
    Allowed json
  | Denied (denied_code: string) (denied_reason: string)
  | Suspended (suspended_id: string) (suspended_approver: string)

fun is_allowed :: "Outcome \<Rightarrow> bool" where
  "is_allowed (Allowed _) = True"
| "is_allowed _ = False"

fun is_pending :: "Outcome \<Rightarrow> bool" where
  "is_pending (Suspended _ _) = True"
| "is_pending _ = False"

section \<open>The engine as the loop sees it\<close>

datatype 'o loop_payload =
    LoopIdentity "'o IdentityPayload"
  | LoopMessage "'o MessagePayload"
  | LoopOther 'o

record 'o loop_result =
  lr_continue_processing :: bool
  lr_violation :: "PluginViolation option"
  lr_modified_payload :: "'o loop_payload option"
  lr_modified_extensions :: "'o Extensions option"

datatype 'o engine_call =
    InvokeIdentity "'o IdentityPayload" "'o Extensions"
  | InvokeCmf string "'o MessagePayload" "'o Extensions"
  | BackendCall json

record 'o loop_env =
  meta_extension :: "string \<Rightarrow> string \<Rightarrow> 'o"
  agent_extension :: "string \<Rightarrow> 'o"
  default_http :: HttpExtension
  set_request_header :: "string \<Rightarrow> string \<Rightarrow> HttpExtension \<Rightarrow> HttpExtension"
  source_bearer :: "'o TokenSource"
  new_identity :: "string \<Rightarrow> 'o TokenSource \<Rightarrow> 'o IdentityPayload"
  apply_to_extensions :: "'o IdentityPayload \<Rightarrow> 'o Extensions \<Rightarrow> 'o Extensions"
  from_pipeline_result :: "'o loop_result \<Rightarrow> 'o IdentityPayload option"
  role_user :: 'o
  role_tool :: 'o
  with_call_id :: "string \<Rightarrow> 'o"
  default_rest :: 'o
  answer :: "'o engine_call list \<Rightarrow> 'o loop_result"

text \<open>An engine call is made, and answered in the light of the history it ends.\<close>

definition call_engine ::
  "'o loop_env \<Rightarrow> 'o engine_call \<Rightarrow> 'o engine_call list \<Rightarrow> 'o loop_result \<times> 'o engine_call list" where
  "call_engine E c h = (answer E (c # h), c # h)"

section \<open>The messages of the two phases\<close>

definition json_to_map :: "json \<Rightarrow> json obj" where
  "json_to_map args = (case args of JObject m \<Rightarrow> m | other \<Rightarrow> [(''value'', other)])"

definition tool_call_message :: "'o loop_env \<Rightarrow> string \<Rightarrow> json \<Rightarrow> 'o Message" where
  "tool_call_message E tool args =
     Message (role_user E)
       [ToolCallPart \<lparr> tc_name = tool, tc_arguments = json_to_map args, tc_namespace = None,
          tc_rest = with_call_id E ''tutorial-call'' \<rparr>] (default_rest E)"

definition tool_result_message :: "'o loop_env \<Rightarrow> string \<Rightarrow> json \<Rightarrow> 'o Message" where
  "tool_result_message E tool result =
     Message (role_tool E)
       [ToolResultPart \<lparr> tr_tool_name = tool, tr_content = result, tr_is_error = False,
          tr_rest = with_call_id E ''tutorial-call'' \<rparr>] (default_rest E)"

definition loop_message :: "'o loop_env \<Rightarrow> 'o Message \<Rightarrow> 'o MessagePayload" where
  "loop_message E m = \<lparr> message = m, payload_rest = default_rest E \<rparr>"

text \<open>\<^verbatim>\<open>Message::get_tool_results\<close>.\<close>

definition get_tool_results :: "'o Message \<Rightarrow> 'o ToolResult list" where
  "get_tool_results m = List.map_filter (\<lambda>p. case p of ToolResultPart r \<Rightarrow> Some r | _ \<Rightarrow> None) (content m)"

section \<open>The loop\<close>

definition ELICITATION_ID_HEADER :: string where
  "ELICITATION_ID_HEADER = ''X-Policy-Elicitation-Id''"

text \<open>The addresses stand for the three \<^verbatim>\<open>Arc::new\<close>.\<close>

definition base_extensions :: "'o loop_env \<Rightarrow> Caller \<Rightarrow> string \<Rightarrow> 'o Extensions" where
  "base_extensions E caller tool =
     (let ext = no_extensions\<lparr> x_meta := Some (0, meta_extension E ''tool'' tool) \<rparr>;
          ext = (case cl_session_id caller of None \<Rightarrow> ext
                 | Some sid \<Rightarrow> ext\<lparr> x_agent := Some (1, agent_extension E sid) \<rparr>) in
      case cl_elicitation_id caller of None \<Rightarrow> ext
      | Some eid \<Rightarrow>
          ext\<lparr> x_http := Some (2, set_request_header E ELICITATION_ID_HEADER eid (default_http E)) \<rparr>)"

definition credential_headers :: "Caller \<Rightarrow> (string \<times> string) list" where
  "credential_headers caller =
     fold (\<lambda>(header, tok). obj_insert (to_ascii_lowercase header) tok) (cl_extra_credentials caller)
       (case cl_token caller of None \<Rightarrow> [] | Some t \<Rightarrow> obj_insert ''authorization'' t [])"

definition identity_payload :: "'o loop_env \<Rightarrow> Caller \<Rightarrow> 'o IdentityPayload" where
  "identity_payload E caller =
     (case (cl_token caller, cl_extra_credentials caller = []) of
        (Some token, True) \<Rightarrow> new_identity E token (source_bearer E)
      | _ \<Rightarrow> (new_identity E [] (source_bearer E))\<lparr> ip_headers := credential_headers caller \<rparr>)"

definition denied_outcome :: "'o loop_result \<Rightarrow> Outcome" where
  "denied_outcome result =
     (case lr_violation result of
        Some v \<Rightarrow> Denied (pv_code v) (pv_reason v)
      | None \<Rightarrow> Denied ''policy.deny'' ''denied without a violation'')"

definition pre_refusal :: "'o loop_result \<Rightarrow> Outcome" where
  "pre_refusal pre_result =
     (case lr_violation pre_result of
        Some v \<Rightarrow>
          if pv_code v = ''elicitation.pending'' then
            Suspended
              (case Option.bind (obj_get (pv_details v) ''elicitation_id'') as_str of Some s \<Rightarrow> s | None \<Rightarrow> [])
              (case Option.bind (obj_get (pv_details v) ''approver'') as_str of Some s \<Rightarrow> s
               | None \<Rightarrow> ''the approver'')
          else denied_outcome pre_result
      | None \<Rightarrow> denied_outcome pre_result)"

text \<open>The result the caller sees.\<close>

definition shown_result :: "'o loop_result \<Rightarrow> json \<Rightarrow> json" where
  "shown_result post_result raw_result =
     (case lr_modified_payload post_result of
        Some (LoopMessage mp) \<Rightarrow>
          (case get_tool_results (message mp) of tr # _ \<Rightarrow> tr_content tr | [] \<Rightarrow> raw_result)
      | _ \<Rightarrow> raw_result)"

definition resolve_caller ::
  "'o loop_env \<Rightarrow> Caller \<Rightarrow> 'o Extensions \<Rightarrow> 'o engine_call list
     \<Rightarrow> (Outcome + 'o Extensions) \<times> 'o engine_call list" where
  "resolve_caller E caller ext h =
     (if cl_token caller \<noteq> None \<or> cl_extra_credentials caller \<noteq> [] then
        (let (id_result, h) = call_engine E (InvokeIdentity (identity_payload E caller) ext) h in
         if \<not> lr_continue_processing id_result then (Inl (denied_outcome id_result), h)
         else (Inr (case from_pipeline_result E id_result of
                      Some identity \<Rightarrow> apply_to_extensions E identity ext | None \<Rightarrow> ext), h))
      else (Inr ext, h))"

definition mediate ::
  "'o loop_env \<Rightarrow> Caller \<Rightarrow> string \<Rightarrow> json \<Rightarrow> (json \<Rightarrow> json) \<Rightarrow> 'o engine_call list
     \<Rightarrow> Outcome \<times> 'o engine_call list" where
  "mediate E caller tool args backend h =
     (case resolve_caller E caller (base_extensions E caller tool) h of
        (Inl out, h) \<Rightarrow> (out, h)
      | (Inr ext, h) \<Rightarrow>
          (let (pre_result, h) = call_engine E
                 (InvokeCmf ''cmf.tool_pre_invoke'' (loop_message E (tool_call_message E tool args)) ext) h in
           if \<not> lr_continue_processing pre_result then (pre_refusal pre_result, h)
           else
             (let post_ext = (case lr_modified_extensions pre_result of Some x \<Rightarrow> x | None \<Rightarrow> ext);
                  raw_result = backend args;
                  h = BackendCall args # h;
                  (post_result, h) = call_engine E
                    (InvokeCmf ''cmf.tool_post_invoke''
                       (loop_message E (tool_result_message E tool raw_result)) post_ext) h in
              if \<not> lr_continue_processing post_result then (denied_outcome post_result, h)
              else (Allowed (shown_result post_result raw_result), h))))"


section \<open>The approval channel\<close>

datatype Status = Pending | Approved | Rejected

record Request =
  rq_id :: string
  rq_approver :: string
  rq_purpose :: string
  rq_status :: Status

text \<open>The hash map is an association list in the iteration order of the run; the mutex makes each
  operation atomic.\<close>

type_synonym ApprovalChannel = "Request obj"

definition open_request :: "string \<Rightarrow> string \<Rightarrow> string \<Rightarrow> ApprovalChannel \<Rightarrow> ApprovalChannel" where
  "open_request i approver purpose ch =
     (case obj_get ch i of
        Some _ \<Rightarrow> ch
      | None \<Rightarrow> obj_insert i \<lparr> rq_id = i, rq_approver = approver, rq_purpose = purpose, rq_status = Pending \<rparr> ch)"

definition status_of :: "ApprovalChannel \<Rightarrow> string \<Rightarrow> Status option" where
  "status_of ch i = map_option rq_status (obj_get ch i)"

definition resolve_request :: "string \<Rightarrow> bool \<Rightarrow> ApprovalChannel \<Rightarrow> bool \<times> ApprovalChannel" where
  "resolve_request i approved ch =
     (case obj_get ch i of
        Some rq \<Rightarrow> (True, obj_insert i (rq\<lparr> rq_status := (if approved then Approved else Rejected) \<rparr>) ch)
      | None \<Rightarrow> (False, ch))"

definition list_requests :: "ApprovalChannel \<Rightarrow> Request list" where
  "list_requests ch = map snd ch"

fun debug_status :: "Status \<Rightarrow> string" where
  "debug_status Pending = ''Pending''"
| "debug_status Approved = ''Approved''"
| "debug_status Rejected = ''Denied''"

datatype http_method = Get | Post | OtherMethod

definition trim_start_matches :: "string \<Rightarrow> string \<Rightarrow> string" where
  "trim_start_matches pat s = strip_all [pat] s"

definition trim_end_matches :: "string \<Rightarrow> string \<Rightarrow> string" where
  "trim_end_matches pat s = rev (strip_all [rev pat] (rev s))"

definition line_feed :: string where
  "line_feed = [CHR 0x0A]"

definition tab :: string where
  "tab = [CHR 0x09]"

definition route_request :: "http_method \<Rightarrow> string \<Rightarrow> ApprovalChannel \<Rightarrow> (16 word \<times> string) \<times> ApprovalChannel" where
  "route_request verb url ch =
     (let path = trim_end_matches ''/'' url in
      if verb = Get \<and> path = ''/approvals'' then
        (let lines = map (\<lambda>r. rq_id r @ tab @ debug_status (rq_status r) @ tab @ ''approver='' @ rq_approver r
                            @ tab @ rq_purpose r) (list_requests ch) in
         ((200, if lines = [] then ''no pending approvals'' @ line_feed else join line_feed lines @ line_feed), ch))
      else if verb = Post \<and> (suffix ''/approve'' path \<or> suffix ''/deny'' path) then
        (let approved = suffix ''/approve'' path;
             i = trim_end_matches ''/deny'' (trim_end_matches ''/approve'' (trim_start_matches ''/approvals/'' path));
             (found, ch) = resolve_request i approved ch in
         if found then ((200, i @ (if approved then '' approved'' else '' denied'') @ line_feed), ch)
         else ((404, ''no pending approval '' @ sq i @ line_feed), ch))
      else ((404, ''not found'' @ line_feed), ch))"

section \<open>Complete mediation\<close>

datatype phase = PhIdentity | PhPre | PhBackend | PhPost

fun phase_of :: "'o engine_call \<Rightarrow> phase" where
  "phase_of (InvokeIdentity _ _) = PhIdentity"
| "phase_of (InvokeCmf hook _ _) = (if hook = ''cmf.tool_pre_invoke'' then PhPre else PhPost)"
| "phase_of (BackendCall _) = PhBackend"

definition loop_phases :: "Caller \<Rightarrow> phase list" where
  "loop_phases caller =
     (if cl_token caller \<noteq> None \<or> cl_extra_credentials caller \<noteq> [] then [PhIdentity] else [])
       @ [PhPre, PhBackend, PhPost]"

text \<open>The calls \<open>cs\<close> made after the history \<open>h\<close>, newest first: each engine call among
  them was answered with consent.\<close>

fun all_consented :: "'o loop_env \<Rightarrow> 'o engine_call list \<Rightarrow> 'o engine_call list \<Rightarrow> bool" where
  "all_consented E [] h = True"
| "all_consented E (c # cs) h =
     ((phase_of c = PhBackend \<or> lr_continue_processing (answer E (c # cs @ h))) \<and> all_consented E cs h)"

lemma refusals_are_not_allowed [simp]:
  "\<not> is_allowed (denied_outcome r)" "\<not> is_allowed (pre_refusal r)"
  by (auto simp: denied_outcome_def pre_refusal_def split: option.splits)

lemma resolve_caller_cases:
  assumes "resolve_caller E caller ext h = (r, h')"
  obtains (skipped) "cl_token caller = None" "cl_extra_credentials caller = []" "r = Inr ext" "h' = h"
  | (resolved) c where "cl_token caller \<noteq> None \<or> cl_extra_credentials caller \<noteq> []" "h' = c # h"
      "phase_of c = PhIdentity" "lr_continue_processing (answer E h') \<longleftrightarrow> (\<exists>x. r = Inr x)"
      "\<And>out. r = Inl out \<Longrightarrow> \<not> is_allowed out"
proof (cases "cl_token caller \<noteq> None \<or> cl_extra_credentials caller \<noteq> []")
  case True
  with assms resolved show thesis
    by (auto simp: resolve_caller_def call_engine_def split: if_splits)
next
  case False
  with assms skipped show thesis by (simp add: resolve_caller_def)
qed

lemma mediate_after_identity:
  assumes "resolve_caller E caller (base_extensions E caller tool) h = (r, h0)"
    and "mediate E caller tool args backend h = (out, h')"
  obtains (refused) "r = Inl out" "h' = h0"
  | (pre_refused) ext c where "r = Inr ext" "h' = c # h0" "phase_of c = PhPre"
      "\<not> lr_continue_processing (answer E h')" "\<not> is_allowed out"
  | (finished) ext c d where "r = Inr ext" "h' = d # BackendCall args # c # h0" "phase_of c = PhPre"
      "phase_of d = PhPost" "lr_continue_processing (answer E (c # h0))"
      "is_allowed out \<longleftrightarrow> lr_continue_processing (answer E h')"
      "\<not> is_allowed out \<Longrightarrow> out = denied_outcome (answer E h')"
  using assms
  by (auto simp: mediate_def call_engine_def Let_def split: sum.splits if_splits)

text \<open>C20: Complete mediation. Whatever the engine answers, the loop makes its calls in the order identity
  (when a credential was presented), Pre phase, backend, Post phase, each at most once, and goes on only
  while every engine call consented: the backend runs only after identity and Pre phase allowed the
  call. The outcome is allowed exactly when all phases ran and the last one consented; on any other
  outcome the last call made is the one that refused, so the backend ran if and only if that is the
  Post phase.\<close>

theorem every_call_is_mediated:
  assumes "mediate E caller tool args backend h = (out, h')"
  shows "\<exists>c cs. h' = (c # cs) @ h \<and> all_consented E cs h \<and>
    prefix (map phase_of (rev (c # cs))) (loop_phases caller) \<and>
    (PhBackend \<in> phase_of ` set (c # cs) \<longleftrightarrow> phase_of c = PhPost) \<and>
    (is_allowed out \<longleftrightarrow>
       map phase_of (rev (c # cs)) = loop_phases caller \<and> lr_continue_processing (answer E h')) \<and>
    (\<not> is_allowed out \<longrightarrow> \<not> lr_continue_processing (answer E h'))"
proof -
  obtain r h0 where i: "resolve_caller E caller (base_extensions E caller tool) h = (r, h0)" by fastforce
  from i show ?thesis
  proof (cases rule: resolve_caller_cases)
    case skipped
    from i assms show ?thesis
    proof (cases rule: mediate_after_identity)
      case (pre_refused ext c)
      with skipped show ?thesis by (intro exI [of _ c] exI [of _ "[]"]) (auto simp: loop_phases_def)
    next
      case (finished ext c d)
      with skipped show ?thesis
        by (intro exI [of _ d] exI [of _ "[BackendCall args, c]"]) (auto simp: loop_phases_def)
    qed (use skipped in simp)
  next
    case (resolved b)
    from i assms show ?thesis
    proof (cases rule: mediate_after_identity)
      case refused
      with resolved show ?thesis by (intro exI [of _ b] exI [of _ "[]"]) (auto simp: loop_phases_def)
    next
      case (pre_refused ext c)
      with resolved show ?thesis by (intro exI [of _ c] exI [of _ "[b]"]) (auto simp: loop_phases_def)
    next
      case (finished ext c d)
      with resolved show ?thesis
        by (intro exI [of _ d] exI [of _ "[BackendCall args, c, b]"]) (auto simp: loop_phases_def)
    qed
  qed
qed


text \<open>A denial by the Post phase comes after the tool has run: \<^verbatim>\<open>Denied\<close> does not
  mean that nothing happened.\<close>

theorem post_denial_follows_backend:
  assumes "mediate E caller tool args backend h = (out, d # h')" "phase_of d = PhPost"
    and "\<not> lr_continue_processing (answer E (d # h'))"
  shows "out = denied_outcome (answer E (d # h')) \<and> (\<exists>a. BackendCall a \<in> set h')"
proof -
  obtain r h0 where i: "resolve_caller E caller (base_extensions E caller tool) h = (r, h0)" by fastforce
  from i assms(1) show ?thesis
  proof (cases rule: mediate_after_identity)
    case refused
    from i show ?thesis
    proof (cases rule: resolve_caller_cases)
      case (resolved b)
      with refused assms(2) show ?thesis by simp
    qed (use refused in simp)
  qed (use assms(2,3) in auto)
qed

text \<open>The Pre phase cannot rewrite the arguments: the loop drops a payload it modified, and the backend
  is given the arguments as they came.\<close>

definition without_pre_rewrites :: "'o loop_env \<Rightarrow> 'o loop_env" where
  "without_pre_rewrites E = E\<lparr> answer := (\<lambda>h. case h of
       InvokeCmf hook _ _ # _ \<Rightarrow>
         if hook = ''cmf.tool_pre_invoke'' then (answer E h)\<lparr> lr_modified_payload := None \<rparr> else answer E h
     | _ \<Rightarrow> answer E h) \<rparr>"

lemma loop_env_update [simp]:
  "identity_payload (E\<lparr> answer := a \<rparr>) = identity_payload E"
  "base_extensions (E\<lparr> answer := a \<rparr>) = base_extensions E"
  "tool_call_message (E\<lparr> answer := a \<rparr>) = tool_call_message E"
  "tool_result_message (E\<lparr> answer := a \<rparr>) = tool_result_message E"
  "loop_message (E\<lparr> answer := a \<rparr>) = loop_message E"
  by (simp_all add: fun_eq_iff identity_payload_def base_extensions_def tool_call_message_def
      tool_result_message_def loop_message_def Let_def split: option.splits bool.splits)

lemma without_pre_rewrites_answer [simp]:
  "answer (without_pre_rewrites E) (InvokeIdentity p x # h) = answer E (InvokeIdentity p x # h)"
  "answer (without_pre_rewrites E) (InvokeCmf hook m x # h) =
     (if hook = ''cmf.tool_pre_invoke'' then (answer E (InvokeCmf hook m x # h))\<lparr> lr_modified_payload := None \<rparr>
      else answer E (InvokeCmf hook m x # h))"
  by (simp_all add: without_pre_rewrites_def)

lemma without_pre_rewrites_env [simp]:
  "identity_payload (without_pre_rewrites E) = identity_payload E"
  "base_extensions (without_pre_rewrites E) = base_extensions E"
  "tool_call_message (without_pre_rewrites E) = tool_call_message E"
  "tool_result_message (without_pre_rewrites E) = tool_result_message E"
  "loop_message (without_pre_rewrites E) = loop_message E"
  "from_pipeline_result (without_pre_rewrites E) = from_pipeline_result E"
  "apply_to_extensions (without_pre_rewrites E) = apply_to_extensions E"
  by (simp_all add: without_pre_rewrites_def)

lemma pre_refusal_payload [simp]: "pre_refusal (r\<lparr> lr_modified_payload := p \<rparr>) = pre_refusal r"
  by (simp add: pre_refusal_def denied_outcome_def split: option.splits)

lemma resolve_without_pre_rewrites [simp]: "resolve_caller (without_pre_rewrites E) = resolve_caller E"
  by (simp add: fun_eq_iff resolve_caller_def call_engine_def split: option.splits)

theorem pre_rewrites_are_ignored:
  "mediate (without_pre_rewrites E) caller tool args backend h = mediate E caller tool args backend h"
proof -
  obtain r h0 where "resolve_caller E caller (base_extensions E caller tool) h = (r, h0)" by fastforce
  then show ?thesis by (cases r) (simp_all add: mediate_def call_engine_def)
qed

text \<open>When the Post phase rewrote the message into one without a tool result, the caller is shown what
  the backend returned, unredacted.\<close>

theorem rewrite_without_result_shows_raw:
  assumes "lr_modified_payload post_result = Some (LoopMessage mp)" "get_tool_results (message mp) = []"
  shows "shown_result post_result raw = raw"
  using assms by (simp add: shown_result_def)

section \<open>The channel, seen from one request\<close>

text \<open>What an HTTP request decides, if anything.\<close>

definition decision :: "http_method \<Rightarrow> string \<Rightarrow> (string \<times> bool) option" where
  "decision verb url =
     (let path = trim_end_matches ''/'' url in
      if verb = Post \<and> (suffix ''/approve'' path \<or> suffix ''/deny'' path) then
        Some (trim_end_matches ''/deny'' (trim_end_matches ''/approve'' (trim_start_matches ''/approvals/'' path)),
              suffix ''/approve'' path)
      else None)"

datatype channel_event = Opened string string string | Received http_method string

fun channel_step :: "channel_event \<Rightarrow> ApprovalChannel \<Rightarrow> ApprovalChannel" where
  "channel_step (Opened i approver purpose) ch = open_request i approver purpose ch"
| "channel_step (Received verb url) ch = snd (route_request verb url ch)"

text \<open>The specification: a request is unknown, pending, or as decided last.\<close>

fun spec_step :: "string \<Rightarrow> channel_event \<Rightarrow> Status option \<Rightarrow> Status option" where
  "spec_step i (Opened j _ _) s = (if j = i \<and> s = None then Some Pending else s)"
| "spec_step i (Received verb url) s =
     (case decision verb url of
        Some (j, approved) \<Rightarrow> if j = i \<and> s \<noteq> None then Some (if approved then Approved else Rejected) else s
      | None \<Rightarrow> s)"

lemma status_of_resolve:
  "status_of (snd (resolve_request j approved ch)) i =
     (if j = i \<and> status_of ch i \<noteq> None then Some (if approved then Approved else Rejected) else status_of ch i)"
  by (auto simp: resolve_request_def status_of_def split: option.splits)

lemma route_request_effect:
  "snd (route_request verb url ch) =
     (case decision verb url of Some (i, approved) \<Rightarrow> snd (resolve_request i approved ch) | None \<Rightarrow> ch)"
  by (auto simp: route_request_def decision_def Let_def split: prod.splits)

lemma channel_step_refines: "status_of (channel_step e ch) i = spec_step i e (status_of ch i)"
proof (cases e)
  case (Opened j a p)
  then show ?thesis by (auto simp: open_request_def status_of_def split: option.splits)
next
  case (Received verb url)
  then show ?thesis by (simp add: route_request_effect status_of_resolve split: option.splits prod.splits)
qed

lemma channel_refines: "status_of (fold channel_step es ch) i = fold (spec_step i) es (status_of ch i)"
  by (induction es arbitrary: ch) (simp_all add: channel_step_refines)

lemma no_slash_prefix: "CHR ''/'' \<in> set pat \<Longrightarrow> CHR ''/'' \<notin> set s \<Longrightarrow> \<not> prefix pat s"
  using set_mono_prefix by blast

lemma strip_none: "\<not> prefix pat s \<Longrightarrow> strip_all [pat] s = s"
  by (rule strip_all_unchanged) simp

lemma strip_once:
  assumes "pat \<noteq> []" "\<not> prefix pat s"
  shows "strip_all [pat] (pat @ s) = s"
  using assms strip_none [OF assms(2)] by (subst strip_all.simps) simp

lemma trim_end_no_slash:
  assumes "CHR ''/'' \<in> set pat" "CHR ''/'' \<notin> set i"
  shows "trim_end_matches pat i = i" "trim_end_matches pat (i @ pat) = i"
  using assms strip_none [of "rev pat" "rev i"] strip_once [of "rev pat" "rev i"]
    no_slash_prefix [of "rev pat" "rev i"] by (cases "pat = []"; simp add: trim_end_matches_def)+

lemma trim_start_approvals:
  assumes "CHR ''/'' \<notin> set i" "hd p = CHR ''/''" "p \<noteq> []" "\<not> prefix ''/approvals/'' p"
  shows "trim_start_matches ''/approvals/'' (''/approvals/'' @ i @ p) = i @ p"
proof -
  have "\<not> prefix ''/approvals/'' (i @ p)" using assms by (cases i) auto
  then show ?thesis using strip_once [of "''/approvals/''" "i @ p"] by (simp add: trim_start_matches_def)
qed

lemma no_trailing_slash:
  "trim_end_matches ''/'' (''/approvals/'' @ i @ ''/approve'') = ''/approvals/'' @ i @ ''/approve''"
  "trim_end_matches ''/'' (''/approvals/'' @ i @ ''/deny'') = ''/approvals/'' @ i @ ''/deny''"
  by (simp_all add: trim_end_matches_def strip_none)

lemma decision_paths:
  "suffix ''/approve'' (''/approvals/'' @ i @ ''/approve'')" "suffix ''/deny'' (''/approvals/'' @ i @ ''/deny'')"
  "\<not> suffix ''/approve'' (''/approvals/'' @ i @ ''/deny'')"
  by (simp_all add: suffix_to_prefix)

lemma decision_of_id:
  assumes "CHR ''/'' \<notin> set i"
  shows "decision Post (''/approvals/'' @ i @ ''/approve'') = Some (i, True)"
    "decision Post (''/approvals/'' @ i @ ''/deny'') = Some (i, False)"
proof -
  have "trim_end_matches ''/approve'' (i @ ''/deny'') = i @ ''/deny''"
    by (simp add: trim_end_matches_def strip_none)
  with trim_end_no_slash [OF _ assms] trim_start_approvals [OF assms]
  show "decision Post (''/approvals/'' @ i @ ''/approve'') = Some (i, True)"
    "decision Post (''/approvals/'' @ i @ ''/deny'') = Some (i, False)"
    unfolding decision_def no_trailing_slash Let_def using decision_paths by simp_all
qed

text \<open>The channel refines its specification on every run: whatever requests are opened and whatever
  HTTP requests arrive, in any order, the status of an id is the one its own history gives it: none
  until it was opened, pending until a POST names it, and then the last decision; opening it again
  changes nothing. A POST to the documented path of an id without a slash decides that id.\<close>

theorem channel_keeps_decisions:
  "status_of (fold channel_step es []) i = fold (spec_step i) es None \<and>
    (CHR ''/'' \<notin> set i \<longrightarrow>
      decision Post (''/approvals/'' @ i @ ''/approve'') = Some (i, True) \<and>
      decision Post (''/approvals/'' @ i @ ''/deny'') = Some (i, False))"
  using decision_of_id [of i] channel_refines [of es "[]" i] by (simp add: status_of_def)


section \<open>A run\<close>

text \<open>An engine that knows one token, suspends mail until the resume header came, and redacts what the
  backend returned.\<close>

definition plain_identity :: "string \<Rightarrow> json TokenSource \<Rightarrow> json IdentityPayload" where
  "plain_identity token source = \<lparr> ip_raw_token = token, ip_source = source, ip_source_header = None,
     ip_headers = [], ip_client_host = None, ip_client_port = None, ip_subject = None, ip_client = None,
     ip_caller_workload = None, ip_delegation = None, ip_raw_credentials = None, ip_resolved_at = None,
     ip_raw_claims = [] \<rparr>"

definition consent :: "json loop_result" where
  "consent = \<lparr> lr_continue_processing = True, lr_violation = None, lr_modified_payload = None,
     lr_modified_extensions = None \<rparr>"

definition suspension :: PluginViolation where
  "suspension = (new_violation ''elicitation.pending'' ''ask'')\<lparr> pv_details := [(''elicitation_id'', JString ''e1'')] \<rparr>"

definition empty_http :: HttpExtension where
  "empty_http = \<lparr> request_headers = [], secret_headers = [], response_headers = [], http_status = None,
     http_method = None, http_path = None, http_host = None, http_scheme = None \<rparr>"

fun sample_answer :: "json engine_call list \<Rightarrow> json loop_result" where
  "sample_answer (InvokeIdentity p _ # _) = consent\<lparr> lr_continue_processing := (ip_raw_token p = ''jwt'') \<rparr>"
| "sample_answer (InvokeCmf hook m x # _) =
     (if hook = ''cmf.tool_post_invoke'' then
        consent\<lparr> lr_modified_payload := Some (LoopMessage (m\<lparr> message := Message JNull
          [ToolResultPart \<lparr> tr_tool_name = ''mail'', tr_content = JString ''redacted'', tr_is_error = False,
             tr_rest = JNull \<rparr>] JNull \<rparr>)) \<rparr>
      else if x_http x = None then
        consent\<lparr> lr_continue_processing := False, lr_violation := Some suspension \<rparr>
      else consent)"
| "sample_answer _ = consent"

definition sample_loop :: "json loop_env" where
  "sample_loop =
     \<lparr> meta_extension = (\<lambda>t n. JString n), agent_extension = JString, default_http = empty_http,
       set_request_header = (\<lambda>k v h. h\<lparr> request_headers := obj_insert k v (request_headers h) \<rparr>),
       source_bearer = OtherSource (JString ''bearer''), new_identity = plain_identity,
       apply_to_extensions = (\<lambda>p x. x), from_pipeline_result = (\<lambda>r. None), role_user = JString ''user'',
       role_tool = JString ''tool'', with_call_id = JString, default_rest = JNull, answer = sample_answer \<rparr>"

lemmas sample_loop_simps = mediate_def resolve_caller_def call_engine_def base_extensions_def
  identity_payload_def sample_loop_def consent_def plain_identity_def loop_message_def pre_refusal_def
  suspension_def new_violation_def denied_outcome_def shown_result_def get_tool_results_def
  with_token_def anonymous_def resuming_def no_extensions_def

lemma suspended_then_allowed:
  "fst (mediate sample_loop (with_token ''jwt'') ''mail'' JNull (\<lambda>_. JString ''sent'') []) =
     Suspended ''e1'' ''the approver''"
  "fst (mediate sample_loop (resuming ''e1'' (with_token ''jwt'')) ''mail'' JNull (\<lambda>_. JString ''sent'') []) =
     Allowed (JString ''redacted'')"
  "fst (mediate sample_loop (with_token ''forged'') ''mail'' JNull (\<lambda>_. JString ''sent'') []) =
     Denied ''policy.deny'' ''denied without a violation''"
  by (simp_all add: sample_loop_simps List.map_filter_def)

theorem every_call_is_mediated_witness:
  "\<exists>h'. mediate sample_loop (with_token ''jwt'') ''mail'' JNull (\<lambda>_. JString ''sent'') [] =
      (Suspended ''e1'' ''the approver'', h') \<and> \<not> lr_continue_processing (answer sample_loop h')"
proof -
  let ?m = "mediate sample_loop (with_token ''jwt'') ''mail'' JNull (\<lambda>_. JString ''sent'') []"
  have m: "?m = (Suspended ''e1'' ''the approver'', snd ?m)"
    using suspended_then_allowed(1) by (metis prod.collapse)
  from every_call_is_mediated [OF m] m show ?thesis by auto
qed

theorem rewrite_without_result_shows_raw_witness:
  "shown_result (consent\<lparr> lr_modified_payload := Some (LoopMessage \<lparr> message = Message JNull
     [Text ''withheld''] JNull, payload_rest = JNull \<rparr>) \<rparr>) (JString ''ssn'') = JString ''ssn''"
  by (rule rewrite_without_result_shows_raw
        [where mp = "\<lparr> message = Message JNull [Text ''withheld''] JNull, payload_rest = JNull \<rparr>"])
     (simp_all add: get_tool_results_def List.map_filter_def)

theorem channel_keeps_decisions_witness:
  "status_of (fold channel_step [Opened ''e1'' ''boss'' ''mail'', Received Post ''/approvals/e1/approve'',
     Opened ''e1'' ''boss'' ''mail''] []) ''e1'' = Some Approved"
proof -
  let ?es = "[Opened ''e1'' ''boss'' ''mail'', Received Post ''/approvals/e1/approve'', Opened ''e1'' ''boss'' ''mail'']"
  have "decision Post ''/approvals/e1/approve'' = Some (''e1'', True)"
    using channel_keeps_decisions [of ?es "''e1''"] by simp
  then have "fold (spec_step ''e1'') ?es None = Some Approved" by simp
  with channel_keeps_decisions [of ?es "''e1''"] show ?thesis by argo
qed

end
