(* ===== verification/Demo_Plugins.thy ===== *)
theory Demo_Plugins
  imports Cmf_Shim Engine_Types "HOL-Library.Char_ord" "HOL-Library.List_Lexorder"
begin

text \<open>
  The plugins the repository ships as demonstrations: the generic and the CMF plugins of the Go demo
  (\<^verbatim>\<open>examples/go-demo/ffi/src\<close>) and the audit line of the tutorial
  (\<^verbatim>\<open>examples/tutorial/src/audit.rs\<close>). A handler maps a payload and the extensions the
  engine shows the plugin to a result; the engine's accessors are the record \<open>demo_env\<close>. Of
  the log lines, those of the audit plugins are modelled.
\<close>

section \<open>What the handlers read\<close>

record 'o demo_env =
  meta_tags :: "'o \<Rightarrow> string list"
  meta_entity_type :: "'o \<Rightarrow> string option"
  meta_entity_name :: "'o \<Rightarrow> string option"
  security_subject :: "'o SecurityExtension \<Rightarrow> 'o option"
  subject_id :: "'o \<Rightarrow> string option"
  subject_roles :: "'o \<Rightarrow> string list"
  set_response_header :: "string \<Rightarrow> string \<Rightarrow> HttpExtension \<Rightarrow> HttpExtension"

datatype 'o PluginResult =
    Allow
  | Deny PluginViolation
  | ModifyExtensions "'o OwnedExtensions"

definition subject_in :: "'o demo_env \<Rightarrow> 'o Extensions \<Rightarrow> 'o option" where
  "subject_in D x = Option.bind (x_security x) (\<lambda>s. security_subject D (snd s))"

definition has_tag :: "'o demo_env \<Rightarrow> string \<Rightarrow> 'o Extensions \<Rightarrow> bool" where
  "has_tag D t x = (case x_meta x of Some m \<Rightarrow> list_ex (\<lambda>t'. t' = t) (meta_tags D (snd m)) | None \<Rightarrow> False)"

definition has_label :: "string \<Rightarrow> 'o Extensions \<Rightarrow> bool" where
  "has_label l x = (case x_security x of Some s \<Rightarrow> l \<in> set (labels (snd s)) | None \<Rightarrow> False)"

section \<open>The generic plugins\<close>

definition identity_checker :: "'o demo_env \<Rightarrow> json \<Rightarrow> 'o Extensions \<Rightarrow> 'o PluginResult" where
  "identity_checker D payload x =
     (let user = Option.bind (jget payload ''user'') as_str;
          sid = Option.bind (subject_in D x) (subject_id D) in
      case (case user of Some u \<Rightarrow> Some u | None \<Rightarrow> sid) of
        Some u \<Rightarrow> if u \<noteq> [] then Allow
                  else Deny (new_violation ''no_identity'' ''User identity is required'')
      | None \<Rightarrow> Deny (new_violation ''no_identity'' ''User identity is required''))"

definition pii_guard :: "'o demo_env \<Rightarrow> json \<Rightarrow> 'o Extensions \<Rightarrow> 'o PluginResult" where
  "pii_guard D payload x =
     (if \<not> has_tag D ''pii'' x \<and> \<not> has_label ''PII'' x then Allow
      else if (case Option.bind (jget payload ''pii_clearance'') as_bool of Some b \<Rightarrow> b | None \<Rightarrow> False) then Allow
      else Deny (new_violation ''pii_access_denied'' ''PII clearance required for this operation''))"

text \<open>The line that is logged, and the result.\<close>

definition text_or :: "string \<Rightarrow> string option \<Rightarrow> string" where
  "text_or d v = (case v of Some s \<Rightarrow> s | None \<Rightarrow> d)"

definition audit_logger :: "'o demo_env \<Rightarrow> json \<Rightarrow> 'o Extensions \<Rightarrow> string \<times> 'o PluginResult" where
  "audit_logger D payload x =
     (let tool_name = text_or ''unknown'' (Option.bind (jget payload ''tool_name'') as_str);
          user = text_or ''anonymous'' (Option.bind (jget payload ''user'') as_str);
          entity_type = text_or ''unknown'' (Option.bind (x_meta x) (\<lambda>m. meta_entity_type D (snd m))) in
      (''[audit-logger] LOG: entity_type='' @ entity_type @ '' tool='' @ tool_name @ '' user='' @ user, Allow))"

section \<open>The CMF plugins\<close>

definition tool_calls :: "'o Message \<Rightarrow> 'o ToolCall list" where
  "tool_calls m = List.map_filter (\<lambda>p. case p of ToolCallPart c \<Rightarrow> Some c | _ \<Rightarrow> None) (content m)"

definition tool_policy :: "'o demo_env \<Rightarrow> 'o MessagePayload \<Rightarrow> 'o Extensions \<Rightarrow> 'o PluginResult" where
  "tool_policy D payload x =
     (let calls = tool_calls (message payload) in
      if calls = [] then Allow
      else if has_tag D ''pii'' x \<and> \<not> has_label ''PII'' x then
        Deny (new_violation ''pii_label_required''
          (''Tool '' @ sq (case calls of c # _ \<Rightarrow> tc_name c | [] \<Rightarrow> ''unknown'')
             @ '' is PII-tagged but security context lacks PII label''))
      else if has_tag D ''admin'' x \<and>
          \<not> (case subject_in D x of Some s \<Rightarrow> list_ex (\<lambda>r. r = ''admin'') (subject_roles D s) | None \<Rightarrow> False) then
        Deny (new_violation ''admin_required'' ''This tool requires admin role'')
      else Allow)"

fun part_tool_name :: "'o ContentPart \<Rightarrow> string option" where
  "part_tool_name (ToolResultPart r) = Some (tr_tool_name r)"
| "part_tool_name (ToolCallPart c) = Some (tc_name c)"
| "part_tool_name _ = None"

fun find_map :: "('a \<Rightarrow> 'b option) \<Rightarrow> 'a list \<Rightarrow> 'b option" where
  "find_map f [] = None"
| "find_map f (x # xs) = (case f x of Some y \<Rightarrow> Some y | None \<Rightarrow> find_map f xs)"

fun part_is_error :: "'o ContentPart \<Rightarrow> bool" where
  "part_is_error (ToolResultPart r) = tr_is_error r"
| "part_is_error _ = False"

text \<open>The copy of the extensions carries the write token of the view it copies.\<close>

definition header_injector ::
  "'o engine \<Rightarrow> 'o demo_env \<Rightarrow> 'o MessagePayload \<Rightarrow> 'o Extensions \<Rightarrow> 'o PluginResult" where
  "header_injector E D payload x =
     (let tool_name = find_map part_tool_name (content (message payload));
          is_error = list_ex part_is_error (content (message payload)) in
      case tool_name of
        None \<Rightarrow> Allow
      | Some name \<Rightarrow>
          (let owned = cow_copy E x in
           ModifyExtensions
             (if http_write_token x then
                (case o_http owned of
                   None \<Rightarrow> owned
                 | Some http \<Rightarrow>
                     owned\<lparr> o_http := Some
                       (set_response_header D ''X-CPEX-Processed'' ''true''
                         (set_response_header D ''X-Tool-Status'' (if is_error then ''error'' else ''success'')
                           (set_response_header D ''X-Tool-Name'' name http))) \<rparr>)
              else owned)))"

section \<open>The audit line\<close>

definition opt_text :: "string option \<Rightarrow> json" where
  "opt_text v = (case v of Some s \<Rightarrow> JString s | None \<Rightarrow> JNull)"

definition audit_record ::
  "'o demo_env \<Rightarrow> 64 word \<Rightarrow> string \<Rightarrow> 'o MessagePayload \<Rightarrow> 'o Extensions \<Rightarrow> json" where
  "audit_record D ts plugin_name payload x =
     (let r = [(''ts'', JNumber (PosInt ts)), (''plugin'', JString plugin_name)];
          r = (case x_meta x of
                 Some m \<Rightarrow> obj_insert ''entity'' (JObject [(''type'', opt_text (meta_entity_type D (snd m))),
                             (''name'', opt_text (meta_entity_name D (snd m)))]) r
               | None \<Rightarrow> r);
          r = (case subject_in D x of
                 Some s \<Rightarrow> obj_insert ''subject'' (JObject [(''id'', opt_text (subject_id D s)),
                             (''roles'', JArray (map JString (sort (subject_roles D s))))]) r
               | None \<Rightarrow> r);
          r = (case tool_calls (message payload) of
                 c # _ \<Rightarrow> obj_insert ''tool_call'' (JObject [(''name'', JString (tc_name c)),
                             (''arg_keys'', JArray (map JString (sort (map fst (tc_arguments c)))))]) r
               | [] \<Rightarrow> r) in
      JObject r)"

text \<open>The record that is written, and the result.\<close>

definition audit_line ::
  "'o demo_env \<Rightarrow> 64 word \<Rightarrow> string \<Rightarrow> 'o MessagePayload \<Rightarrow> 'o Extensions \<Rightarrow> json \<times> 'o PluginResult" where
  "audit_line D ts plugin_name payload x = (audit_record D ts plugin_name payload x, Allow)"

section \<open>Registration\<close>

definition HOOK_DEMO_TOOL_PRE_INVOKE :: string where
  "HOOK_DEMO_TOOL_PRE_INVOKE = ''demo.tool_pre_invoke''"

definition HOOK_DEMO_TOOL_POST_INVOKE :: string where
  "HOOK_DEMO_TOOL_POST_INVOKE = ''demo.tool_post_invoke''"

datatype HookPhase = PhasePre | PhasePost

record HookMetadata =
  hm_family :: "string option"
  hm_entity_type :: "string option"
  hm_phase :: HookPhase

definition register_demo_hooks :: "(string \<rightharpoonup> HookMetadata) \<Rightarrow> (string \<rightharpoonup> HookMetadata)" where
  "register_demo_hooks reg =
     fold (\<lambda>(name, phase) reg. reg(name \<mapsto> \<lparr> hm_family = Some ''generic'', hm_entity_type = Some ''tool'', hm_phase = phase \<rparr>))
       [(HOOK_DEMO_TOOL_PRE_INVOKE, PhasePre), (HOOK_DEMO_TOOL_POST_INVOKE, PhasePost)] reg"

datatype demo_plugin = IdentityChecker | PiiGuard | AuditLogger | ToolPolicy | HeaderInjector | AuditLine

fun created_handlers :: "demo_plugin \<Rightarrow> string list" where
  "created_handlers IdentityChecker = [HOOK_DEMO_TOOL_PRE_INVOKE, HOOK_DEMO_TOOL_POST_INVOKE]"
| "created_handlers PiiGuard = [HOOK_DEMO_TOOL_PRE_INVOKE]"
| "created_handlers AuditLogger = [HOOK_DEMO_TOOL_PRE_INVOKE, HOOK_DEMO_TOOL_POST_INVOKE]"
| "created_handlers ToolPolicy = [''cmf.tool_pre_invoke'']"
| "created_handlers HeaderInjector = [''cmf.tool_pre_invoke'', ''cmf.tool_post_invoke'']"
| "created_handlers AuditLine = [''cmf.tool_pre_invoke'']"

definition register_demo_factories :: "(string \<rightharpoonup> demo_plugin) \<Rightarrow> (string \<rightharpoonup> demo_plugin)" where
  "register_demo_factories f =
     f(''demo/identity'' \<mapsto> IdentityChecker, ''demo/pii'' \<mapsto> PiiGuard, ''demo/audit'' \<mapsto> AuditLogger)"

definition register_cmf_factories :: "(string \<rightharpoonup> demo_plugin) \<Rightarrow> (string \<rightharpoonup> demo_plugin)" where
  "register_cmf_factories f =
     f(''demo/cmf-tool-policy'' \<mapsto> ToolPolicy, ''demo/cmf-header-injector'' \<mapsto> HeaderInjector)"

definition register_audit :: "(string \<rightharpoonup> demo_plugin) \<Rightarrow> (string \<rightharpoonup> demo_plugin)" where
  "register_audit f = f(''tutorial/audit-line'' \<mapsto> AuditLine)"

section \<open>Properties\<close>

text \<open>The tool policy allows a message exactly when it calls no tool, or every tag of the tool is
  met: a PII label for the tag \<^verbatim>\<open>pii\<close>, the role admin for the tag
  \<^verbatim>\<open>admin\<close>. A denial names the PII requirement first.\<close>

theorem tool_policy_decides:
  "tool_policy D payload x = Allow \<longleftrightarrow>
     tool_calls (message payload) = [] \<or>
     ((has_tag D ''pii'' x \<longrightarrow> has_label ''PII'' x) \<and>
      (has_tag D ''admin'' x \<longrightarrow> (\<exists>s. subject_in D x = Some s \<and> ''admin'' \<in> set (subject_roles D s))))"
  by (auto simp: tool_policy_def Let_def list_ex_iff split: option.splits)

text \<open>An empty \<^verbatim>\<open>user\<close> in the payload hides the subject of the extensions.\<close>

theorem empty_user_hides_subject:
  assumes "jget payload ''user'' = Some (JString [])"
  shows "identity_checker D payload x = Deny (new_violation ''no_identity'' ''User identity is required'')"
  using assms by (simp add: identity_checker_def)

theorem empty_user_hides_subject_witness:
  "identity_checker \<lparr> meta_tags = (\<lambda>_. []), meta_entity_type = (\<lambda>_. None), meta_entity_name = (\<lambda>_. None),
     security_subject = (\<lambda>_. Some JNull), subject_id = (\<lambda>_. Some ''alice''), subject_roles = (\<lambda>_. []),
     set_response_header = (\<lambda>_ _ h. h) \<rparr> (JObject [(''user'', JString [])])
     (no_extensions\<lparr> x_security := Some (0, \<lparr> labels = [], security_rest = JNull \<rparr>) \<rparr>)
   = Deny (new_violation ''no_identity'' ''User identity is required'')"
  by (rule empty_user_hides_subject) (simp add: obj_get_def)

text \<open>Two messages that differ at most in the values of tool arguments.\<close>

definition same_but_values :: "'o ContentPart \<Rightarrow> 'o ContentPart \<Rightarrow> bool" where
  "same_but_values p q \<longleftrightarrow> p = q \<or>
     (\<exists>c d. p = ToolCallPart c \<and> q = ToolCallPart d \<and> tc_name c = tc_name d \<and>
        map fst (tc_arguments c) = map fst (tc_arguments d))"

lemma tool_calls_rel:
  assumes "list_all2 same_but_values (content m) (content n)"
  shows "list_all2 (\<lambda>c d. tc_name c = tc_name d \<and> map fst (tc_arguments c) = map fst (tc_arguments d))
    (tool_calls m) (tool_calls n)"
  using assms unfolding tool_calls_def
  by (induction rule: list_all2_induct) (auto simp: same_but_values_def map_filter_simps split: ContentPart.splits)

text \<open>The audit line shows no argument value: two calls whose messages differ only in the values of
  arguments leave the same record.\<close>

theorem audit_line_shows_no_values:
  assumes "list_all2 same_but_values (content (message p)) (content (message q))"
  shows "audit_line D ts name p x = audit_line D ts name q x"
  using tool_calls_rel [OF assms]
  by (cases "tool_calls (message p)"; cases "tool_calls (message q)") (simp_all add: audit_line_def audit_record_def)

text \<open>Documented behaviour of the engine's setter: only the response headers change.\<close>

definition header_law :: "'o demo_env \<Rightarrow> bool" where
  "header_law D \<longleftrightarrow> (\<forall>k v h. \<exists>r. set_response_header D k v h = h\<lparr> response_headers := r \<rparr>)"

lemma three_headers:
  assumes "header_law D"
  shows "\<exists>r. set_response_header D k3 v3 (set_response_header D k2 v2 (set_response_header D k1 v1 h))
    = h\<lparr> response_headers := r \<rparr>"
proof -
  from assms obtain f where "\<And>k v h. set_response_header D k v h = h\<lparr> response_headers := f k v h \<rparr>"
    unfolding header_law_def by metis
  then show ?thesis by (intro exI [of _ "f k3 v3 _"]) simp
qed

text \<open>The header injector changes at most the response headers, and those only with the write token of
  the capability: whatever the message, every other slot is the copy's.\<close>

theorem header_injector_frame:
  assumes "copy_law E" "header_law D" "header_injector E D payload x = ModifyExtensions owned"
  shows "\<exists>http. owned = (cow_copy E x)\<lparr> o_http := http \<rparr> \<and>
    (\<not> http_write_token x \<longrightarrow> http = map_option snd (x_http x)) \<and>
    map_option (\<lambda>h. h\<lparr> response_headers := [] \<rparr>) http =
      map_option (\<lambda>h. (snd h)\<lparr> response_headers := [] \<rparr>) (x_http x)"
proof -
  have copied: "o_http (cow_copy E x) = map_option snd (x_http x)" using assms(1) by (simp add: copy_law_def)
  then have same: "cow_copy E x = (cow_copy E x)\<lparr> o_http := map_option snd (x_http x) \<rparr>" by simp
  from assms(3) obtain n where n: "find_map part_tool_name (content (message payload)) = Some n"
    by (auto simp: header_injector_def Let_def split: option.splits)
  define e where "e = (if list_ex part_is_error (content (message payload)) then ''error'' else ''success'')"
  from assms(3) have owned: "owned = (if http_write_token x then
      (case o_http (cow_copy E x) of None \<Rightarrow> cow_copy E x
       | Some h \<Rightarrow> (cow_copy E x)\<lparr> o_http := Some (set_response_header D ''X-CPEX-Processed'' ''true''
           (set_response_header D ''X-Tool-Status'' e (set_response_header D ''X-Tool-Name'' n h))) \<rparr>)
      else cow_copy E x)"
    unfolding header_injector_def Let_def n e_def [symmetric] by simp
  show ?thesis
  proof (cases "http_write_token x \<and> x_http x \<noteq> None")
    case True
    then obtain h where h: "x_http x = Some h" by auto
    obtain r where "set_response_header D ''X-CPEX-Processed'' ''true'' (set_response_header D ''X-Tool-Status'' e
        (set_response_header D ''X-Tool-Name'' n (snd h))) = (snd h)\<lparr> response_headers := r \<rparr>"
      using three_headers [OF assms(2)] by blast
    with True h owned copied show ?thesis
      by (intro exI [of _ "Some ((snd h)\<lparr> response_headers := r \<rparr>)"]) simp
  next
    case False
    with owned copied have "owned = cow_copy E x" by (cases "x_http x") auto
    with same show ?thesis
      by (intro exI [of _ "map_option snd (x_http x)"]) (simp add: option.map_comp comp_def)
  qed
qed

definition sample_demo :: "json demo_env" where
  "sample_demo = \<lparr> meta_tags = (\<lambda>_. []), meta_entity_type = (\<lambda>_. None), meta_entity_name = (\<lambda>_. None),
     security_subject = (\<lambda>_. Some JNull), subject_id = (\<lambda>_. Some ''alice''), subject_roles = (\<lambda>_. []),
     set_response_header = (\<lambda>k v h. h\<lparr> response_headers := obj_insert k v (response_headers h) \<rparr>) \<rparr>"

lemma sample_header_law: "header_law sample_demo"
  unfolding header_law_def sample_demo_def by auto

theorem header_injector_frame_witness:
  "\<exists>owned. header_injector sample_engine sample_demo sample_message no_extensions = ModifyExtensions owned
     \<and> o_http owned = None"
proof -
  obtain owned where o: "header_injector sample_engine sample_demo sample_message no_extensions = ModifyExtensions owned"
    by (simp add: header_injector_def sample_message_def sample_call_def Let_def)
  from header_injector_frame [OF sample_engine_laws(1) sample_header_law o] o show ?thesis
    by (auto simp: no_extensions_def)
qed

theorem audit_line_shows_no_values_witness:
  "audit_line sample_demo 0 ''audit'' sample_message no_extensions =
     audit_line sample_demo 0 ''audit'' (sample_message\<lparr> message := Message (JString ''user'')
       [Thinking ''hmm'', ToolCallPart (sample_call\<lparr> tc_arguments := [(''path'', JString ''secret'')] \<rparr>)] JNull \<rparr>)
       no_extensions"
  by (rule audit_line_shows_no_values) (simp add: sample_message_def sample_call_def same_but_values_def)

end
