(* ===== verification/Linearization.thy ===== *)
theory Linearization
  imports Cpex_Prelude
begin

text \<open>
  Concurrent objects against their sequential description. A state machine whose steps take effect
  one at a time, each effect being one operation of a sequential object on an abstraction of the
  state, behaves as that object run in the order of the effects.
\<close>

section \<open>Sequential runs\<close>

text \<open>The effects are listed newest first, each with the thread that caused it; a run is defined when
  every operation is, and gives the listed results.\<close>

fun replay :: "('op \<Rightarrow> 'a \<Rightarrow> ('r \<times> 'a) option) \<Rightarrow> ('t \<times> 'op \<times> 'r) list \<Rightarrow> 'a \<Rightarrow> 'a option" where
  "replay spec [] a = Some a"
| "replay spec ((t, c, r) # es) a =
     Option.bind (replay spec es a) (\<lambda>b.
     Option.bind (spec c b) (\<lambda>(q, b'). if q = r then Some b' else None))"

lemma replay_Cons_Some:
  "replay spec ((t, c, r) # es) a = Some b' \<longleftrightarrow>
     (\<exists>b. replay spec es a = Some b \<and> spec c b = Some (r, b'))"
  by (auto simp: bind_eq_Some_conv split: if_splits)

declare replay.simps(2) [simp del]
declare replay_Cons_Some [simp]

text \<open>An invariant of the sequential object over the effects so far.\<close>

lemma replay_invariant:
  assumes "replay spec es a = Some b" "P [] a"
    and "\<And>t c r es b b'. P es b \<Longrightarrow> spec c b = Some (r, b') \<Longrightarrow> P ((t, c, r) # es) b'"
  shows "P es b"
  using assms(1)
proof (induction es arbitrary: b)
  case Nil
  with assms(2) show ?case by simp
next
  case (Cons e es)
  obtain t c r where "e = (t, c, r)" by (cases e)
  with Cons assms(3) show ?case by auto
qed

section \<open>The contract of a concurrent object\<close>

locale linearized = invariant_system init step inv
  for init :: "'s \<Rightarrow> bool" and step :: "'s \<Rightarrow> 's \<Rightarrow> bool" and inv :: "'s \<Rightarrow> bool" +
  fixes spec :: "'op \<Rightarrow> 'a \<Rightarrow> ('r \<times> 'a) option"
    and abs :: "'s \<Rightarrow> 'a" and effects :: "'s \<Rightarrow> ('t \<times> 'op \<times> 'r) list"
  assumes init_effects: "init s \<Longrightarrow> effects s = []"
    and step_effect:
      "inv s \<Longrightarrow> step s s' \<Longrightarrow>
         effects s' = effects s \<and> abs s' = abs s \<or>
         (\<exists>t c r. effects s' = (t, c, r) # effects s \<and> spec c (abs s) = Some (r, abs s'))"
begin

lemma run_replays:
  assumes "init s0" "step\<^sup>*\<^sup>* s0 s"
  shows "replay spec (effects s) (abs s0) = Some (abs s)"
  using assms(2)
proof (induction rule: rtranclp_induct)
  case base
  with assms(1) show ?case by (simp add: init_effects)
next
  case (step t u)
  have "inv t" using assms(1) steps_inv [OF step.hyps(1)] init_inv by blast
  from step_effect [OF this step.hyps(2)] step.IH show ?case by auto
qed

end

section \<open>Histories\<close>

text \<open>A call begins, takes effect once, and ends with the result of its effect. A history lists what
  the threads did, newest first.\<close>

datatype ('op, 'r) event = Begins nat 'op | Takes nat 'op 'r | Ends nat 'op 'r

fun event_thread :: "('op, 'r) event \<Rightarrow> nat" where
  "event_thread (Begins t _) = t"
| "event_thread (Takes t _ _) = t"
| "event_thread (Ends t _ _) = t"

definition events_of :: "nat \<Rightarrow> ('op, 'r) event list \<Rightarrow> ('op, 'r) event list" where
  "events_of t h = filter (\<lambda>e. event_thread e = t) h"

lemma events_of_simps [simp]:
  "events_of t [] = []"
  "events_of t (e # h) = (if event_thread e = t then e # events_of t h else events_of t h)"
  by (simp_all add: events_of_def)

fun effects_of :: "('op, 'r) event list \<Rightarrow> (nat \<times> 'op \<times> 'r) list" where
  "effects_of [] = []"
| "effects_of (Takes t c r # h) = (t, c, r) # effects_of h"
| "effects_of (_ # h) = effects_of h"

text \<open>The events of one thread: each call takes effect once, after it began and before it ended.\<close>

fun in_phases :: "('op, 'r) event list \<Rightarrow> bool" where
  "in_phases [] \<longleftrightarrow> True"
| "in_phases (Begins t c # h) \<longleftrightarrow> (case h of [] \<Rightarrow> True | Ends _ _ _ # _ \<Rightarrow> in_phases h | _ \<Rightarrow> False)"
| "in_phases (Takes t c r # h) \<longleftrightarrow> (case h of Begins _ d # _ \<Rightarrow> d = c \<and> in_phases h | _ \<Rightarrow> False)"
| "in_phases (Ends t c r # h) \<longleftrightarrow> (case h of Takes _ d q # _ \<Rightarrow> d = c \<and> q = r \<and> in_phases h | _ \<Rightarrow> False)"

end
