(* ===== verification/Ffi_Threads.thy ===== *)
theory Ffi_Threads
  imports Linearization Ffi_Calls
begin

text \<open>
  Concurrent calls of the C interface on the two things a process sets once
  (\<^verbatim>\<open>cpex-ffi/src/lib.rs\<close>, \<^verbatim>\<open>apl.rs\<close>): the shared runtime in its
  \<^verbatim>\<open>OnceLock\<close>, which \<^verbatim>\<open>cpex_configure_runtime\<close> sets and every other
  call initializes on demand, and the install of an engine, under its mutex, with the flag that
  invocations read without it. Any number of threads call at any time; the calls that own a handle are
  subject of \<open>Ffi_Calls\<close>, and no engine is freed while a call uses it, as the interface requires.
  \<open>seq_call\<close> says what a call does when it is alone: the operations of \<open>Ffi\<close>.
\<close>

section \<open>Calls\<close>

datatype once_call =
    Configure c_int
  | UseRuntime
  | Install ptr "32 word"
  | ReadExposed nat

datatype call_result =
    Code c_int
  | GotRuntime "nat option option"
  | Flag bool

fun seq_call :: "('e, 'o) ffi_env \<Rightarrow> once_call \<Rightarrow> ('e, 'o) process \<Rightarrow> (call_result \<times> ('e, 'o) process) option" where
  "seq_call E (Configure n) p = map_option (map_prod Code id) (cpex_configure_runtime E n p)"
| "seq_call E UseRuntime p =
     Some (case shared_runtime E p of None \<Rightarrow> (GotRuntime None, p) | Some q \<Rightarrow> (GotRuntime (runtime q), q))"
| "seq_call E (Install h f) p = map_option (map_prod Code id) (cpex_apl_install E h f p)"
| "seq_call E (ReadExposed a) p =
     (case heap p a of Some (EngineBox i) \<Rightarrow> Some (Flag (expose_delegated_credentials i), p) | _ \<Rightarrow> None)"

section \<open>Threads\<close>

text \<open>Where a thread stands in its call. A built runtime that is not yet in the cell, and what an install
  made of the engine until it stores the flag, belong to the thread alone.\<close>

datatype 'e thread =
    Resting
  | Called once_call
  | Built c_int
  | Initializing
  | HoldsLock nat "32 word"
  | Ran nat "32 word" "unit unwinding" 'e
  | Stored nat "32 word"
  | Finished once_call call_result

record ('e, 'o) shared =
  mem :: "('e, 'o) process"
  once_owner :: "nat option"
  install_lock :: "nat \<Rightarrow> nat option"
  threads :: "nat \<Rightarrow> 'e thread"
  history :: "(once_call, call_result) event list"

definition idle_threads :: "('e, 'o) process \<Rightarrow> ('e, 'o) shared" where
  "idle_threads p = \<lparr> mem = p, once_owner = None, install_lock = (\<lambda>_. None), threads = (\<lambda>_. Resting), history = [] \<rparr>"

definition goto :: "nat \<Rightarrow> 'e thread \<Rightarrow> ('e, 'o) shared \<Rightarrow> ('e, 'o) shared" where
  "goto t st s = s\<lparr> threads := (threads s)(t := st) \<rparr>"

definition note_event :: "(once_call, call_result) event \<Rightarrow> ('e, 'o) shared \<Rightarrow> ('e, 'o) shared" where
  "note_event e s = s\<lparr> history := e # history s \<rparr>"

definition takes_effect :: "nat \<Rightarrow> once_call \<Rightarrow> call_result \<Rightarrow> ('e, 'o) shared \<Rightarrow> ('e, 'o) shared" where
  "takes_effect t c r s = goto t (Finished c r) (note_event (Takes t c r) s)"

definition set_runtime :: "nat option \<Rightarrow> ('e, 'o) shared \<Rightarrow> ('e, 'o) shared" where
  "set_runtime r s = s\<lparr> mem := (mem s)\<lparr> runtime := Some r \<rparr> \<rparr>"

definition put_inner :: "nat \<Rightarrow> 'e CpexEngineInner \<Rightarrow> ('e, 'o) shared \<Rightarrow> ('e, 'o) shared" where
  "put_inner a i s = s\<lparr> mem := put_engine a i (mem s) \<rparr>"

definition unlock_install :: "nat \<Rightarrow> ('e, 'o) shared \<Rightarrow> ('e, 'o) shared" where
  "unlock_install a s = s\<lparr> install_lock := (install_lock s)(a := None) \<rparr>"

text \<open>The engine a call names is live.\<close>

fun callable :: "once_call \<Rightarrow> ('e, 'o) process \<Rightarrow> bool" where
  "callable (Install h f) p = (engine_ref h p \<noteq> None)"
| "callable (ReadExposed a) p = (\<exists>i. heap p a = Some (EngineBox i))"
| "callable _ p = True"

inductive ffi_step :: "('e, 'o) ffi_env \<Rightarrow> ('e, 'o) shared \<Rightarrow> ('e, 'o) shared \<Rightarrow> bool" for E where
  begins: "threads s t = Resting \<Longrightarrow> callable c (mem s) \<Longrightarrow>
    ffi_step E s (goto t (Called c) (note_event (Begins t c) s))"
| ends: "threads s t = Finished c r \<Longrightarrow>
    ffi_step E s (goto t Resting (note_event (Ends t c r) s))"
| configure_refused: "threads s t = Called (Configure n) \<Longrightarrow> sint n \<le> 0 \<Longrightarrow>
    ffi_step E s (takes_effect t (Configure n) (Code RC_INVALID_INPUT) s)"
| configure_fails: "threads s t = Called (Configure n) \<Longrightarrow> 0 < sint n \<Longrightarrow> runtime_builds E (Some (unat n)) = Returns False \<Longrightarrow>
    ffi_step E s (takes_effect t (Configure n) (Code RC_PIPELINE_ERROR) s)"
| configure_builds: "threads s t = Called (Configure n) \<Longrightarrow> 0 < sint n \<Longrightarrow> runtime_builds E (Some (unat n)) = Returns True \<Longrightarrow>
    ffi_step E s (goto t (Built n) s)"
| set_first: "threads s t = Built n \<Longrightarrow> once_owner s = None \<Longrightarrow> runtime (mem s) = None \<Longrightarrow>
    ffi_step E s (takes_effect t (Configure n) (Code RC_OK) (set_runtime (Some (unat n)) s))"
| set_late: "threads s t = Built n \<Longrightarrow> runtime (mem s) = Some r \<Longrightarrow>
    ffi_step E s (takes_effect t (Configure n) (Code RC_INVALID_INPUT) s)"
| runtime_ready: "threads s t = Called UseRuntime \<Longrightarrow> runtime (mem s) = Some r \<Longrightarrow>
    ffi_step E s (takes_effect t UseRuntime (GotRuntime (Some r)) s)"
| runtime_starts: "threads s t = Called UseRuntime \<Longrightarrow> runtime (mem s) = None \<Longrightarrow> once_owner s = None \<Longrightarrow>
    ffi_step E s (goto t Initializing (s\<lparr> once_owner := Some t \<rparr>))"
| runtime_built: "threads s t = Initializing \<Longrightarrow> runtime_builds E (worker_threads_from_env E) = Returns True \<Longrightarrow>
    ffi_step E s (takes_effect t UseRuntime (GotRuntime (Some (worker_threads_from_env E)))
      (set_runtime (worker_threads_from_env E) (s\<lparr> once_owner := None \<rparr>)))"
| runtime_panics: "threads s t = Initializing \<Longrightarrow> runtime_builds E (worker_threads_from_env E) \<noteq> Returns True \<Longrightarrow>
    ffi_step E s (takes_effect t UseRuntime (GotRuntime None) (s\<lparr> once_owner := None \<rparr>))"
| install_null: "threads s t = Called (Install None f) \<Longrightarrow>
    ffi_step E s (takes_effect t (Install None f) (Code RC_INVALID_HANDLE) s)"
| install_refused: "threads s t = Called (Install (Some a) f) \<Longrightarrow> f AND NOT CPEX_APL_KNOWN_FLAGS \<noteq> 0 \<Longrightarrow>
    ffi_step E s (takes_effect t (Install (Some a) f) (Code RC_INVALID_INPUT) s)"
| install_locks: "threads s t = Called (Install (Some a) f) \<Longrightarrow> f AND NOT CPEX_APL_KNOWN_FLAGS = 0 \<Longrightarrow>
    install_lock s a = None \<Longrightarrow>
    ffi_step E s (goto t (HoldsLock a f) (s\<lparr> install_lock := (install_lock s)(a := Some t) \<rparr>))"
| install_was_done: "threads s t = HoldsLock a f \<Longrightarrow> heap (mem s) a = Some (EngineBox i) \<Longrightarrow>
    install_state i = Installed \<Longrightarrow>
    ffi_step E s (takes_effect t (Install (Some a) f) (Code RC_OK) (unlock_install a s))"
| install_had_failed: "threads s t = HoldsLock a f \<Longrightarrow> heap (mem s) a = Some (EngineBox i) \<Longrightarrow>
    install_state i = InstallFailed \<Longrightarrow>
    ffi_step E s (takes_effect t (Install (Some a) f) (Code RC_PANIC) (unlock_install a s))"
| install_runs: "threads s t = HoldsLock a f \<Longrightarrow> heap (mem s) a = Some (EngineBox i) \<Longrightarrow>
    install_state i = NotInstalled \<Longrightarrow>
    install_host_defaults E (f AND CPEX_APL_ALLOW_PRIVATE_DESTINATIONS \<noteq> 0) (engine_value i) = (r, e) \<Longrightarrow>
    ffi_step E s (goto t (Ran a f r e) s)"
| install_stores: "threads s t = Ran a f (Returns u) e \<Longrightarrow> heap (mem s) a = Some (EngineBox i) \<Longrightarrow>
    ffi_step E s (goto t (Stored a f) (note_event (Takes t (Install (Some a) f) (Code RC_OK))
      (put_inner a (i\<lparr> engine_value := e,
         expose_delegated_credentials := (f AND CPEX_APL_EXPOSE_DELEGATED_CREDENTIALS \<noteq> 0) \<rparr>) s)))"
| install_marks: "threads s t = Stored a f \<Longrightarrow> heap (mem s) a = Some (EngineBox i) \<Longrightarrow>
    ffi_step E s (goto t (Finished (Install (Some a) f) (Code RC_OK))
      (unlock_install a (put_inner a (i\<lparr> install_state := Installed \<rparr>) s)))"
| install_panics: "threads s t = Ran a f Unwinds e \<Longrightarrow> heap (mem s) a = Some (EngineBox i) \<Longrightarrow>
    ffi_step E s (takes_effect t (Install (Some a) f) (Code RC_PANIC)
      (unlock_install a (put_inner a (i\<lparr> engine_value := e, install_state := InstallFailed \<rparr>) s)))"
| reads_flag: "threads s t = Called (ReadExposed a) \<Longrightarrow> heap (mem s) a = Some (EngineBox i) \<Longrightarrow>
    ffi_step E s (takes_effect t (ReadExposed a) (Flag (expose_delegated_credentials i)) s)"

section \<open>The abstraction\<close>

text \<open>Between the store of the flag and the change of the install state the install has taken effect
  but the mutex still hides its state; sequentially it is done.\<close>

fun stored_on :: "'e thread \<Rightarrow> nat \<Rightarrow> bool" where
  "stored_on (Stored b _) a = (b = a)"
| "stored_on _ a = False"

definition installing :: "('e, 'o) shared \<Rightarrow> nat \<Rightarrow> bool" where
  "installing s a = (case install_lock s a of None \<Rightarrow> False | Some t \<Rightarrow> stored_on (threads s t) a)"

definition settle :: "bool \<Rightarrow> ('e, 'o) block option \<Rightarrow> ('e, 'o) block option" where
  "settle now b =
     (case b of Some (EngineBox i) \<Rightarrow> Some (EngineBox (if now then i\<lparr> install_state := Installed \<rparr> else i)) | _ \<Rightarrow> b)"

definition abstract_process :: "('e, 'o) shared \<Rightarrow> ('e, 'o) process" where
  "abstract_process s = (mem s)\<lparr> heap := (\<lambda>a. settle (installing s a) (heap (mem s) a)) \<rparr>"

section \<open>The invariant\<close>

definition live_engine :: "('e, 'o) shared \<Rightarrow> nat \<Rightarrow> bool" where
  "live_engine s a \<longleftrightarrow> (\<exists>i. heap (mem s) a = Some (EngineBox i))"

text \<open>What the state of a thread says about the shared state.\<close>

fun thread_ok :: "('e, 'o) ffi_env \<Rightarrow> ('e, 'o) shared \<Rightarrow> nat \<Rightarrow> 'e thread \<Rightarrow> bool" where
  "thread_ok E s t (Called (Install (Some a) f)) = live_engine s a"
| "thread_ok E s t (Called (ReadExposed a)) = live_engine s a"
| "thread_ok E s t (Built n) = (0 < sint n \<and> runtime_builds E (Some (unat n)) = Returns True)"
| "thread_ok E s t Initializing = (once_owner s = Some t \<and> runtime (mem s) = None)"
| "thread_ok E s t (HoldsLock a f) =
     (install_lock s a = Some t \<and> live_engine s a \<and> f AND NOT CPEX_APL_KNOWN_FLAGS = 0)"
| "thread_ok E s t (Ran a f r e) =
     (install_lock s a = Some t \<and> f AND NOT CPEX_APL_KNOWN_FLAGS = 0 \<and>
      (\<exists>i. heap (mem s) a = Some (EngineBox i) \<and> install_state i = NotInstalled \<and>
         install_host_defaults E (f AND CPEX_APL_ALLOW_PRIVATE_DESTINATIONS \<noteq> 0) (engine_value i) = (r, e)))"
| "thread_ok E s t (Stored a f) = (install_lock s a = Some t \<and> live_engine s a)"
| "thread_ok E s t _ = True"

definition threads_ok :: "('e, 'o) ffi_env \<Rightarrow> ('e, 'o) shared \<Rightarrow> bool" where
  "threads_ok E s \<longleftrightarrow> (\<forall>t. thread_ok E s t (threads s t))"

lemmas shared_defs = goto_def note_event_def takes_effect_def set_runtime_def put_inner_def put_engine_def
  unlock_install_def

lemma threads_okD: "threads_ok E s \<Longrightarrow> threads s t = st \<Longrightarrow> thread_ok E s t st"
  by (auto simp: threads_ok_def)

text \<open>A step of one thread: the others keep what they rely on, the thread gets what it needs.\<close>

lemma threads_ok_step:
  assumes "threads_ok E s" "threads s' = (threads s)(t := st)" "thread_ok E s' t st"
    and "\<And>u st'. u \<noteq> t \<Longrightarrow> thread_ok E s u st' \<Longrightarrow> thread_ok E s' u st'"
  shows "threads_ok E s'"
  using assms by (auto simp: threads_ok_def)

text \<open>Another thread relies on the runtime, the owner of the cell, and the engines and locks it
  holds.\<close>

lemma thread_ok_frame:
  assumes "thread_ok E s u st"
    and "\<And>a. live_engine s a \<Longrightarrow> live_engine s' a"
    and "\<And>a. install_lock s a = Some u \<Longrightarrow> install_lock s' a = Some u \<and> heap (mem s') a = heap (mem s) a"
    and "once_owner s = Some u \<Longrightarrow> once_owner s' = Some u \<and> runtime (mem s') = runtime (mem s)"
  shows "thread_ok E s' u st"
  using assms by (cases "(E, s, u, st)" rule: thread_ok.cases) auto

lemma live_engine_simps [simp]:
  "live_engine (goto t st s) = live_engine s"
  "live_engine (note_event e s) = live_engine s"
  "live_engine (takes_effect t c r s) = live_engine s"
  "live_engine (set_runtime q s) = live_engine s"
  "live_engine (unlock_install a s) = live_engine s"
  "live_engine (s\<lparr> once_owner := w \<rparr>) = live_engine s"
  "live_engine (s\<lparr> install_lock := l \<rparr>) = live_engine s"
  "live_engine (put_inner a i s) b \<longleftrightarrow> b = a \<or> live_engine s b"
  by (auto simp: fun_eq_iff live_engine_def shared_defs)

lemma threads_ok_preserved:
  assumes "ffi_step E s s'" and ok: "threads_ok E s"
  shows "threads_ok E s'"
  using assms(1)
proof cases
  case (begins t c)
  show ?thesis
  proof (rule threads_ok_step [OF ok, where t = t])
    show "thread_ok E s' t (Called c)"
      using begins by (cases "(c, mem s)" rule: callable.cases)
        (auto simp: live_engine_def engine_ref_def shared_defs split: option.splits block.splits)
  qed (use begins in \<open>auto simp: shared_defs live_engine_def elim!: thread_ok_frame\<close>)
qed (use threads_okD [OF ok] in \<open>fastforce intro!: threads_ok_step [OF ok] elim!: thread_ok_frame simp: shared_defs live_engine_def\<close>)+

text \<open>The history of a thread ends where the thread stands: with the begin of the call it has yet to
  carry out, with the effect of the call it has yet to end, or with an end.\<close>

fun ahead :: "'e thread \<Rightarrow> once_call option" where
  "ahead (Called c) = Some c"
| "ahead (Built n) = Some (Configure n)"
| "ahead Initializing = Some UseRuntime"
| "ahead (HoldsLock a f) = Some (Install (Some a) f)"
| "ahead (Ran a f r e) = Some (Install (Some a) f)"
| "ahead _ = None"

fun behind :: "'e thread \<Rightarrow> (once_call \<times> call_result) option" where
  "behind (Finished c r) = Some (c, r)"
| "behind (Stored a f) = Some (Install (Some a) f, Code RC_OK)"
| "behind _ = None"

definition stands_at :: "nat \<Rightarrow> (once_call, call_result) event list \<Rightarrow> 'e thread \<Rightarrow> bool" where
  "stands_at t h st =
     (case ahead st of Some c \<Rightarrow> \<exists>h'. h = Begins t c # h'
      | None \<Rightarrow> (case behind st of Some (c, r) \<Rightarrow> \<exists>h'. h = Takes t c r # h'
                 | None \<Rightarrow> h = [] \<or> (\<exists>c r h'. h = Ends t c r # h')))"

definition history_ok :: "('e, 'o) shared \<Rightarrow> bool" where
  "history_ok s \<longleftrightarrow>
     (\<forall>t. in_phases (events_of t (history s)) \<and> stands_at t (events_of t (history s)) (threads s t))"

text \<open>A step of a thread is silent or an event of its history.\<close>

inductive moves :: "nat \<Rightarrow> 'e thread \<Rightarrow> (once_call, call_result) event list \<Rightarrow> 'e thread \<Rightarrow> bool" for t where
  silent: "ahead st' = ahead st \<Longrightarrow> behind st' = behind st \<Longrightarrow> moves t st [] st'"
| begin_call: "ahead st = None \<Longrightarrow> behind st = None \<Longrightarrow> ahead st' = Some c \<Longrightarrow> moves t st [Begins t c] st'"
| take_effect: "ahead st = Some c \<Longrightarrow> ahead st' = None \<Longrightarrow> behind st' = Some (c, r) \<Longrightarrow>
    moves t st [Takes t c r] st'"
| end_call: "ahead st = None \<Longrightarrow> behind st = Some (c, r) \<Longrightarrow> ahead st' = None \<Longrightarrow> behind st' = None \<Longrightarrow>
    moves t st [Ends t c r] st'"

lemma ffi_step_moves:
  assumes "ffi_step E s s'"
  shows "\<exists>t es st. threads s' = (threads s)(t := st) \<and> history s' = es @ history s \<and> moves t (threads s t) es st"
proof -
  have "\<exists>t es st. threads s' = (threads s)(t := st) \<and> history s' = es @ history s \<and> moves t (threads s t) es st"
    if "threads s' = (threads s)(t := st)" "history s' = es @ history s" "moves t (threads s t) es st" for t st es
    using that by blast
  note move = this
  from assms show ?thesis
    by cases (rule move; simp add: shared_defs; rule moves.intros; simp)+
qed

lemma moves_history:
  assumes "moves t st es st'" "in_phases h" "stands_at t h st"
  shows "in_phases (es @ h) \<and> stands_at t (es @ h) st'"
  using assms by cases (auto simp: stands_at_def split: option.splits)

lemma moves_events: "moves t st es st' \<Longrightarrow> events_of u (es @ h) = (if u = t then es @ events_of u h else events_of u h)"
  by (auto elim!: moves.cases)

lemma history_ok_preserved:
  assumes "ffi_step E s s'" and ok: "history_ok s"
  shows "history_ok s'"
proof -
  from ffi_step_moves [OF assms(1)] obtain t es st where m: "threads s' = (threads s)(t := st)"
    "history s' = es @ history s" "moves t (threads s t) es st" by blast
  from ok have "in_phases (events_of t (history s))" "stands_at t (events_of t (history s)) (threads s t)"
    by (simp_all add: history_ok_def)
  from moves_history [OF m(3) this] ok m show ?thesis
    by (simp add: history_ok_def moves_events)
qed

section \<open>Every step is an operation or none\<close>

lemma settle_simps [simp]:
  "settle now None = None" "settle False b = b"
  "settle now (Some (EngineBox i)) =
     Some (EngineBox (if now then i\<lparr> install_state := Installed \<rparr> else i))"
  by (auto simp: settle_def split: option.splits block.splits)

lemma installing_goto:
  "stored_on (threads s t) = stored_on st \<Longrightarrow> installing (goto t st s) = installing s"
  by (auto simp: fun_eq_iff installing_def goto_def split: option.split)

lemma installing_simps [simp]:
  "installing (note_event e s) = installing s"
  "installing (set_runtime q s) = installing s"
  "installing (put_inner a i s) = installing s"
  "installing (s\<lparr> once_owner := w \<rparr>) = installing s"
  by (auto simp: fun_eq_iff installing_def shared_defs split: option.split)

lemma installing_locks:
  assumes "\<And>t. install_lock s a = Some t \<Longrightarrow> \<not> stored_on (threads s t) a"
    and "\<And>t. l = Some t \<Longrightarrow> \<not> stored_on (threads s t) a"
  shows "installing (s\<lparr> install_lock := (install_lock s)(a := l) \<rparr>) = installing s"
  using assms by (auto simp: fun_eq_iff installing_def split: option.split)

lemma fields_simps [simp]:
  "threads (set_runtime q s) = threads s" "threads (unlock_install a s) = threads s"
  "threads (put_inner a i s) = threads s"
  "history (set_runtime q s) = history s" "history (unlock_install a s) = history s"
  "history (put_inner a i s) = history s" "history (goto t st s) = history s"
  "threads (note_event e s) = threads s" "history (note_event e s) = e # history s"
  "install_lock (put_inner a i s) = install_lock s"
  by (simp_all add: shared_defs)

lemma stored_on_ext [simp]:
  "stored_on Resting = (\<lambda>_. False)" "stored_on (Called c) = (\<lambda>_. False)" "stored_on (Built n) = (\<lambda>_. False)"
  "stored_on Initializing = (\<lambda>_. False)" "stored_on (HoldsLock a f) = (\<lambda>_. False)"
  "stored_on (Ran a f r e) = (\<lambda>_. False)" "stored_on (Finished c q) = (\<lambda>_. False)"
  "stored_on (Stored a f) = (\<lambda>b. a = b)"
  by (simp_all add: fun_eq_iff)

lemma abstract_fields [simp]:
  "runtime (abstract_process s) = runtime (mem s)"
  "heap (abstract_process s) a = settle (installing s a) (heap (mem s) a)"
  by (simp_all add: abstract_process_def)

lemma abstract_simps [simp]:
  "abstract_process (note_event e s) = abstract_process s"
  "abstract_process (s\<lparr> once_owner := w \<rparr>) = abstract_process s"
  "abstract_process (set_runtime q s) = (abstract_process s)\<lparr> runtime := Some q \<rparr>"
  "abstract_process (put_inner a i s) =
     put_engine a (if installing s a then i\<lparr> install_state := Installed \<rparr> else i) (abstract_process s)"
  by (auto simp: abstract_process_def shared_defs fun_eq_iff installing_simps [unfolded shared_defs])

lemma abstract_put:
  assumes "mem s' = put_engine a i (mem s)" "installing s' = (installing s)(a := now)"
  shows "abstract_process s' = put_engine a (if now then i\<lparr> install_state := Installed \<rparr> else i) (abstract_process s)"
  using assms by (auto simp: abstract_process_def put_engine_def fun_eq_iff)

lemma abstract_goto:
  "stored_on (threads s t) = stored_on st \<Longrightarrow> abstract_process (goto t st s) = abstract_process s"
  using installing_goto [of s t st] by (simp add: abstract_process_def) (simp add: goto_def)

lemma abstract_takes:
  "stored_on (threads s t) = (\<lambda>_. False) \<Longrightarrow> abstract_process (takes_effect t c r s) = abstract_process s"
  using abstract_goto [of "note_event (Takes t c r) s" t "Finished c r"] by (simp add: takes_effect_def)

lemma abstract_lock:
  assumes "install_lock s a = None" "\<not> stored_on (threads s t) a"
  shows "abstract_process (s\<lparr> install_lock := (install_lock s)(a := Some t) \<rparr>) = abstract_process s"
  using installing_locks [of s a "Some t"] assms by (simp add: abstract_process_def)

lemma abstract_unlock:
  assumes "install_lock s a = Some t" "\<not> stored_on (threads s t) a"
  shows "abstract_process (unlock_install a s) = abstract_process s"
  using installing_locks [of s a None] assms by (simp add: abstract_process_def unlock_install_def)

lemma live_in_abstract: "live_engine s a \<Longrightarrow> \<exists>i. heap (abstract_process s) a = Some (EngineBox i)"
  by (auto simp: live_engine_def)

definition simulates :: "('e, 'o) ffi_env \<Rightarrow> ('e, 'o) shared \<Rightarrow> ('e, 'o) shared \<Rightarrow> bool" where
  "simulates E s s' \<longleftrightarrow>
     effects_of (history s') = effects_of (history s) \<and> abstract_process s' = abstract_process s \<or>
     (\<exists>t c r. effects_of (history s') = (t, c, r) # effects_of (history s) \<and>
        seq_call E c (abstract_process s) = Some (r, abstract_process s'))"

lemma simulates_silent:
  "history s' = history s \<Longrightarrow> abstract_process s' = abstract_process s \<Longrightarrow> simulates E s s'"
  by (simp add: simulates_def)

lemma simulates_takes:
  assumes "stored_on (threads s1 t) = (\<lambda>_. False)" "history s1 = history s"
    and "seq_call E c (abstract_process s) = Some (r, abstract_process s1)"
  shows "simulates E s (takes_effect t c r s1)"
  using assms by (simp add: simulates_def abstract_takes) (simp add: takes_effect_def)

lemma seq_install:
  assumes "heap p a = Some (EngineBox i)" "f AND NOT CPEX_APL_KNOWN_FLAGS = 0"
  shows "install_state i = Installed \<Longrightarrow> cpex_apl_install E (Some a) f p = Some (RC_OK, p)"
    and "install_state i = InstallFailed \<Longrightarrow> cpex_apl_install E (Some a) f p = Some (RC_PANIC, p)"
    and "install_state i = NotInstalled \<Longrightarrow>
      install_host_defaults E (f AND CPEX_APL_ALLOW_PRIVATE_DESTINATIONS \<noteq> 0) (engine_value i) = (Returns u, e) \<Longrightarrow>
      cpex_apl_install E (Some a) f p = Some (RC_OK, put_engine a (i\<lparr> engine_value := e,
        expose_delegated_credentials := (f AND CPEX_APL_EXPOSE_DELEGATED_CREDENTIALS \<noteq> 0),
        install_state := Installed \<rparr>) p)"
    and "install_state i = NotInstalled \<Longrightarrow>
      install_host_defaults E (f AND CPEX_APL_ALLOW_PRIVATE_DESTINATIONS \<noteq> 0) (engine_value i) = (Unwinds, e) \<Longrightarrow>
      cpex_apl_install E (Some a) f p =
        Some (RC_PANIC, put_engine a (i\<lparr> engine_value := e, install_state := InstallFailed \<rparr>) p)"
  using assms by (cases i; simp add: cpex_apl_install_def engine_ref_def)+

lemma put_same: "heap p a = Some (EngineBox i) \<Longrightarrow> put_engine a i p = p"
  by (simp add: put_engine_def fun_upd_idem)

lemma not_installing:
  "install_lock s a = Some t \<Longrightarrow> stored_on (threads s t) = (\<lambda>_. False) \<Longrightarrow> \<not> installing s a"
  by (simp add: installing_def)

lemma ffi_step_simulates:
  assumes "ffi_step E s s'" and ok: "threads_ok E s"
  shows "simulates E s s'"
  using assms(1)
proof cases
  case (begins t c)
  then show ?thesis by (simp add: simulates_def abstract_goto)
next
  case (install_locks t a f)
  then show ?thesis by (intro simulates_silent) (simp_all add: abstract_goto abstract_lock)
next
  case (install_was_done t a f i)
  with threads_okD [OF ok, of t] have l: "install_lock s a = Some t" "f AND NOT CPEX_APL_KNOWN_FLAGS = 0" by auto
  with install_was_done not_installing [OF l(1)] show ?thesis
    unfolding install_was_done(1)
    by (intro simulates_takes) (simp_all add: abstract_unlock seq_install)
next
  case (install_had_failed t a f i)
  with threads_okD [OF ok, of t] have l: "install_lock s a = Some t" "f AND NOT CPEX_APL_KNOWN_FLAGS = 0" by auto
  with install_had_failed not_installing [OF l(1)] show ?thesis
    unfolding install_had_failed(1)
    by (intro simulates_takes) (simp_all add: abstract_unlock seq_install)
next
  case (install_stores t a f u e i)
  from threads_okD [OF ok, of t] install_stores have l: "install_lock s a = Some t" "f AND NOT CPEX_APL_KNOWN_FLAGS = 0"
    "install_state i = NotInstalled"
    "install_host_defaults E (f AND CPEX_APL_ALLOW_PRIVATE_DESTINATIONS \<noteq> 0) (engine_value i) = (Returns u, e)" by auto
  from not_installing [OF l(1)] install_stores have no: "\<not> installing s a" by simp
  let ?i = "i\<lparr> engine_value := e,
    expose_delegated_credentials := (f AND CPEX_APL_EXPOSE_DELEGATED_CREDENTIALS \<noteq> 0) \<rparr>"
  have "installing s' = (installing s)(a := True)"
    using l(1) install_stores by (auto simp: fun_eq_iff installing_def shared_defs split: option.split)
  then have "abstract_process s' = put_engine a (?i\<lparr> install_state := Installed \<rparr>) (abstract_process s)"
    using abstract_put [of s' a ?i s True] install_stores(1) by (simp add: shared_defs)
  moreover have "seq_call E (Install (Some a) f) (abstract_process s) =
      Some (Code RC_OK, put_engine a (?i\<lparr> install_state := Installed \<rparr>) (abstract_process s))"
    using seq_install(3) [OF _ l(2,3,4), of "abstract_process s" a] no install_stores by simp
  ultimately show ?thesis unfolding install_stores(1) by (auto simp: simulates_def)
next
  case (install_marks t a f i)
  with threads_okD [OF ok, of t] have l: "install_lock s a = Some t" by auto
  with install_marks have now: "installing s a" by (simp add: installing_def)
  have "installing s' = (installing s)(a := False)"
    using l install_marks by (auto simp: fun_eq_iff installing_def shared_defs split: option.split)
  then have "abstract_process s' = put_engine a (i\<lparr> install_state := Installed \<rparr>) (abstract_process s)"
    using abstract_put [of s' a "i\<lparr> install_state := Installed \<rparr>" s False] install_marks(1) by (simp add: shared_defs)
  also have "\<dots> = abstract_process s" using now install_marks by (simp add: put_same)
  finally show ?thesis using install_marks(1) by (intro simulates_silent) simp_all
next
  case (install_panics t a f e i)
  from threads_okD [OF ok, of t] install_panics have l: "install_lock s a = Some t" "f AND NOT CPEX_APL_KNOWN_FLAGS = 0"
    "install_state i = NotInstalled"
    "install_host_defaults E (f AND CPEX_APL_ALLOW_PRIVATE_DESTINATIONS \<noteq> 0) (engine_value i) = (Unwinds, e)" by auto
  with install_panics not_installing [OF l(1)] show ?thesis
    unfolding install_panics(1)
    by (intro simulates_takes) (simp_all add: abstract_unlock seq_install)
next
  case (ends t c r)
  then show ?thesis by (simp add: simulates_def abstract_goto)
next
  case (configure_builds t n)
  then show ?thesis by (intro simulates_silent) (simp_all add: abstract_goto)
next
  case (runtime_starts t)
  then show ?thesis by (intro simulates_silent) (simp_all add: abstract_goto)
next
  case (install_runs t a f i r e)
  then show ?thesis by (intro simulates_silent) (simp_all add: abstract_goto)
next
  case (set_first t n)
  with threads_okD [OF ok, of t] show ?thesis
    unfolding set_first(1) by (intro simulates_takes) (simp_all add: cpex_configure_runtime_def)
next
  case (set_late t n r)
  with threads_okD [OF ok, of t] show ?thesis
    unfolding set_late(1) by (intro simulates_takes) (simp_all add: cpex_configure_runtime_def)
next
  case (runtime_built t)
  with threads_okD [OF ok, of t] show ?thesis
    unfolding runtime_built(1) by (intro simulates_takes) (simp_all add: shared_runtime_def)
next
  case (runtime_panics t)
  with threads_okD [OF ok, of t] show ?thesis
    unfolding runtime_panics(1) by (intro simulates_takes) (simp_all add: shared_runtime_def)
next
  case (install_refused t a f)
  with threads_okD [OF ok, of t] live_in_abstract [of s a] show ?thesis
    unfolding install_refused(1)
    by (intro simulates_takes) (auto simp: cpex_apl_install_def engine_ref_def live_engine_def)
qed (hypsubst, rule simulates_takes; simp add: cpex_configure_runtime_def shared_runtime_def
  cpex_apl_install_def engine_ref_def)+

interpretation ffi: linearized "\<lambda>s. \<exists>p. s = idle_threads p" "ffi_step E"
  "\<lambda>s. threads_ok E s \<and> history_ok s" "seq_call E" abstract_process "\<lambda>s. effects_of (history s)"
  for E :: "('e, 'o) ffi_env"
proof
  fix s s' :: "('e, 'o) shared"
  show "effects_of (history s) = []" "threads_ok E s \<and> history_ok s" if "\<exists>p. s = idle_threads p"
    using that by (auto simp: idle_threads_def threads_ok_def history_ok_def stands_at_def)
  assume inv: "threads_ok E s \<and> history_ok s" and step: "ffi_step E s s'"
  with threads_ok_preserved [OF step] history_ok_preserved [OF step]
  show "threads_ok E s' \<and> history_ok s'" by simp
  from ffi_step_simulates [OF step] inv
  show "effects_of (history s') = effects_of (history s) \<and> abstract_process s' = abstract_process s \<or>
      (\<exists>t c r. effects_of (history s') = (t, c, r) # effects_of (history s) \<and>
         seq_call E c (abstract_process s) = Some (r, abstract_process s'))"
    by (simp add: simulates_def)
qed

lemma abstract_settled:
  assumes "\<And>t. \<not> (\<exists>a f. threads s t = Stored a f)"
  shows "abstract_process s = mem s"
proof -
  have "\<not> stored_on (threads s t) a" for t a using assms [of t] by (cases "threads s t") auto
  then have "\<not> installing s a" for a by (simp add: installing_def split: option.split)
  then show ?thesis by (simp add: abstract_process_def)
qed

lemma threads_replay:
  assumes "(ffi_step E)\<^sup>*\<^sup>* (idle_threads p) s"
  shows "replay (seq_call E) (effects_of (history s)) p = Some (abstract_process s)"
  using ffi.run_replays [OF _ assms] abstract_settled [of "idle_threads p"] by (simp add: idle_threads_def)

section \<open>Properties\<close>

text \<open>C14: Concurrent calls are linearizable. On every run of any number of threads, each call takes effect
  exactly once between its begin and its end, and returns what it would return if the calls were
  carried out one after the other in the order of these effects, by the sequential operations; when no
  call is in progress the memory is what that sequential run leaves.\<close>

theorem concurrent_calls_linearize:
  assumes "(ffi_step E)\<^sup>*\<^sup>* (idle_threads p) s"
  shows "replay (seq_call E) (effects_of (history s)) p = Some (abstract_process s) \<and>
    (\<forall>t. in_phases (events_of t (history s))) \<and>
    ((\<forall>t. threads s t = Resting) \<longrightarrow> abstract_process s = mem s)"
proof -
  have "history_ok s" using ffi.steps_inv [OF assms] ffi.init_inv by blast
  then show ?thesis using threads_replay [OF assms] abstract_settled [of s] by (simp add: history_ok_def)
qed

definition configured :: "(nat \<times> once_call \<times> call_result) list \<Rightarrow> c_int list" where
  "configured es = List.map_filter (\<lambda>(t, c, r). case c of Configure n \<Rightarrow> if r = Code RC_OK then Some n else None | _ \<Rightarrow> None) es"

lemma configured_simps [simp]:
  "configured [] = []"
  "configured ((t, c, r) # es) =
     (case c of Configure n \<Rightarrow> if r = Code RC_OK then n # configured es else configured es | _ \<Rightarrow> configured es)"
  by (auto simp: configured_def map_filter_simps split: once_call.split)

definition same_runtime :: "(nat \<times> once_call \<times> call_result) list \<Rightarrow> ('e, 'o) process \<Rightarrow> bool" where
  "same_runtime es p \<longleftrightarrow>
     (case configured es of [] \<Rightarrow> True | [n] \<Rightarrow> runtime p = Some (Some (unat n)) | _ \<Rightarrow> False) \<and>
     (\<forall>(t, c, r)\<in>set es. \<forall>q. r = GotRuntime (Some q) \<longrightarrow> runtime p = Some q)"

lemma same_runtime_abstract: "same_runtime es (abstract_process s) = same_runtime es (mem s)"
  by (simp only: same_runtime_def abstract_fields(1))

text \<open>What an install returned tells what it found and did.\<close>

lemma install_cases:
  assumes "cpex_apl_install E h f b = Some (rc, b')"
  obtains (nothing) "b' = b" "rc = RC_INVALID_HANDLE \<or> rc = RC_INVALID_INPUT" "h = None \<or> f AND NOT CPEX_APL_KNOWN_FLAGS \<noteq> 0"
  | (before) a i where "h = Some a" "f AND NOT CPEX_APL_KNOWN_FLAGS = 0" "b' = b" "heap b a = Some (EngineBox i)"
      "install_state i = Installed \<and> rc = RC_OK \<or> install_state i = InstallFailed \<and> rc = RC_PANIC"
  | (runs) a i j where "h = Some a" "f AND NOT CPEX_APL_KNOWN_FLAGS = 0" "heap b a = Some (EngineBox i)"
      "install_state i = NotInstalled" "b' = put_engine a j b"
      "rc = RC_OK \<and> install_state j = Installed \<and>
         expose_delegated_credentials j = (f AND CPEX_APL_EXPOSE_DELEGATED_CREDENTIALS \<noteq> 0) \<or>
       rc = RC_PANIC \<and> install_state j = InstallFailed \<and>
         expose_delegated_credentials j = expose_delegated_credentials i"
proof (cases "h = None \<or> f AND NOT CPEX_APL_KNOWN_FLAGS \<noteq> 0")
  case True
  with assms have "b' = b" "rc = RC_INVALID_HANDLE \<or> rc = RC_INVALID_INPUT"
    by (auto simp: cpex_apl_install_def bind_eq_Some_conv engine_ref_def split: option.split_asm block.split_asm)
  then show thesis using True by (rule nothing)
next
  case False
  then obtain a where a: "h = Some a" "f AND NOT CPEX_APL_KNOWN_FLAGS = 0" by auto
  with assms obtain i where i: "heap b a = Some (EngineBox i)"
    by (auto simp: cpex_apl_install_def bind_eq_Some_conv engine_ref_def split: option.split_asm block.split_asm)
  obtain r e where r: "install_host_defaults E (f AND CPEX_APL_ALLOW_PRIVATE_DESTINATIONS \<noteq> 0) (engine_value i) = (r, e)"
    by fastforce
  show thesis
  proof (cases "install_state i")
    case NotInstalled
    with assms a i r runs show thesis
      by (cases r) (fastforce simp: cpex_apl_install_def engine_ref_def)+
  qed (use assms a i before in \<open>auto simp: cpex_apl_install_def engine_ref_def\<close>)
qed

lemma install_keeps_runtime: "cpex_apl_install E h f b = Some (rc, b') \<Longrightarrow> runtime b' = runtime b"
  by (erule install_cases) (simp_all add: put_engine_def)

lemma seq_runtime_kept:
  "seq_call E c b = Some (r, b') \<Longrightarrow> runtime b = Some q \<Longrightarrow> runtime b' = Some q \<and> r \<noteq> GotRuntime None"
  by (cases c) (auto simp: cpex_configure_runtime_def shared_runtime_def install_keeps_runtime
      split: if_splits option.splits block.splits unwinding.splits bool.splits)

text \<open>What a sequential call does to the runtime.\<close>

lemma same_runtime_kept:
  assumes same: "same_runtime es b" and call: "seq_call E c b = Some (r, b')"
  shows "same_runtime ((t, c, r) # es) b'"
proof (cases "runtime b")
  case (Some q)
  note kept = seq_runtime_kept [OF call Some]
  have no: "\<not> (\<exists>n. c = Configure n \<and> r = Code RC_OK)" and got: "r = GotRuntime (Some q') \<Longrightarrow> q' = q" for q'
    using call Some
    by (cases c; auto simp: cpex_configure_runtime_def shared_runtime_def rc_defs split: if_splits block.splits option.splits unwinding.splits bool.splits)+
  then have "configured ((t, c, r) # es) = configured es" by (cases c) simp_all
  with same kept got Some show ?thesis by (auto simp: same_runtime_def split: list.splits)
next
  case None
  with same have none: "configured es = []" "\<forall>(t, c, r)\<in>set es. \<forall>q. r \<noteq> GotRuntime (Some q)"
    by (auto simp: same_runtime_def split: list.splits)
  with call None show ?thesis
    by (cases c) (auto simp: same_runtime_def cpex_configure_runtime_def shared_runtime_def rc_defs
        split: if_splits option.splits block.splits unwinding.splits bool.splits)
qed

lemma runtime_stays:
  assumes "(ffi_step E)\<^sup>*\<^sup>* s u" "threads_ok E s" "runtime (mem s) = Some q"
  shows "runtime (mem u) = Some q"
proof -
  from assms(1) have "threads_ok E u \<and> runtime (mem u) = Some q"
  proof (induction rule: rtranclp_induct)
    case base
    from assms(2,3) show ?case ..
  next
    case (step v w)
    then have v: "threads_ok E v" "runtime (mem v) = Some q" by simp_all
    from ffi_step_simulates [OF step.hyps(2) v(1)]
    consider "abstract_process w = abstract_process v"
      | c r where "seq_call E c (abstract_process v) = Some (r, abstract_process w)"
      by (auto simp: simulates_def)
    then have "runtime (abstract_process w) = Some q"
    proof cases
      case 1
      with v(2) show ?thesis by (metis abstract_fields(1))
    qed (use v(2) in \<open>auto dest: seq_runtime_kept\<close>)
    with threads_ok_preserved [OF step.hyps(2) v(1)] show ?case by simp
  qed
  then show ?thesis ..
qed

text \<open>C15: The process has one runtime. However \<^verbatim>\<open>cpex_configure_runtime\<close> and the calls that
  initialize the runtime on demand interleave, at most one configuration is accepted, and then the
  runtime has the threads it asked for; every call that got a runtime got this one, and it never
  changes again.\<close>

theorem runtime_is_set_once:
  assumes "(ffi_step E)\<^sup>*\<^sup>* (idle_threads p) s" "runtime p = None"
  shows "same_runtime (effects_of (history s)) (mem s) \<and>
    (\<forall>s' q. runtime (mem s) = Some q \<and> (ffi_step E)\<^sup>*\<^sup>* s s' \<longrightarrow> runtime (mem s') = Some q)"
proof -
  have same: "same_runtime (effects_of (history s)) (abstract_process s)"
  proof (rule replay_invariant [OF threads_replay [OF assms(1)], where P = same_runtime])
    show "same_runtime [] p" by (simp add: same_runtime_def)
  qed (rule same_runtime_kept)
  have "threads_ok E s" using ffi.steps_inv [OF assms(1)] ffi.init_inv by blast
  with same runtime_stays [of E s] same_runtime_abstract [of "effects_of (history s)" s] show ?thesis by blast
qed

fun known_install :: "nat \<Rightarrow> nat \<times> once_call \<times> call_result \<Rightarrow> (32 word \<times> call_result) option" where
  "known_install a (t, Install (Some b) f, r) = (if b = a \<and> f AND NOT CPEX_APL_KNOWN_FLAGS = 0 then Some (f, r) else None)"
| "known_install a _ = None"

definition installs_on :: "nat \<Rightarrow> (nat \<times> once_call \<times> call_result) list \<Rightarrow> (32 word \<times> call_result) list" where
  "installs_on a es = List.map_filter (known_install a) es"

lemma installs_on_simps [simp]:
  "installs_on a [] = []"
  "installs_on a (e # es) = (case known_install a e of Some x \<Rightarrow> x # installs_on a es | None \<Rightarrow> installs_on a es)"
  by (simp_all add: installs_on_def map_filter_simps split: option.split)

definition one_install :: "nat \<Rightarrow> (nat \<times> once_call \<times> call_result) list \<Rightarrow> ('e, 'o) process \<Rightarrow> bool" where
  "one_install a es p \<longleftrightarrow>
     (\<exists>i. heap p a = Some (EngineBox i) \<and>
        (if installs_on a es = [] then install_state i = NotInstalled \<and> \<not> expose_delegated_credentials i
         else install_state i \<noteq> NotInstalled \<and>
           (\<forall>(f, r)\<in>set (installs_on a es). r = Code (if install_state i = Installed then RC_OK else RC_PANIC)) \<and>
           (expose_delegated_credentials i \<longleftrightarrow> install_state i = Installed \<and>
              fst (last (installs_on a es)) AND CPEX_APL_EXPOSE_DELEGATED_CREDENTIALS \<noteq> 0)) \<and>
        (\<forall>t. (t, ReadExposed a, Flag True) \<in> set es \<longrightarrow> expose_delegated_credentials i))"

lemma one_install_unchanged:
  assumes "known_install a (t, c, r) = None" "heap b' a = heap b a" "(c, r) \<noteq> (ReadExposed a, Flag True)"
  shows "one_install a ((t, c, r) # es) b' = one_install a es b"
  using assms by (auto simp: one_install_def)

lemma one_install_read:
  assumes "one_install a es b" "heap b' a = heap b a" "heap b a = Some (EngineBox i)" "expose_delegated_credentials i"
  shows "one_install a ((t, ReadExposed a, Flag True) # es) b'"
  using assms by (simp add: one_install_def split: if_splits)

lemma one_install_again:
  assumes "one_install a es b" "heap b a = Some (EngineBox i)" "install_state i \<noteq> NotInstalled"
    "r = Code (if install_state i = Installed then RC_OK else RC_PANIC)" "f AND NOT CPEX_APL_KNOWN_FLAGS = 0"
  shows "one_install a ((t, Install (Some a) f, r) # es) b"
proof -
  have "installs_on a es \<noteq> []" using assms(1-3) by (auto simp: one_install_def)
  then show ?thesis using assms by (auto simp: one_install_def)
qed

lemma one_install_first:
  assumes "one_install a es b" "heap b a = Some (EngineBox i)" "install_state i = NotInstalled"
    "f AND NOT CPEX_APL_KNOWN_FLAGS = 0"
    "r = Code (if install_state j = Installed then RC_OK else RC_PANIC)" "install_state j \<noteq> NotInstalled"
    "expose_delegated_credentials j \<longleftrightarrow> install_state j = Installed \<and> f AND CPEX_APL_EXPOSE_DELEGATED_CREDENTIALS \<noteq> 0"
  shows "one_install a ((t, Install (Some a) f, r) # es) (put_engine a j b)"
proof -
  have "installs_on a es = []" "\<forall>t. (t, ReadExposed a, Flag True) \<notin> set es"
    using assms(1-3) by (auto simp: one_install_def split: if_splits)
  then show ?thesis using assms(4-) by (simp add: one_install_def put_engine_def)
qed

lemma one_install_clean:
  "one_install a es b \<Longrightarrow> heap b a = Some (EngineBox i) \<Longrightarrow> install_state i = NotInstalled \<Longrightarrow>
    \<not> expose_delegated_credentials i"
  by (auto simp: one_install_def split: if_splits)

lemma one_install_kept:
  assumes one: "one_install a es b" and call: "seq_call E c b = Some (r, b')"
  shows "one_install a ((t, c, r) # es) b'"
proof (cases "\<exists>h f. c = Install h f")
  case True
  then obtain h f where c: "c = Install h f" by blast
  with call obtain rc where rc: "cpex_apl_install E h f b = Some (rc, b')" "r = Code rc" by auto
  from rc(1) show ?thesis
  proof (cases (no_simp) rule: install_cases)
    case nothing
    note unchanged = this
    then have "known_install a (t, c, r) = None" using c by (cases h) auto
    with one_install_unchanged [of a t c r b' b] unchanged(1) one c show ?thesis by simp
  next
    case (before d i)
    show ?thesis
    proof (cases "d = a")
      case True
      with before c rc(2) show ?thesis by (auto intro!: one_install_again [OF one])
    next
      case False
      with one_install_unchanged [of a t c r b' b] before(1-3) one c show ?thesis by simp
    qed
  next
    case (runs d i j)
    show ?thesis
    proof (cases "d = a")
      case True
      with runs c rc(2) one_install_clean [OF one] show ?thesis
        by (auto intro!: one_install_first [OF one])
    next
      case False
      with one_install_unchanged [of a t c r b' b] runs(1-5) one c show ?thesis by (simp add: put_engine_def)
    qed
  qed
next
  case False
  with call have heap: "heap b' = heap b"
    by (cases c) (auto simp: cpex_configure_runtime_def shared_runtime_def split: if_splits option.splits block.splits unwinding.splits bool.splits)
  have none: "known_install a (t, c, r) = None" using False by (cases c) auto
  show ?thesis
  proof (cases "(c, r) = (ReadExposed a, Flag True)")
    case True
    with call obtain i where "heap b a = Some (EngineBox i)" "expose_delegated_credentials i"
      by (auto split: option.splits block.splits)
    with one_install_read [OF one] heap True show ?thesis by simp
  qed (use one_install_unchanged [of a t c r b' b es] none heap one in simp)
qed

text \<open>C16: An engine has one install, and what it opted into is what invocations see. However installs with
  known flags and invocations interleave, all installs of an engine that took effect returned the same
  code; and when an invocation found the flag that lets credentials out, an install took effect before,
  the first of them succeeded, and it had asked for it.\<close>

theorem one_install_decides:
  assumes "(ffi_step E)\<^sup>*\<^sup>* (idle_threads p) s" "heap p a = Some (EngineBox (new_inner e))"
  shows "one_install a (effects_of (history s)) (abstract_process s) \<and>
    (\<forall>t. (t, ReadExposed a, Flag True) \<in> set (effects_of (history s)) \<longrightarrow>
       (\<exists>f. last (installs_on a (effects_of (history s))) = (f, Code RC_OK) \<and>
          installs_on a (effects_of (history s)) \<noteq> [] \<and> f AND CPEX_APL_EXPOSE_DELEGATED_CREDENTIALS \<noteq> 0))"
proof -
  let ?es = "effects_of (history s)"
  have one: "one_install a ?es (abstract_process s)"
  proof (rule replay_invariant [OF threads_replay [OF assms(1)], where P = "one_install a"])
    show "one_install a [] p" using assms(2) by (simp add: one_install_def new_inner_def)
  qed (rule one_install_kept)
  moreover have "\<exists>f. last (installs_on a ?es) = (f, Code RC_OK) \<and> installs_on a ?es \<noteq> [] \<and>
      f AND CPEX_APL_EXPOSE_DELEGATED_CREDENTIALS \<noteq> 0" if "(t, ReadExposed a, Flag True) \<in> set ?es" for t
  proof -
    from one that have ne: "installs_on a ?es \<noteq> []" by (auto simp: one_install_def split: if_splits)
    then have "last (installs_on a ?es) \<in> set (installs_on a ?es)" by simp
    with one that ne show ?thesis
      by (cases "last (installs_on a ?es)") (auto simp: one_install_def split: if_splits)
  qed
  ultimately show ?thesis by blast
qed

section \<open>Two races\<close>

text \<open>A configuration that has built its runtime while another call initializes the cell.\<close>

definition runtime_race :: "(unit, string) shared" where
  "runtime_race =
     takes_effect 1 (Configure 2) (Code RC_INVALID_INPUT)
       (takes_effect 2 UseRuntime (GotRuntime (Some (worker_threads_from_env sample_ffi)))
         (set_runtime (worker_threads_from_env sample_ffi)
           ((goto 2 Initializing
              ((goto 1 (Built 2)
                 (goto 2 (Called UseRuntime) (note_event (Begins 2 UseRuntime)
                   (goto 1 (Called (Configure 2)) (note_event (Begins 1 (Configure 2)) (idle_threads empty_process))))))
               \<lparr> once_owner := Some 2 \<rparr>))
            \<lparr> once_owner := None \<rparr>)))"

lemma last_step: "ffi_step E b c \<Longrightarrow> (ffi_step E)\<^sup>*\<^sup>* a b \<Longrightarrow> (ffi_step E)\<^sup>*\<^sup>* a c"
  by (rule rtranclp.rtrancl_into_rtrancl)

lemma runtime_race_runs: "(ffi_step sample_ffi)\<^sup>*\<^sup>* (idle_threads empty_process) runtime_race"
proof -
  have builds: "runtime_builds sample_ffi r = Returns True" for r by (simp add: sample_ffi_def)
  show ?thesis unfolding runtime_race_def
    by (rule last_step [OF ffi_step.set_late] last_step [OF ffi_step.runtime_built]
          last_step [OF ffi_step.runtime_starts] last_step [OF ffi_step.configure_builds]
          last_step [OF ffi_step.begins] rtranclp.rtrancl_refl
        | simp add: shared_defs builds empty_process_def idle_threads_def)+
qed

lemma runtime_race_history:
  "effects_of (history runtime_race) = [(1, Configure 2, Code RC_INVALID_INPUT), (2, UseRuntime, GotRuntime (Some (Some 4)))]"
  "runtime (mem runtime_race) = Some (Some 4)"
  by (simp_all add: runtime_race_def shared_defs idle_threads_def sample_threads)

text \<open>An invocation that reads the flag after an install has stored it and before the install is marked
  done.\<close>

definition install_begun :: "(unit, string) shared" where
  "install_begun =
     goto 1 (Called (Install (Some 0) 2)) (note_event (Begins 1 (Install (Some 0) 2)) (idle_threads one_engine))"

definition early_read :: "(unit, string) shared" where
  "early_read =
     takes_effect 2 (ReadExposed 0) (Flag (expose_delegated_credentials ((new_inner ())
         \<lparr> engine_value := (), expose_delegated_credentials := (2 AND CPEX_APL_EXPOSE_DELEGATED_CREDENTIALS \<noteq> (0 :: 32 word)) \<rparr>)))
       (goto 2 (Called (ReadExposed 0)) (note_event (Begins 2 (ReadExposed 0))
         (goto 1 (Stored 0 2) (note_event (Takes 1 (Install (Some 0) 2) (Code RC_OK))
           (put_inner 0 ((new_inner ())\<lparr> engine_value := (),
                expose_delegated_credentials := (2 AND CPEX_APL_EXPOSE_DELEGATED_CREDENTIALS \<noteq> (0 :: 32 word)) \<rparr>)
             (goto 1 (Ran 0 2 (Returns ()) ())
               (goto 1 (HoldsLock 0 2)
                 (install_begun\<lparr> install_lock := (install_lock install_begun)(0 := Some 1) \<rparr>))))))))"

lemma known_flags:
  "(2 :: 32 word) AND NOT CPEX_APL_KNOWN_FLAGS = 0" "(2 :: 32 word) AND CPEX_APL_EXPOSE_DELEGATED_CREDENTIALS \<noteq> 0"
  by (simp_all add: CPEX_APL_KNOWN_FLAGS_def CPEX_APL_ALLOW_PRIVATE_DESTINATIONS_def
      CPEX_APL_EXPOSE_DELEGATED_CREDENTIALS_def)

lemma install_begun_runs: "(ffi_step sample_ffi)\<^sup>*\<^sup>* (idle_threads one_engine) install_begun"
  unfolding install_begun_def
  by (rule last_step [OF ffi_step.begins] rtranclp.rtrancl_refl
    | simp add: one_engine_def idle_threads_def engine_ref_def new_inner_def)+

lemma early_read_runs: "(ffi_step sample_ffi)\<^sup>*\<^sup>* (idle_threads one_engine) early_read"
proof -
  have "install_host_defaults sample_ffi b e = (Returns (), ())" for b e
    by (simp add: install_host_defaults_def sample_ffi_def)
  note state = this install_begun_def shared_defs one_engine_def idle_threads_def engine_ref_def known_flags new_inner_def
  show ?thesis unfolding early_read_def
    by (rule last_step [OF ffi_step.reads_flag] last_step [OF ffi_step.install_stores]
          last_step [OF ffi_step.install_runs] last_step [OF ffi_step.install_locks]
          last_step [OF ffi_step.begins] install_begun_runs
        | simp add: state)+
qed

lemma early_read_effects:
  "effects_of (history early_read) = [(2, ReadExposed 0, Flag True), (1, Install (Some 0) 2, Code RC_OK)]"
  by (simp add: early_read_def install_begun_def shared_defs idle_threads_def known_flags)

theorem concurrent_calls_linearize_witness:
  "effects_of (history early_read) = [(2, ReadExposed 0, Flag True), (1, Install (Some 0) 2, Code RC_OK)] \<and>
   replay (seq_call sample_ffi) (effects_of (history early_read)) one_engine = Some (abstract_process early_read) \<and>
   in_phases (events_of 1 (history early_read))"
  using concurrent_calls_linearize [OF early_read_runs] early_read_effects by simp

theorem runtime_is_set_once_witness:
  "runtime (mem runtime_race) = Some (Some 4) \<and>
   same_runtime [(1, Configure 2, Code RC_INVALID_INPUT), (2, UseRuntime, GotRuntime (Some (Some 4)))] (mem runtime_race)"
  using runtime_is_set_once [OF runtime_race_runs] runtime_race_history by (simp add: empty_process_def)

theorem one_install_decides_witness:
  "(2, ReadExposed 0, Flag True) \<in> set (effects_of (history early_read)) \<and>
   (\<exists>f. last (installs_on 0 (effects_of (history early_read))) = (f, Code RC_OK) \<and>
      f AND CPEX_APL_EXPOSE_DELEGATED_CREDENTIALS \<noteq> 0)"
proof -
  have "(2, ReadExposed 0, Flag True) \<in> set (effects_of (history early_read))" by (simp add: early_read_effects)
  moreover have "heap one_engine 0 = Some (EngineBox (new_inner ()))" by (simp add: one_engine_def)
  ultimately show ?thesis using one_install_decides [OF early_read_runs] by blast
qed

end
