(* ===== verification/Tutorial_Plugins.thy ===== *)
theory Tutorial_Plugins
  imports Enforcement_Loop Demo_Plugins Venv
begin

text \<open>
  What the tutorial adds around the enforcement loop: the approval plugin of module 8, which turns an
  elicitation into a request on the approval channel
  (\<^verbatim>\<open>examples/m08_elicitation.rs\<close>), the business hours plugin of module 9
  (\<^verbatim>\<open>examples/m09_custom_plugin.rs\<close>), and the backends the loop calls
  (\<^verbatim>\<open>src/backends.rs\<close>). The argument \<open>U\<close> says which characters beyond ASCII are
  alphanumeric.
\<close>

section \<open>The approval plugin\<close>

definition alphanumeric_char :: "(string \<Rightarrow> bool) \<Rightarrow> string \<Rightarrow> bool" where
  "alphanumeric_char U u = (case u of [c] \<Rightarrow> ascii_alphanumeric c | _ \<Rightarrow> U u)"

definition elicitation_id_for :: "(string \<Rightarrow> bool) \<Rightarrow> string \<Rightarrow> string" where
  "elicitation_id_for U approver =
     ''elic-'' @ concat (map (\<lambda>u. if alphanumeric_char U u then u else [hyphen]) (str_chars approver))"

datatype ElicitationOp = Dispatch | Check | Validate
datatype ElicitationStatusKind = StatusPending | StatusResolved
datatype ElicitationOutcomeKind = OutcomeApproved | OutcomeDenied

record ElicitationPayload =
  el_operation :: ElicitationOp
  el_from :: string
  el_purpose :: "string option"
  el_id :: "string option"
  el_status :: "ElicitationStatusKind option"
  el_outcome :: "ElicitationOutcomeKind option"
  el_approver :: "string option"
  el_valid :: "bool option"

text \<open>\<^verbatim>\<open>elicitation_id()\<close> reads the id the engine put on the payload. Every operation
  answers with the modified payload.\<close>

definition channel_approver ::
  "(string \<Rightarrow> bool) \<Rightarrow> ElicitationPayload \<Rightarrow> ApprovalChannel \<Rightarrow> ElicitationPayload \<times> ApprovalChannel" where
  "channel_approver U payload ch =
     (case el_operation payload of
        Dispatch \<Rightarrow>
          (let approver = el_from payload; i = elicitation_id_for U approver in
           (payload\<lparr> el_id := Some i, el_status := Some StatusPending, el_approver := Some approver \<rparr>,
            open_request i approver (case el_purpose payload of Some p \<Rightarrow> p | None \<Rightarrow> ''(no purpose)'') ch))
      | Check \<Rightarrow>
          (case status_of ch (case el_id payload of Some i \<Rightarrow> i | None \<Rightarrow> []) of
             Some Approved \<Rightarrow>
               (payload\<lparr> el_status := Some StatusResolved, el_outcome := Some OutcomeApproved \<rparr>, ch)
           | Some Rejected \<Rightarrow>
               (payload\<lparr> el_status := Some StatusResolved, el_outcome := Some OutcomeDenied \<rparr>, ch)
           | _ \<Rightarrow> (payload\<lparr> el_status := Some StatusPending \<rparr>, ch))
      | Validate \<Rightarrow> (payload\<lparr> el_valid := Some True, el_approver := Some (el_from payload) \<rparr>, ch))"

section \<open>Business hours\<close>

record BusinessHours =
  open_hour :: "64 word"
  close_hour :: "64 word"

definition create_business_hours :: "json option \<Rightarrow> BusinessHours" where
  "create_business_hours config =
     (let cfg_val = (case config of Some v \<Rightarrow> v | None \<Rightarrow> JNull) in
      \<lparr> open_hour = (case Option.bind (jget cfg_val ''open_hour'') as_u64 of Some h \<Rightarrow> h | None \<Rightarrow> 9),
        close_hour = (case Option.bind (jget cfg_val ''close_hour'') as_u64 of Some h \<Rightarrow> h | None \<Rightarrow> 17) \<rparr>)"

definition requested_hour :: "'o MessagePayload \<Rightarrow> 64 word option" where
  "requested_hour payload =
     (case tool_calls (message payload) of
        c # _ \<Rightarrow> Option.bind (obj_get (tc_arguments c) ''hour'') as_u64
      | [] \<Rightarrow> None)"

definition business_hours :: "BusinessHours \<Rightarrow> 'o MessagePayload \<Rightarrow> 'o PluginResult" where
  "business_hours p payload =
     (case requested_hour payload of
        Some h \<Rightarrow>
          if open_hour p \<le> h \<and> h < close_hour p then Allow
          else Deny (new_violation ''office.closed''
            (''requested at hour '' @ show_nat (unat h) @ '', outside business hours ''
               @ show_nat (unat (open_hour p)) @ ''-'' @ show_nat (unat (close_hour p))))
      | None \<Rightarrow> Deny (new_violation ''office.no_hour''
          (''request did not carry an '' @ bq ''hour'' @ '' argument'')))"

section \<open>The backends\<close>

definition text_arg :: "string \<Rightarrow> string \<Rightarrow> json \<Rightarrow> string" where
  "text_arg k d args = (case Option.bind (jget args k) as_str of Some s \<Rightarrow> s | None \<Rightarrow> d)"

definition compensation_record :: "string \<Rightarrow> string \<Rightarrow> string \<Rightarrow> nat \<Rightarrow> string \<Rightarrow> json" where
  "compensation_record i name title salary ssn =
     JObject [(''employee_id'', JString i), (''name'', JString name), (''title'', JString title),
       (''salary'', jnat salary), (''ssn'', JString ssn)]"

definition get_compensation :: "json \<Rightarrow> json" where
  "get_compensation args =
     (let employee_id = text_arg ''employee_id'' ''e-0000'' args in
      if employee_id = ''e-1001'' then
        compensation_record ''e-1001'' ''Alice Okafor'' ''Staff Engineer'' 198000 ''521-38-7710''
      else if employee_id = ''e-1002'' then
        compensation_record ''e-1002'' ''Ben Underwood'' ''HR Business Partner'' 141500 ''492-11-6034''
      else compensation_record employee_id ''Unknown Employee'' ''n/a'' 0 ''000-00-0000'')"

definition all_repos :: "json list" where
  "all_repos =
     [JObject [(''name'', JString ''payments-core''), (''visibility'', JString ''internal'')],
      JObject [(''name'', JString ''fraud-models''), (''visibility'', JString ''internal'')],
      JObject [(''name'', JString ''brand-site''), (''visibility'', JString ''public'')]]"

definition search_repos :: "json \<Rightarrow> json" where
  "search_repos args =
     (let visibility = text_arg ''visibility'' ''internal'' args in
      JObject [(''visibility'', JString visibility),
        (''repositories'', JArray (filter (\<lambda>r. jget r ''visibility'' = Some (JString visibility)) all_repos))])"

definition send_email :: "json \<Rightarrow> json" where
  "send_email args =
     JObject [(''sent'', JBool True), (''to'', JString (text_arg ''to'' [] args)),
       (''subject'', JString (text_arg ''subject'' [] args))]"

definition dispatch_backend :: "string \<Rightarrow> json \<Rightarrow> json" where
  "dispatch_backend tool args =
     (if tool = ''get_compensation'' then get_compensation args
      else if tool = ''search_repos'' then search_repos args
      else if tool = ''send_email'' then send_email args
      else JObject [(''error'', JString (''no backend for tool '' @ sq tool))])"

section \<open>Runs of the approval plugin\<close>

text \<open>The plugin and the HTTP side share the channel: an event is a call of the plugin or a request the
  server received.\<close>

datatype approval_event = PluginCalled ElicitationPayload | HttpReceived http_method string

fun approval_step :: "(string \<Rightarrow> bool) \<Rightarrow> approval_event \<Rightarrow> ApprovalChannel \<Rightarrow> ApprovalChannel" where
  "approval_step U (PluginCalled p) ch = snd (channel_approver U p ch)"
| "approval_step U (HttpReceived verb url) ch = snd (route_request verb url ch)"

text \<open>What the history of one id says.\<close>

fun approval_spec :: "(string \<Rightarrow> bool) \<Rightarrow> string \<Rightarrow> approval_event \<Rightarrow> Status option \<Rightarrow> Status option" where
  "approval_spec U i (PluginCalled p) s =
     (if el_operation p = Dispatch \<and> elicitation_id_for U (el_from p) = i \<and> s = None then Some Pending else s)"
| "approval_spec U i (HttpReceived verb url) s =
     (case decision verb url of
        Some (j, approved) \<Rightarrow> if j = i \<and> s \<noteq> None then Some (if approved then Approved else Rejected) else s
      | None \<Rightarrow> s)"

lemma approval_step_refines: "status_of (approval_step U e ch) i = approval_spec U i e (status_of ch i)"
proof (cases e)
  case (PluginCalled p)
  then show ?thesis
    by (auto simp: channel_approver_def Let_def open_request_def status_of_def
        split: ElicitationOp.split option.splits Status.split)
next
  case (HttpReceived verb url)
  then show ?thesis using channel_step_refines [of "Received verb url" ch i] by simp
qed

lemma approvals_refine:
  "status_of (fold (approval_step U) es ch) i = fold (approval_spec U i) es (status_of ch i)"
  by (induction es arbitrary: ch) (simp_all add: approval_step_refines)

section \<open>Properties\<close>

text \<open>The approval plugin answers as the history of the id says. Whatever calls of the plugin and HTTP
  requests came before, in any order, a check of an id is resolved exactly when the id was dispatched
  and then a POST decided it, with the last decision as its outcome; and a check changes nothing.\<close>

theorem check_reports_last_decision:
  assumes "el_operation p = Check" "el_id p = Some i"
  shows "channel_approver U p (fold (approval_step U) es []) =
    ((case fold (approval_spec U i) es None of
        Some Approved \<Rightarrow> p\<lparr> el_status := Some StatusResolved, el_outcome := Some OutcomeApproved \<rparr>
      | Some Rejected \<Rightarrow> p\<lparr> el_status := Some StatusResolved, el_outcome := Some OutcomeDenied \<rparr>
      | _ \<Rightarrow> p\<lparr> el_status := Some StatusPending \<rparr>),
     fold (approval_step U) es [])"
  using assms approvals_refine [of U es "[]" i]
  by (simp add: channel_approver_def status_of_def split: option.split Status.split)

text \<open>An approval covers every later request to the same id. Once a request to an approver is approved, a
  later dispatch to an approver whose name gives the same id opens nothing and records no purpose, and
  the next check of its id is approved, although nobody was asked for it.\<close>

theorem approval_covers_later_requests:
  assumes "status_of ch (elicitation_id_for U (el_from p)) = Some Approved"
    and "el_operation p = Dispatch" "channel_approver U p ch = (out, ch')"
    and "el_operation q = Check" "el_id q = el_id out"
  shows "el_status out = Some StatusPending \<and> ch' = ch \<and>
    el_outcome (fst (channel_approver U q ch')) = Some OutcomeApproved"
  using assms by (auto simp: channel_approver_def Let_def open_request_def status_of_def)

definition asks :: "string \<Rightarrow> string \<Rightarrow> ElicitationPayload" where
  "asks approver purpose = \<lparr> el_operation = Dispatch, el_from = approver, el_purpose = Some purpose, el_id = None,
     el_status = None, el_outcome = None, el_approver = None, el_valid = None \<rparr>"

definition checks :: "string \<Rightarrow> ElicitationPayload" where
  "checks i = \<lparr> el_operation = Check, el_from = [], el_purpose = None, el_id = Some i,
     el_status = None, el_outcome = None, el_approver = None, el_valid = None \<rparr>"

lemma slugs_collide:
  "elicitation_id_for U ''ann.lee'' = ''elic-ann-lee''" "elicitation_id_for U ''ann lee'' = ''elic-ann-lee''"
  by (simp_all add: elicitation_id_for_def str_chars_ascii byte_in_def alphanumeric_char_def
      ascii_alphanumeric_def hyphen_def)

definition approved_newsletter :: ApprovalChannel where
  "approved_newsletter = [(''elic-ann-lee'', \<lparr> rq_id = ''elic-ann-lee'', rq_approver = ''ann.lee'',
     rq_purpose = ''newsletter'', rq_status = Approved \<rparr>)]"

theorem approval_covers_later_requests_witness:
  "el_outcome (fst (channel_approver (\<lambda>_. False) (checks ''elic-ann-lee'')
     (snd (channel_approver (\<lambda>_. False) (asks ''ann lee'' ''wire transfer'') approved_newsletter))))
   = Some OutcomeApproved"
proof -
  let ?U = "\<lambda>_ :: string. False" and ?p = "asks ''ann lee'' ''wire transfer''"
  obtain out ch' where run: "channel_approver ?U ?p approved_newsletter = (out, ch')" by fastforce
  have p: "el_operation ?p = Dispatch" "el_from ?p = ''ann lee''" by (simp_all add: asks_def)
  have "status_of approved_newsletter ''elic-ann-lee'' = Some Approved"
    by (simp add: approved_newsletter_def status_of_def obj_get_def)
  then have st: "status_of approved_newsletter (elicitation_id_for ?U (el_from ?p)) = Some Approved"
    by (simp only: p slugs_collide)
  have "el_id out = Some ''elic-ann-lee''"
    using run by (auto simp only: channel_approver_def p slugs_collide Let_def ElicitationOp.case prod.inject
        ElicitationPayload.simps asks_def)
  then have "el_operation (checks ''elic-ann-lee'') = Check" "el_id (checks ''elic-ann-lee'') = el_id out"
    by (simp_all add: checks_def)
  from approval_covers_later_requests [OF st p(1) run this] show ?thesis unfolding run by (elim conjE) simp
qed

theorem check_reports_last_decision_witness:
  "fst (channel_approver (\<lambda>_. False) (checks ''elic-ann-lee'')
     (fold (approval_step (\<lambda>_. False)) [PluginCalled (asks ''ann.lee'' ''mail'')] []))
   = (checks ''elic-ann-lee'')\<lparr> el_status := Some StatusPending \<rparr>"
  by (subst check_reports_last_decision [where i = "''elic-ann-lee''"])
    (simp_all add: checks_def asks_def slugs_collide)

text \<open>The business hours plugin lets a message pass exactly when its first tool call carries an hour in
  the window as an unsigned number; a window that does not open before it closes lets nothing pass.\<close>

lemma business_hours_decides:
  "business_hours p payload = Allow \<longleftrightarrow>
     (\<exists>h. requested_hour payload = Some h \<and> open_hour p \<le> h \<and> h < close_hour p)"
  by (auto simp: business_hours_def split: option.split)

lemma overnight_window_closed: "close_hour p \<le> open_hour p \<Longrightarrow> business_hours p payload \<noteq> Allow"
  by (auto simp: business_hours_decides)

text \<open>A search returns exactly the repositories of the visibility asked for.\<close>

lemma search_repos_hits:
  "jget (search_repos args) ''repositories'' =
     Some (JArray (filter (\<lambda>r. jget r ''visibility'' = Some (JString (text_arg ''visibility'' ''internal'' args))) all_repos))"
  by (simp add: search_repos_def Let_def obj_get_def)

end
