(* ===== verification/Debug_Output.thy ===== *)
theory Debug_Output
  imports Credentials Legacy_Payloads Ffi Biscuit Worker_Client Venv
begin

text \<open>
  The hand-written \<^verbatim>\<open>Debug\<close> implementations, which print the types that hold tokens:
  what a log line or a panic message can show of them. \<open>debug\<close> is the tree a formatter is
  given, \<open>shown\<close> its text under \<^verbatim>\<open>{:?}\<close>. The argument \<open>P\<close> is the escape
  the standard library's tables give a character beyond ASCII.
\<close>

section \<open>The formatter\<close>

datatype debug =
    DebugText string
  | DebugNumber int
  | DebugOption "debug option"
  | DebugList "debug list"
  | DebugStruct string "(string \<times> debug) list" bool

definition escape_ascii :: "char \<Rightarrow> string" where
  "escape_ascii c =
     (let n = of_char c :: nat; hex = (\<lambda>d. if d < 10 then char_of (48 + d) else char_of (87 + d)) in
      if n = 0 then [backslash, CHR ''0''] else if n = 9 then [backslash, CHR ''t'']
      else if n = 10 then [backslash, CHR ''n''] else if n = 13 then [backslash, CHR ''r'']
      else if c = dquote \<or> c = backslash then [backslash, c]
      else if n < 16 then [backslash] @ ''u{'' @ [hex n] @ ''}''
      else if n < 32 \<or> n = 127 then [backslash] @ ''u{'' @ [hex (n div 16), hex (n mod 16)] @ ''}''
      else [c])"

definition debug_str :: "(string \<Rightarrow> string) \<Rightarrow> string \<Rightarrow> string" where
  "debug_str P s =
     [dquote] @ concat (map (\<lambda>u. case u of [c] \<Rightarrow> escape_ascii c | _ \<Rightarrow> P u) (str_chars s)) @ [dquote]"

fun shown :: "(string \<Rightarrow> string) \<Rightarrow> debug \<Rightarrow> string" where
  "shown P (DebugText s) = debug_str P s"
| "shown P (DebugNumber n) = show_int n"
| "shown P (DebugOption None) = ''None''"
| "shown P (DebugOption (Some d)) = ''Some('' @ shown P d @ '')''"
| "shown P (DebugList ds) = ''['' @ join '', '' (map (shown P) ds) @ '']''"
| "shown P (DebugStruct name fs exhaustive) =
     name @ '' { '' @ join '', '' (map (\<lambda>(k, d). k @ '': '' @ shown P d) fs @ (if exhaustive then [] else [''..''])) @ '' }''"

definition debug_texts :: "string list \<Rightarrow> debug" where
  "debug_texts ss = DebugList (map DebugText ss)"

definition debug_opt :: "('a \<Rightarrow> debug) \<Rightarrow> 'a option \<Rightarrow> debug" where
  "debug_opt f v = DebugOption (map_option f v)"

section \<open>The implementations\<close>

definition REDACTED :: string where
  "REDACTED = ''<redacted>''"

definition debug_credential_dto :: "CredentialDto \<Rightarrow> debug" where
  "debug_credential_dto c =
     DebugStruct ''CredentialDto''
       [(''inbound'', debug_opt (\<lambda>_. DebugText REDACTED) (dto_inbound c)),
        (''delegated'', debug_opt (\<lambda>_. DebugText REDACTED) (dto_delegated c))] True"

definition debug_inbound :: "InboundCredential \<Rightarrow> debug" where
  "debug_inbound c =
     DebugStruct ''InboundCredential''
       [(''token'', DebugText REDACTED), (''source_header'', DebugText (ic_source_header c)),
        (''kind'', DebugText (ic_kind c)),
        (''header_names'', debug_opt (\<lambda>h. debug_texts (map fst h)) (ic_headers c))] True"

definition debug_delegated :: "DelegatedCredential \<Rightarrow> debug" where
  "debug_delegated c =
     DebugStruct ''DelegatedCredential''
       [(''token'', DebugText REDACTED), (''outbound_header'', DebugText (dc_outbound_header c)),
        (''audience'', DebugText (dc_audience c)), (''scopes'', debug_texts (dc_scopes c))] True"

definition debug_identity_resolve :: "IdentityResolvePayload \<Rightarrow> debug" where
  "debug_identity_resolve p =
     DebugStruct ''IdentityResolvePayload''
       [(''raw_token'', DebugText REDACTED), (''source'', DebugText (ir_source p)),
        (''header_names'', debug_texts (map fst (ir_headers p))),
        (''client_host'', debug_opt DebugText (ir_client_host p)),
        (''client_port'', debug_opt (\<lambda>n. DebugNumber (uint n)) (ir_client_port p))] True"

fun jnum_int :: "jnum \<Rightarrow> int" where
  "jnum_int (PosInt n) = uint n"
| "jnum_int (NegInt n) = sint n"
| "jnum_int (Float _) = 0"

definition debug_attenuation :: "AttenuationConfig \<Rightarrow> debug" where
  "debug_attenuation a =
     DebugStruct ''AttenuationConfig''
       [(''capabilities'', debug_texts (ac_capabilities a)),
        (''resource_template'', debug_opt DebugText (ac_resource_template a)),
        (''actions'', debug_texts (ac_actions a)),
        (''ttl_seconds'', debug_opt (\<lambda>n. DebugNumber (jnum_int n)) (ac_ttl_seconds a))] True"

definition debug_token_delegate :: "TokenDelegatePayload \<Rightarrow> debug" where
  "debug_token_delegate p =
     DebugStruct ''TokenDelegatePayload''
       [(''target_name'', DebugText (td_target_name p)), (''target_type'', DebugText (td_target_type p)),
        (''target_audience'', debug_opt DebugText (td_target_audience p)),
        (''required_permissions'', debug_texts (td_required_permissions p)),
        (''trust_domain'', debug_opt DebugText (td_trust_domain p)),
        (''auth_enforced_by'', DebugText (td_auth_enforced_by p)),
        (''route_attenuation'', debug_opt debug_attenuation (td_route_attenuation p)),
        (''bearer_token'', debug_opt (\<lambda>_. DebugText REDACTED) (td_bearer_token p))] True"

definition debug_ffi_delegated :: "FfiDelegatedCredential \<Rightarrow> debug" where
  "debug_ffi_delegated c =
     DebugStruct ''FfiDelegatedCredential''
       [(''header'', DebugText (fc_header c)), (''value'', DebugText ''[REDACTED]''),
        (''delegator'', DebugText (fc_delegator c)), (''target'', DebugText (fc_target c)),
        (''audience'', DebugText (fc_audience c)), (''scopes'', debug_texts (fc_scopes c)),
        (''expires_at'', DebugText (fc_expires_at c))] True"

definition debug_worker_client :: "client_config \<Rightarrow> client \<Rightarrow> debug" where
  "debug_worker_client cfg c =
     DebugStruct ''WorkerClient''
       [(''max_content_size'', DebugNumber (int (max_content_size cfg))),
        (''timeout_secs'', DebugNumber (uint (timeout_secs cfg)))] False"

definition debug_biscuit :: "'k BiscuitDelegator \<Rightarrow> debug" where
  "debug_biscuit d =
     DebugStruct ''BiscuitDelegator''
       [(''cfg'', DebugText (bd_name d)),
        (''default_outbound_header'', DebugText (default_outbound_header (bd_typed d))),
        (''default_ttl_seconds'', DebugNumber (uint (default_ttl_seconds (bd_typed d)))),
        (''root_public_key'', DebugText ''<elided>'')] True"

section \<open>Properties\<close>

abbreviation line_end :: char where "line_end \<equiv> CHR 0x0A"

text \<open>Names of structs and fields are literals of the source.\<close>

fun clean_names :: "debug \<Rightarrow> bool" where
  "clean_names (DebugOption (Some d)) = clean_names d"
| "clean_names (DebugList ds) = (\<forall>d\<in>set ds. clean_names d)"
| "clean_names (DebugStruct name fs _) =
     (line_end \<notin> set name \<and> (\<forall>(k, d)\<in>set fs. line_end \<notin> set k \<and> clean_names d))"
| "clean_names _ = True"

lemma join_newline: "line_end \<in> set (join sep xs) \<Longrightarrow> line_end \<in> set sep \<or> (\<exists>x\<in>set xs. line_end \<in> set x)"
  by (induction sep xs rule: join.induct) auto

lemma code_not_newline: "k mod 256 \<noteq> 10 \<Longrightarrow> char_of (k :: nat) \<noteq> line_end"
proof
  assume k: "k mod 256 \<noteq> 10" and "char_of k = line_end"
  then have "(of_char (char_of k :: char) :: nat) = of_char line_end" by simp
  with k show False by simp
qed

lemma escape_ascii_newline: "line_end \<notin> set (escape_ascii c)"
  by (auto simp: escape_ascii_def Let_def code_not_newline [THEN not_sym])

lemma debug_str_newline: "(\<And>u. line_end \<notin> set (P u)) \<Longrightarrow> line_end \<notin> set (debug_str P s)"
  by (auto simp: debug_str_def escape_ascii_newline split: list.split)

lemma show_int_newline: "line_end \<notin> set (show_int i)"
proof -
  have "line_end \<notin> set (show_nat n)" for n
  proof (induction n rule: show_nat.induct)
    case (1 n)
    then show ?case by (subst show_nat.simps) (simp add: code_not_newline [THEN not_sym])
  qed
  then show ?thesis by (simp add: show_int_def)
qed

text \<open>A rendering is one line, whatever text is in it: no value can start a line of its own in a log.\<close>

lemma shown_one_line:
  assumes "\<And>u. line_end \<notin> set (P u)" "clean_names d"
  shows "line_end \<notin> set (shown P d)"
  using assms
proof (induction P d rule: shown.induct)
  case (5 P ds)
  then show ?case by (auto dest!: join_newline)
next
  case (6 P name fs e)
  then show ?case by (fastforce dest!: join_newline split: if_splits)
qed (use assms(1) in \<open>simp_all add: debug_str_newline show_int_newline\<close>)

lemmas debug_defs = debug_inbound_def debug_delegated_def debug_credential_dto_def debug_identity_resolve_def
  debug_token_delegate_def debug_attenuation_def debug_ffi_delegated_def debug_worker_client_def
  debug_biscuit_def debug_opt_def debug_texts_def

lemma clean_opt: "(\<And>x. clean_names (f x)) \<Longrightarrow> clean_names (debug_opt f v)"
  by (cases v) (simp_all add: debug_opt_def)

lemma clean_texts: "clean_names (debug_texts ss)"
  by (simp add: debug_texts_def)

lemma clean_attenuation: "clean_names (debug_attenuation a)"
  by (simp add: debug_attenuation_def clean_opt clean_texts)

text \<open>No token reaches a log line. A rendering is the same text whatever token, header value, credential
  header value or public key the printed value holds; of a credential object and a bearer token only
  whether it is there is shown, of the worker client only its limits.\<close>

theorem debug_shows_no_secret:
  "shown P (debug_inbound (c\<lparr> ic_token := t, ic_headers := map_option (map (\<lambda>(k, v). (k, g k v))) (ic_headers c) \<rparr>))
     = shown P (debug_inbound c) \<and>
   shown P (debug_delegated (d\<lparr> dc_token := t \<rparr>)) = shown P (debug_delegated d) \<and>
   shown P (debug_credential_dto (o1\<lparr> dto_inbound := map_option gi (dto_inbound o1),
       dto_delegated := map_option gd (dto_delegated o1) \<rparr>)) = shown P (debug_credential_dto o1) \<and>
   shown P (debug_identity_resolve (i\<lparr> ir_raw_token := t, ir_headers := map (\<lambda>(k, v). (k, g k v)) (ir_headers i) \<rparr>))
     = shown P (debug_identity_resolve i) \<and>
   shown P (debug_token_delegate (b\<lparr> td_bearer_token := map_option gb (td_bearer_token b) \<rparr>))
     = shown P (debug_token_delegate b) \<and>
   shown P (debug_ffi_delegated (f\<lparr> fc_value := t \<rparr>)) = shown P (debug_ffi_delegated f) \<and>
   shown P (debug_worker_client cfg w) = shown P (debug_worker_client cfg w') \<and>
   shown P (debug_biscuit (k\<lparr> bd_root_public_key := key \<rparr>)) = shown P (debug_biscuit k)"
  by (simp add: debug_defs option.map_comp comp_def case_prod_beta)

text \<open>Every rendering is one line.\<close>

lemma debug_one_line:
  assumes "\<And>u. line_end \<notin> set (P u)"
  shows "line_end \<notin> set (shown P (debug_inbound c))" "line_end \<notin> set (shown P (debug_delegated d))"
    "line_end \<notin> set (shown P (debug_identity_resolve i))" "line_end \<notin> set (shown P (debug_token_delegate b))"
    "line_end \<notin> set (shown P (debug_ffi_delegated f))" "line_end \<notin> set (shown P (debug_credential_dto dto))"
  by (rule shown_one_line [OF assms];
      simp add: debug_inbound_def debug_delegated_def debug_identity_resolve_def debug_token_delegate_def
        debug_ffi_delegated_def debug_credential_dto_def clean_opt clean_texts clean_attenuation)+

lemma debug_example:
  "shown P (debug_delegated \<lparr> dc_token = ''secret'', dc_outbound_header = ''A'', dc_audience = ''b'', dc_scopes = [''c''] \<rparr>)
   = ''DelegatedCredential { token: '' @ [dquote] @ ''<redacted>'' @ [dquote] @ '', outbound_header: '' @ [dquote, CHR ''A'', dquote]
     @ '', audience: '' @ [dquote, CHR ''b'', dquote] @ '', scopes: ['' @ [dquote, CHR ''c'', dquote] @ ''] }''"
  by (simp add: debug_delegated_def debug_texts_def REDACTED_def debug_str_def str_chars_ascii byte_in_def
      escape_ascii_def Let_def)

end
