(* ===== verification/Spec2Isabelle.thy ===== *)
theory Spec2Isabelle
  imports Plugin_Lifecycle Venv Plugin_Factory Task_Types Biscuit Ffi_Results Py_Bindings
    Enforcement_Loop Demo_Plugins Ffi_Threads Tutorial_Plugins Debug_Output
begin

text \<open>
  A verification development for CPEX, the plugin execution framework under \<^verbatim>\<open>src/\<close>:
  the host that runs Python plugins in isolated worker processes
  (\<^verbatim>\<open>crates/cpex-hosts-python\<close>), the hook tables and payload checks of the facade
  (\<^verbatim>\<open>crates/cpex\<close>), the C interface (\<^verbatim>\<open>crates/cpex-ffi\<close>), the
  Python bindings (\<^verbatim>\<open>bindings/python/src\<close>) and
  the biscuit delegator (\<^verbatim>\<open>builtins/plugins/delegator-biscuit\<close>).

  \<^bold>\<open>How the parts interact.\<close> The policy engine (the external crate
  \<^verbatim>\<open>praxis-policy\<close>) dispatches a hook to a plugin adapter. The adapter obtains a live
  worker process, respawning it when it died, under a budget, and never after shutdown; turns
  payload, extensions and, when the plugin declared the capability, the raw credential into one
  JSON task; sends the task as a line over the worker's stdin; waits for the line with its request
  id; and turns the answer into a result of the engine. A worker runs in a virtualenv that is
  cached per plugin class and may be shared by the plugins of a package. Other languages reach the
  engine through the C interface, by handles to boxes whose ownership each call documents; Python
  programs through the bindings, whose calls are awaitables over one engine, its lifecycle calls
  serialized by a mutex and its values converted at the boundary. The factory of the host turns a plugin's entry in the
  configuration into the plugin object whose initialization builds the venv and launches the worker. The
  biscuit delegator is a builtin plugin that narrows a token for a target.

  \<^bold>\<open>Theories.\<close>
  \<^item> \<open>Cpex_Prelude\<close>, \<open>Cpex_Json\<close>, \<open>Cpex_Utf8\<close>: strings as UTF-8 byte
    lists with the library functions the code calls; JSON values with insertion-ordered objects and the
    locale \<open>key_map\<close> of their laws; the lossy decoder; the locale \<open>invariant_system\<close>
    of transition systems.
  \<^item> \<open>Host_Error\<close> (\<^verbatim>\<open>error.rs\<close>): the error type, its text, code and details, the
    bounded stderr excerpt and the mapping to the engine's error.
  \<^item> \<open>Hook_Routes\<close> (\<^verbatim>\<open>conversion.rs\<close>, \<^verbatim>\<open>cpex/src/host.rs\<close>): the hook
    tables.
  \<^item> \<open>Engine_Types\<close>: the fields of the engine's data that the code reads or writes. What
    the code only passes on is a type parameter or a parameter of the definitions that use it.
  \<^item> \<open>Credential_Payloads\<close> (\<^verbatim>\<open>credential_payloads.rs\<close>): identity and delegation
    payloads to the worker and back; \<open>Extensions_Wire\<close> (\<^verbatim>\<open>extensions.rs\<close>): what of
    the extensions is shown, and which returned changes are admitted; \<open>Credentials\<close>
    (\<^verbatim>\<open>credentials.rs\<close>): the gate of the raw credential, the choice among delegated tokens,
    and the locales \<open>task_decorator\<close> and \<open>task_pipeline\<close> for the steps that add a field
    to a task.
  \<^item> \<open>Worker_Protocol\<close> (\<^verbatim>\<open>worker.rs\<close>): the bounded line reader, refined against
    its specification through the locale \<open>frame_reader\<close>, response interpretation and the
    stderr tail; \<open>Worker_Client\<close>: concurrent calls, the reader task and its teardown as a
    step relation.
  \<^item> \<open>Legacy_Payloads\<close> (\<^verbatim>\<open>legacy/payloads.rs\<close>): the payload types with their
    serialization, one interpretation of the locale \<open>codec\<close> each; \<open>Cmf_Shim\<close>
    (\<^verbatim>\<open>legacy/cmf_shim.rs\<close>): CMF messages to legacy payloads and back;
    \<open>Conversion\<close> (\<^verbatim>\<open>conversion.rs\<close>): payloads and results at the boundary.
  \<^item> \<open>Plugin_Host\<close> (\<^verbatim>\<open>plugin.rs\<close>): the respawn budget, the handshake, the task and
    the whole of \<^verbatim>\<open>invoke\<close>, from getting a worker to the result, as one caller runs it:
    what it reads of the state that others change is an argument (\<open>worker_reads\<close>).
    \<open>Plugin_Lifecycle\<close>: any number of concurrent initialize, shutdown and respawn calls as
    a step relation, with the references that keep a worker's process alive.
  \<^item> \<open>Venv\<close> (\<^verbatim>\<open>venv.rs\<close>): cache metadata, owner registry and
    \<^verbatim>\<open>ensure\<close> over an explicit file system.
  \<^item> \<open>Plugin_Factory\<close> (\<^verbatim>\<open>factory.rs\<close>, \<^verbatim>\<open>plugin.rs\<close>,
    \<^verbatim>\<open>worker.rs\<close>): an entry's settings and defaults, the plugin and its adapters, the
    launch of a worker from venv, script and process, and the effect of \<^verbatim>\<open>initialize\<close>
    and \<^verbatim>\<open>shutdown\<close> on the registry of the shared venvs.
  \<^item> \<open>Biscuit\<close> (\<^verbatim>\<open>delegator-biscuit/src\<close>): configuration and root key, the
    Datalog source of a delegation block, and the handler.
  \<^item> \<open>Ffi\<close> (\<^verbatim>\<open>cpex-ffi/src\<close>): every exported function over a heap of boxes and
    buffers; an absent value is undefined behaviour or an abort. \<open>Ffi_Calls\<close>: the runs of a
    caller that keeps the documented contract, as a step relation over the caller's own knowledge and
    the heap; \<open>Ffi_Results\<close>: what the calls return.
  \<^item> \<open>Linearization\<close>: effects of concurrent calls replayed on a sequential object, as the
    locale \<open>linearized\<close>; \<open>Ffi_Threads\<close> (\<^verbatim>\<open>cpex-ffi/src/lib.rs\<close>,
    \<^verbatim>\<open>apl.rs\<close>): any number of threads that configure or use the shared runtime, install
    defaults under the mutex of an engine and read its flag without it, as a step relation at the grain of
    the atomic accesses; the sequential object is the operations of \<open>Ffi\<close>.
  \<^item> \<open>Py_Lifecycle\<close> (\<^verbatim>\<open>bindings/python/src/manager.rs\<close>): the lifecycle lock
    and flags, and any number of concurrent \<^verbatim>\<open>initialize\<close> and
    \<^verbatim>\<open>shutdown\<close> calls, with timeouts, cancellation and panics, as a step relation;
    \<open>Py_Bindings\<close> (\<^verbatim>\<open>conversions.rs\<close>, \<^verbatim>\<open>error.rs\<close>,
    \<^verbatim>\<open>result.rs\<close>, \<^verbatim>\<open>secrets.rs\<close>):
    Python values to JSON and back, what a call admits, what it returns and the exceptions it raises.
  \<^item> \<open>Task_Types\<close>: the type of the task a worker is sent, which every task has.
  \<^item> \<open>Enforcement_Loop\<close> (\<^verbatim>\<open>examples/tutorial/src\<close>,
    \<^verbatim>\<open>mediate.rs\<close> and \<^verbatim>\<open>approvals.rs\<close>): the loop a host owns around one
    tool call, the engine answering in the light of all calls before, and the approval channel, refined
    against the history of one request; \<open>Demo_Plugins\<close>
    (\<^verbatim>\<open>examples/go-demo/ffi/src\<close>, \<^verbatim>\<open>audit.rs\<close>): the handlers of the demonstration
    plugins; \<open>Tutorial_Plugins\<close> (\<^verbatim>\<open>examples/tutorial\<close>,
    \<^verbatim>\<open>m08_elicitation.rs\<close>, \<^verbatim>\<open>m09_custom_plugin.rs\<close>,
    \<^verbatim>\<open>backends.rs\<close>): the approval plugin, refined against the history of one id, the
    business hours plugin and the backends.
  \<^item> \<open>Debug_Output\<close>: the hand-written \<^verbatim>\<open>Debug\<close> implementations of the types
    that hold tokens.
  This theory holds the properties that span components.

  \<^bold>\<open>What the lemmas show.\<close> Credential confinement (a plugin without the capability is sent
  the same task whatever the credentials are; errors do not depend on tokens); lifecycle
  invariants over all interleavings, among them that a shutdown leaves no worker behind unless an
  initialize runs beside it, which can; each call gets the first response read for its own id; what a worker may change in extensions,
  payload and message, and that the custom extensions are not restricted; memory safety of the C interface and confinement of delegated credentials in
  it; the exact outcome of a well-formed invocation, of a denied identity and of a refused request; linearizability of its set-once calls under concurrency, one runtime per process and one install
  per engine; that no rendering for a log shows a token or more than one line; that a delegation only narrows and that no value escapes its Datalog literal; round trips of payloads and shim; idempotence of the venv cache and safety
  of a shared venv; bounds on respawns, excerpts and retained output; that a plugin is initialized only
  with a worker of its own ensured venv that passed the handshake, on the absolute script of the
  configuration or the first candidate that exists, and that its shutdown releases its claim; for the
  bindings, that the lifecycle calls the engine receives never overlap, that a shutdown that returned is
  final and that the tasks end whatever the scheduling, that Python values survive the boundary, and
  which requests are refused with which exception; that every tool call of the enforcement loop is
  mediated, with the arguments the caller gave whatever the Pre phase made of them and possibly a
  denial after the backend ran, and every task well typed. Where the code does not do what it says,
  the behaviour itself is the theorem.

  \<^bold>\<open>Bounds and fuel.\<close> The line reader recurses on the list of buffers and the stderr loop on
  the number of lines read, so neither needs fuel; the transition systems have unboundedly many
  callers and steps. Machine integers are words where the code converts or saturates
  (\<^verbatim>\<open>u64\<close> milliseconds and lifetimes, JSON numbers, status codes,
  \<^verbatim>\<open>c_int\<close> codes and lengths).

  \<^bold>\<open>External code.\<close> The policy engine, \<^verbatim>\<open>serde\<close> of its types, the clock, the file
  system, the hash function and the Python tools are arguments; what the code relies on is a named
  hypothesis (\<open>copy_law\<close>, \<open>time_law\<close>, \<open>message_law\<close>,
  \<open>codec_law\<close>, \<open>tools_law\<close> and others), and each property that uses one has a
  witness with a concrete instance.

  \<^bold>\<open>Not modelled.\<close> Process spawning, pipes and signals below the worker client; the wire
  format of MessagePack; a \<^verbatim>\<open>shutdown\<close> of a plugin that is
  dropped before it is done (in \<open>Plugin_Lifecycle\<close> it is polled to its end, while the other
  calls may be dropped anywhere); interleaving of the calls of the C interface that own a handle (they are
  sequential here; an engine takes them through its own synchronization), and weak memory (the flag is
  stored with release and loaded with acquire ordering); what is logged; the facade's re-exports and the factory of the biscuit
  delegator, which wraps a constructor; the secret provider's clock shown by
  \<^verbatim>\<open>secrets_last_success\<close>; the token requests, main functions
  and printing of the tutorial programs.
\<close>

section \<open>Hook names across the tables\<close>

lemma for_hook_in: "for_hook h = Some shim \<Longrightarrow> (h, shim) \<in> set SHIMMED_HOOKS"
  by (auto simp: for_hook_def find_Some_iff in_set_conv_nth)

lemma legacy_name_removed:
  assumes "legacy_hook_name h = Some l"
  shows "removed_hook_replacement l = Some h"
proof -
  from assms obtain shim where shim: "for_hook h = Some shim" "l = legacy_hook shim"
    by (auto simp: legacy_hook_name_def)
  have "list_all (\<lambda>(h, shim). removed_hook_replacement (legacy_hook shim) = Some h) SHIMMED_HOOKS"
    by (simp add: SHIMMED_HOOKS_def removed_hook_replacement_def REMOVED_HOOKS_def)
  with for_hook_in [OF shim(1)] shim(2) show ?thesis by (auto simp: list_all_iff)
qed

lemma llm_worker_names:
  "worker_hook_name ''cmf.llm_input'' = ''cmf.llm_input''" "worker_hook_name ''cmf.llm_output'' = ''cmf.llm_output''"
  by (simp_all add: worker_hook_name_def lookup_route_def HOOK_ROUTES_def route_def)

text \<open>The hook tables of the host, the legacy shim and the bindings agree: whatever name a worker is
  addressed by, natively or through the shim, it is the dispatched name itself or a removed name
  whose one replacement is the dispatched name, so no two dispatched hooks share a worker name.\<close>

theorem worker_names_are_unambiguous:
  assumes "worker_hook_for h legacy \<noteq> h"
  shows "removed_hook_replacement (worker_hook_for h legacy) = Some h"
  using assms legacy_name_removed worker_spelling_is_removed
  by (auto simp: worker_hook_for_def split: option.splits if_splits)

theorem worker_names_are_unambiguous_witness:
  "removed_hook_replacement (worker_hook_for ''cmf.prompt_pre_invoke'' True) = Some ''cmf.prompt_pre_invoke''"
  by (rule worker_names_are_unambiguous)
     (simp add: worker_hook_for_def legacy_hook_name_def for_hook_def SHIMMED_HOOKS_def)

section \<open>From the declaration of a plugin to the message it is sent\<close>

text \<open>C40: An LLM hook is never squeezed through the legacy shim: whatever worker an invocation of a plugin
  that declares such a hook is given, on whatever run of launches, deaths, respawns and shutdown,
  that worker has claimed native dispatch, so the message goes out unshimmed under the
  dispatched name instead of failing.\<close>

theorem llm_hooks_are_served_natively:
  assumes "lifecycle_reachable C s" "callers s i = Got (Inr w)"
    and "h \<in> set (pc_hooks C)" "h \<in> {''cmf.llm_input'', ''cmf.llm_output''}"
  shows "make_shim H h (needs_legacy_cmf (handshake s w)) payload = Inr None \<and>
    worker_hook_for h (needs_legacy_cmf (handshake s w)) = h"
proof -
  have "FEATURE_CMF_HOOKS \<in> set (required_worker_features C)"
    using assms(3,4) required_feature_iff(3) [of C] by auto
  with served_passed [OF assms(1,2)] have "\<not> needs_legacy_cmf (handshake s w)"
    by (auto simp: passed_def reports_def needs_legacy_cmf_def split: option.splits)
  moreover have "worker_hook_name h = h"
    using assms(4) llm_worker_names by auto
  ultimately show ?thesis by (simp add: make_shim_def worker_hook_for_def)
qed

definition llm_config :: plugin_config where
  "llm_config = (identity_plugin [])\<lparr> pc_hooks := [''cmf.llm_input''] \<rparr>"

lemma llm_probe_passes:
  "\<exists>r. verify_worker_understands llm_config None (Inr (JObject [(''features'', JArray [JString ''cmf_hooks''])]))
      = (Inr (), r)"
  by (simp add: verify_worker_understands_def required_worker_features_def identity_plugin_def llm_config_def
      capabilities_of_def report_of_def has_feature_def FEATURE_CMF_HOOKS_def Let_def obj_get_def)

theorem llm_hooks_are_served_natively_witness:
  "\<exists>s. lifecycle_reachable llm_config s \<and>
     make_shim sample_env ''cmf.llm_input'' (needs_legacy_cmf (handshake s 0)) (PMessage sample_message) = Inr None"
proof -
  from llm_probe_passes obtain r where r: "lifecycle_reachable llm_config (running r)"
    using reach_running by blast
  let ?s = "at 7 (Got (Inr 0)) (running r)"
  have "lifecycle_action llm_config (running r) ?s"
    by (rule call_alive) (simp_all add: from_config_def running_def)
  from lifecycle_go [OF r this] have s: "lifecycle_reachable llm_config ?s"
    by (simp add: referenced_def at_def running_def)
  have "callers ?s 7 = Got (Inr 0)" by (simp add: at_def)
  from llm_hooks_are_served_natively [OF s this, of "''cmf.llm_input''"] s show ?thesis
    by (auto simp: llm_config_def)
qed

end
